(* ===== verification/Prelude.thy ===== *)
theory Prelude
  imports Main
begin

text \<open>
  Shared vocabulary of the development: the transaction monad in which every
  database operation of the marketplace is written, the list-of-rows tables it
  works on, and the two judgements (\<open>keeps\<close> and \<open>same\<close>) in which invariants
  and frame conditions are stated.

  A \<open>db.transaction(async tx => ...)\<close> of the source is a function from the
  state to either an error or a value and a new state.  The error carries no
  state: a \<open>throw\<close> inside a transaction rolls every write of it back.
\<close>

named_theorems run_simps "how a transaction that returned must have run"
named_theorems keeps_intros "invariants through the transaction combinators"
named_theorems same_intros "frame conditions through the transaction combinators"

section \<open>Transactions\<close>

type_synonym ('s, 'e, 'a) tx = "'s \<Rightarrow> 'e + 'a \<times> 's"

definition ret :: "'a \<Rightarrow> ('s, 'e, 'a) tx" where
  "ret a = (\<lambda>s. Inr (a, s))"

definition throw :: "'e \<Rightarrow> ('s, 'e, 'a) tx" where
  "throw e = (\<lambda>s. Inl e)"

definition lift_result :: "'e + 'a \<Rightarrow> ('s, 'e, 'a) tx" where
  "lift_result r = (case r of Inl e \<Rightarrow> throw e | Inr a \<Rightarrow> ret a)"

definition bnd :: "('s, 'e, 'a) tx \<Rightarrow> ('a \<Rightarrow> ('s, 'e, 'b) tx) \<Rightarrow> ('s, 'e, 'b) tx" where
  "bnd m f = (\<lambda>s. case m s of Inl e \<Rightarrow> Inl e | Inr p \<Rightarrow> f (fst p) (snd p))"

text \<open>\<open>await a; await b\<close> with the value of \<open>a\<close> unused.\<close>

definition andthen :: "('s, 'e, 'a) tx \<Rightarrow> ('s, 'e, 'b) tx \<Rightarrow> ('s, 'e, 'b) tx" where
  "andthen m n = bnd m (\<lambda>_. n)"

text \<open>\<open>if (!c) throw e\<close>.\<close>

definition require :: "bool \<Rightarrow> 'e \<Rightarrow> ('s, 'e, unit) tx" where
  "require c e = (if c then ret () else throw e)"

text \<open>\<open>if (c) await m\<close>.\<close>

definition onlyif :: "bool \<Rightarrow> ('s, 'e, unit) tx \<Rightarrow> ('s, 'e, unit) tx" where
  "onlyif c m = (if c then m else ret ())"

definition asks :: "('s \<Rightarrow> 'a) \<Rightarrow> ('s, 'e, 'a) tx" where
  "asks f = (\<lambda>s. Inr (f s, s))"

definition modify :: "('s \<Rightarrow> 's) \<Rightarrow> ('s, 'e, unit) tx" where
  "modify f = (\<lambda>s. Inr ((), f s))"

text \<open>\<open>for (const x of xs) await f(x)\<close>.\<close>

fun foreach :: "'a list \<Rightarrow> ('a \<Rightarrow> ('s, 'e, unit) tx) \<Rightarrow> ('s, 'e, unit) tx" where
  "foreach [] f = ret ()"
| "foreach (x # xs) f = andthen (f x) (foreach xs f)"

text \<open>
  \<open>db.transaction(m)\<close> seen from outside: the answer, and the state that is
  committed.  After an error it is the state before.
\<close>

definition transaction :: "('s, 'e, 'a) tx \<Rightarrow> 's \<Rightarrow> ('e + 'a) \<times> 's" where
  "transaction m s = (case m s of Inl e \<Rightarrow> (Inl e, s) | Inr p \<Rightarrow> (Inr (fst p), snd p))"

text \<open>\<open>const [row] = ...; if (!row) throw e\<close>, for a list of rows and for an optional one.\<close>

definition first_or :: "'e \<Rightarrow> 'a list \<Rightarrow> ('s, 'e, 'a) tx" where
  "first_or e rows = (case rows of [] \<Rightarrow> throw e | r # _ \<Rightarrow> ret r)"

definition some_or :: "'e \<Rightarrow> 'a option \<Rightarrow> ('s, 'e, 'a) tx" where
  "some_or e row = (case row of None \<Rightarrow> throw e | Some r \<Rightarrow> ret r)"

lemma ret_run [run_simps, simp]: "ret a s = Inr p \<longleftrightarrow> p = (a, s)"
  by (auto simp: ret_def)

lemma throw_run [run_simps, simp]: "throw e s \<noteq> Inr p"
  by (simp add: throw_def)

lemma lift_result_run [run_simps, simp]: "lift_result r s = Inr p \<longleftrightarrow> (\<exists>a. r = Inr a \<and> p = (a, s))"
  by (auto simp: lift_result_def throw_def ret_def split: sum.splits)

lemma bnd_run [run_simps]: "bnd m f s = Inr p \<longleftrightarrow> (\<exists>a s1. m s = Inr (a, s1) \<and> f a s1 = Inr p)"
  by (auto simp: bnd_def split: sum.splits)

lemma andthen_run [run_simps]: "andthen m n s = Inr p \<longleftrightarrow> (\<exists>a s1. m s = Inr (a, s1) \<and> n s1 = Inr p)"
  by (simp add: andthen_def bnd_run)

lemma require_run [run_simps, simp]: "require c e s = Inr p \<longleftrightarrow> c \<and> p = ((), s)"
  by (auto simp: require_def)

lemma onlyif_run [run_simps]: "onlyif c m s = Inr p \<longleftrightarrow> (if c then m s = Inr p else p = ((), s))"
  by (auto simp: onlyif_def)

lemma asks_run [run_simps, simp]: "asks f s = Inr p \<longleftrightarrow> p = (f s, s)"
  by (auto simp: asks_def)

lemma modify_run [run_simps, simp]: "modify f s = Inr p \<longleftrightarrow> p = ((), f s)"
  by (auto simp: modify_def)

lemma first_or_run [run_simps, simp]: "first_or e rows s = Inr p \<longleftrightarrow> rows \<noteq> [] \<and> p = (hd rows, s)"
  by (cases rows) (auto simp: first_or_def)

lemma some_or_run [run_simps, simp]: "some_or e row s = Inr p \<longleftrightarrow> (\<exists>r. row = Some r \<and> p = (r, s))"
  by (cases row) (auto simp: some_or_def)

lemma bnd_Inr: "m s = Inr (a, s1) \<Longrightarrow> bnd m f s = f a s1"
  by (simp add: bnd_def)

lemma bnd_Inl: "m s = Inl e \<Longrightarrow> bnd m f s = Inl e"
  by (simp add: bnd_def)

lemma andthen_Inr: "m s = Inr (a, s1) \<Longrightarrow> andthen m n s = n s1"
  by (simp add: andthen_def bnd_def)

lemma andthen_Inl: "m s = Inl e \<Longrightarrow> andthen m n s = Inl e"
  by (simp add: andthen_def bnd_def)

text \<open>Evaluation of a transaction on a known state.\<close>

lemmas eval_tx = bnd_def andthen_def ret_def throw_def require_def onlyif_def asks_def modify_def
  first_or_def some_or_def

lemma transaction_error: "m s = Inl e \<Longrightarrow> transaction m s = (Inl e, s)"
  by (simp add: transaction_def)

lemma transaction_ok: "m s = Inr (a, s') \<Longrightarrow> transaction m s = (Inr a, s')"
  by (simp add: transaction_def)

subsection \<open>Invariants of a transaction\<close>

definition keeps :: "('s \<Rightarrow> bool) \<Rightarrow> ('s, 'e, 'a) tx \<Rightarrow> bool" where
  "keeps I m \<longleftrightarrow> (\<forall>s a s'. I s \<longrightarrow> m s = Inr (a, s') \<longrightarrow> I s')"

lemma keepsI: "(\<And>s a s'. I s \<Longrightarrow> m s = Inr (a, s') \<Longrightarrow> I s') \<Longrightarrow> keeps I m"
  by (auto simp: keeps_def)

lemma keepsD: "keeps I m \<Longrightarrow> I s \<Longrightarrow> m s = Inr (a, s') \<Longrightarrow> I s'"
  by (auto simp: keeps_def)

lemma keeps_ret [keeps_intros]: "keeps I (ret a)"
  by (simp add: keeps_def)

lemma keeps_throw [keeps_intros]: "keeps I (throw e)"
  by (simp add: keeps_def)

lemma keeps_lift_result [keeps_intros]: "keeps I (lift_result r)"
  by (auto simp: keeps_def)

lemma keeps_require [keeps_intros]: "keeps I (require c e)"
  by (simp add: keeps_def)

lemma keeps_first_or [keeps_intros]: "keeps I (first_or e rows)"
  by (simp add: keeps_def)

lemma keeps_some_or [keeps_intros]: "keeps I (some_or e row)"
  by (auto simp: keeps_def)

lemma keeps_asks [keeps_intros]: "keeps I (asks f)"
  by (simp add: keeps_def)

lemma keeps_bnd [keeps_intros]: "keeps I m \<Longrightarrow> (\<And>a. keeps I (f a)) \<Longrightarrow> keeps I (bnd m f)"
  unfolding keeps_def bnd_run by blast

lemma keeps_andthen [keeps_intros]: "keeps I m \<Longrightarrow> keeps I n \<Longrightarrow> keeps I (andthen m n)"
  unfolding keeps_def andthen_run by blast

lemma keeps_onlyif [keeps_intros]: "(c \<Longrightarrow> keeps I m) \<Longrightarrow> keeps I (onlyif c m)"
  by (auto simp: keeps_def onlyif_run)

lemma keeps_if [keeps_intros]: "(c \<Longrightarrow> keeps I m) \<Longrightarrow> (\<not> c \<Longrightarrow> keeps I n) \<Longrightarrow> keeps I (if c then m else n)"
  by simp

lemma keeps_case_option [keeps_intros]:
  "(x = None \<Longrightarrow> keeps I m) \<Longrightarrow> (\<And>y. x = Some y \<Longrightarrow> keeps I (f y)) \<Longrightarrow>
   keeps I (case x of None \<Rightarrow> m | Some y \<Rightarrow> f y)"
  by (cases x) auto

lemma keeps_let [keeps_intros]: "keeps I (f a) \<Longrightarrow> keeps I (let x = a in f x)"
  by simp

lemma keeps_foreach [keeps_intros]: "(\<And>x. x \<in> set xs \<Longrightarrow> keeps I (f x)) \<Longrightarrow> keeps I (foreach xs f)"
  by (induction xs) (auto intro: keeps_ret keeps_andthen)

lemma keeps_transaction:
  assumes "keeps I m" and "I s"
  shows "I (snd (transaction m s))"
  using assms by (auto simp: transaction_def keeps_def split: sum.splits)

subsection \<open>What a transaction leaves unchanged\<close>

definition same :: "('s \<Rightarrow> 'v) \<Rightarrow> ('s, 'e, 'a) tx \<Rightarrow> bool" where
  "same v m \<longleftrightarrow> (\<forall>s a s'. m s = Inr (a, s') \<longrightarrow> v s' = v s)"

lemma sameI: "(\<And>s a s'. m s = Inr (a, s') \<Longrightarrow> v s' = v s) \<Longrightarrow> same v m"
  by (auto simp: same_def)

lemma sameD: "same v m \<Longrightarrow> m s = Inr (a, s') \<Longrightarrow> v s' = v s"
  by (auto simp: same_def)

lemma same_ret [same_intros]: "same v (ret a)"
  by (simp add: same_def)

lemma same_throw [same_intros]: "same v (throw e)"
  by (simp add: same_def)

lemma same_lift_result [same_intros]: "same v (lift_result r)"
  by (auto simp: same_def)

lemma same_require [same_intros]: "same v (require c e)"
  by (simp add: same_def)

lemma same_first_or [same_intros]: "same v (first_or e rows)"
  by (simp add: same_def)

lemma same_some_or [same_intros]: "same v (some_or e row)"
  by (auto simp: same_def)

lemma same_asks [same_intros]: "same v (asks f)"
  by (simp add: same_def)

lemma same_bnd [same_intros]: "same v m \<Longrightarrow> (\<And>a. same v (f a)) \<Longrightarrow> same v (bnd m f)"
  unfolding same_def bnd_run by metis

lemma same_andthen [same_intros]: "same v m \<Longrightarrow> same v n \<Longrightarrow> same v (andthen m n)"
  unfolding same_def andthen_run by metis

lemma same_onlyif [same_intros]: "(c \<Longrightarrow> same v m) \<Longrightarrow> same v (onlyif c m)"
  by (auto simp: same_def onlyif_run)

lemma same_if [same_intros]: "(c \<Longrightarrow> same v m) \<Longrightarrow> (\<not> c \<Longrightarrow> same v n) \<Longrightarrow> same v (if c then m else n)"
  by simp

lemma same_case_option [same_intros]:
  "(x = None \<Longrightarrow> same v m) \<Longrightarrow> (\<And>y. x = Some y \<Longrightarrow> same v (f y)) \<Longrightarrow>
   same v (case x of None \<Rightarrow> m | Some y \<Rightarrow> f y)"
  by (cases x) auto

lemma same_let [same_intros]: "same v (f a) \<Longrightarrow> same v (let x = a in f x)"
  by simp

lemma same_foreach [same_intros]: "(\<And>x. x \<in> set xs \<Longrightarrow> same v (f x)) \<Longrightarrow> same v (foreach xs f)"
  by (induction xs) (auto intro: same_ret same_andthen)

lemma keeps_same: "same v m \<Longrightarrow> keeps (\<lambda>s. P (v s)) m"
  by (auto simp: same_def keeps_def)

section \<open>Tables\<close>

text \<open>
  A table is the list of its rows in insertion order.  \<open>limit(1)\<close> takes the
  first match.  The statements below mirror the Drizzle calls of the source.
\<close>

definition select_one :: "('s \<Rightarrow> 'r list) \<Rightarrow> ('r \<Rightarrow> bool) \<Rightarrow> ('s, 'e, 'r option) tx" where
  "select_one t p = asks (\<lambda>s. find p (t s))"

definition select_all :: "('s \<Rightarrow> 'r list) \<Rightarrow> ('r \<Rightarrow> bool) \<Rightarrow> ('s, 'e, 'r list) tx" where
  "select_all t p = asks (\<lambda>s. filter p (t s))"

definition set_rows :: "('r \<Rightarrow> bool) \<Rightarrow> ('r \<Rightarrow> 'r) \<Rightarrow> 'r list \<Rightarrow> 'r list" where
  "set_rows p f rs = map (\<lambda>r. if p r then f r else r) rs"

text \<open>\<open>update(t).set(f).where(p).returning()\<close>: the rows as they are afterwards.\<close>

definition update_where ::
  "('s \<Rightarrow> 'r list) \<Rightarrow> (('r list \<Rightarrow> 'r list) \<Rightarrow> 's \<Rightarrow> 's) \<Rightarrow> ('r \<Rightarrow> bool) \<Rightarrow> ('r \<Rightarrow> 'r) \<Rightarrow> ('s, 'e, 'r list) tx" where
  "update_where t u p f = (\<lambda>s. Inr (map f (filter p (t s)), u (\<lambda>_. set_rows p f (t s)) s))"

text \<open>\<open>insert(t).values(r)\<close> where \<open>clash\<close> says which rows a unique index forbids beside \<open>r\<close>.\<close>

definition insert_row ::
  "('s \<Rightarrow> 'r list) \<Rightarrow> (('r list \<Rightarrow> 'r list) \<Rightarrow> 's \<Rightarrow> 's) \<Rightarrow> ('r \<Rightarrow> bool) \<Rightarrow> 'e \<Rightarrow> 'r \<Rightarrow> ('s, 'e, unit) tx" where
  "insert_row t u clash e r =
     (\<lambda>s. if list_ex clash (t s) then Inl e else Inr ((), u (\<lambda>_. t s @ [r]) s))"

text \<open>\<open>insert(t).values(r).onConflictDoNothing()\<close>.\<close>

definition insert_ignore ::
  "('s \<Rightarrow> 'r list) \<Rightarrow> (('r list \<Rightarrow> 'r list) \<Rightarrow> 's \<Rightarrow> 's) \<Rightarrow> ('r \<Rightarrow> bool) \<Rightarrow> 'r \<Rightarrow> ('s, 'e, unit) tx" where
  "insert_ignore t u clash r =
     (\<lambda>s. Inr ((), if list_ex clash (t s) then s else u (\<lambda>_. t s @ [r]) s))"

text \<open>\<open>insert(t).values(r)\<close> into a journal that no unique index guards.\<close>

definition append_row ::
  "('s \<Rightarrow> 'r list) \<Rightarrow> (('r list \<Rightarrow> 'r list) \<Rightarrow> 's \<Rightarrow> 's) \<Rightarrow> 'r \<Rightarrow> ('s, 'e, unit) tx" where
  "append_row t u r = (\<lambda>s. Inr ((), u (\<lambda>_. t s @ [r]) s))"

lemma append_row_run [run_simps, simp]: "append_row t u r s = Inr q \<longleftrightarrow> q = ((), u (\<lambda>_. t s @ [r]) s)"
  by (auto simp: append_row_def)

lemma select_one_run [run_simps, simp]: "select_one t p s = Inr q \<longleftrightarrow> q = (find p (t s), s)"
  by (simp add: select_one_def)

lemma select_all_run [run_simps, simp]: "select_all t p s = Inr q \<longleftrightarrow> q = (filter p (t s), s)"
  by (simp add: select_all_def)

lemma update_where_run [run_simps, simp]:
  "update_where t u p f s = Inr q \<longleftrightarrow> q = (map f (filter p (t s)), u (\<lambda>_. set_rows p f (t s)) s)"
  by (auto simp: update_where_def)

lemma insert_row_run [run_simps, simp]:
  "insert_row t u c e r s = Inr q \<longleftrightarrow> \<not> list_ex c (t s) \<and> q = ((), u (\<lambda>_. t s @ [r]) s)"
  by (auto simp: insert_row_def)

lemma insert_ignore_run [run_simps, simp]:
  "insert_ignore t u c r s = Inr q \<longleftrightarrow> q = ((), if list_ex c (t s) then s else u (\<lambda>_. t s @ [r]) s)"
  by (auto simp: insert_ignore_def)

lemmas eval_table = append_row_def select_one_def select_all_def update_where_def insert_row_def insert_ignore_def
  set_rows_def

lemma keeps_select_one [keeps_intros]: "keeps I (select_one t p)"
  by (simp add: keeps_def)

lemma keeps_select_all [keeps_intros]: "keeps I (select_all t p)"
  by (simp add: keeps_def)

lemma same_select_one [same_intros]: "same v (select_one t p)"
  by (simp add: same_def)

lemma same_select_all [same_intros]: "same v (select_all t p)"
  by (simp add: same_def)

lemma same_update_where [same_intros]: "(\<And>g s. v (u g s) = v s) \<Longrightarrow> same v (update_where t u p f)"
  by (simp add: same_def)

lemma same_append_row [same_intros]: "(\<And>g s. v (u g s) = v s) \<Longrightarrow> same v (append_row t u r)"
  by (simp add: same_def)

lemma same_insert_row [same_intros]: "(\<And>g s. v (u g s) = v s) \<Longrightarrow> same v (insert_row t u c e r)"
  by (simp add: same_def)

lemma same_insert_ignore [same_intros]: "(\<And>g s. v (u g s) = v s) \<Longrightarrow> same v (insert_ignore t u c r)"
  by (simp add: same_def)

subsection \<open>From one condition to another\<close>

text \<open>A transaction takes one condition to another, which may speak of its answer.\<close>

definition leads :: "('s \<Rightarrow> bool) \<Rightarrow> ('s, 'e, 'a) tx \<Rightarrow> ('a \<Rightarrow> 's \<Rightarrow> bool) \<Rightarrow> bool" where
  "leads P m Q \<longleftrightarrow> (\<forall>s a s'. P s \<longrightarrow> m s = Inr (a, s') \<longrightarrow> Q a s')"

lemma leadsD: "leads P m Q \<Longrightarrow> P s \<Longrightarrow> m s = Inr (a, s') \<Longrightarrow> Q a s'"
  by (auto simp: leads_def)

lemma leads_bnd: "leads P m Q \<Longrightarrow> (\<And>a. leads (Q a) (f a) R) \<Longrightarrow> leads P (bnd m f) R"
  unfolding leads_def bnd_run by blast

lemma leads_andthen: "leads P m (\<lambda>_. Q) \<Longrightarrow> leads Q n R \<Longrightarrow> leads P (andthen m n) R"
  unfolding leads_def andthen_run by blast

lemma leads_first: "(rows \<noteq> [] \<Longrightarrow> Q s) \<Longrightarrow> leads (\<lambda>s'. s' = s) (first_or e rows) (\<lambda>_. Q)"
  by (auto simp: leads_def)

lemma leads_keeps: "keeps P m \<Longrightarrow> leads P m (\<lambda>_. P)"
  by (auto simp: leads_def keeps_def)

lemma leads_keep_bnd: "keeps P m \<Longrightarrow> (\<And>a. leads P (f a) R) \<Longrightarrow> leads P (bnd m f) R"
  unfolding leads_def bnd_run keeps_def by blast

lemma leads_keep_andthen: "keeps P m \<Longrightarrow> leads P n R \<Longrightarrow> leads P (andthen m n) R"
  unfolding leads_def andthen_run keeps_def by blast

lemma leads_first_or:
  "leads (\<lambda>s. if rows = [] then P s else Q s) (first_or e rows) (\<lambda>_. Q)"
  by (auto simp: leads_def)

lemma leads_cases:
  "(rows = [] \<Longrightarrow> leads P m R) \<Longrightarrow> (\<And>y ys. rows = y # ys \<Longrightarrow> leads Q (f y ys) R) \<Longrightarrow>
   leads (\<lambda>s. if rows = [] then P s else Q s) (case rows of [] \<Rightarrow> m | y # ys \<Rightarrow> f y ys) R"
  by (cases rows) simp_all

lemma leads_ret: "(\<And>s. P s \<Longrightarrow> Q a s) \<Longrightarrow> leads P (ret a) Q"
  by (auto simp: leads_def)

lemma leads_throw: "leads P (throw e) Q"
  by (simp add: leads_def)

lemma leads_asks: "(\<And>s. P s \<Longrightarrow> leads (\<lambda>s'. P s' \<and> f s' = f s) (g (f s)) Q) \<Longrightarrow> leads P (bnd (asks f) g) Q"
  unfolding leads_def bnd_run asks_run by blast

lemma leads_require: "(c \<Longrightarrow> leads P m Q) \<Longrightarrow> leads P (andthen (require c e) m) Q"
  unfolding leads_def andthen_run require_run by blast

lemma leads_pre: "leads P m Q \<Longrightarrow> (\<And>s. R s \<Longrightarrow> P s) \<Longrightarrow> leads R m Q"
  unfolding leads_def by blast

lemma leads_post: "leads P m Q \<Longrightarrow> (\<And>a s. Q a s \<Longrightarrow> R a s) \<Longrightarrow> leads P m R"
  unfolding leads_def by blast

lemma leads_if: "(c \<Longrightarrow> leads P m Q) \<Longrightarrow> (\<not> c \<Longrightarrow> leads P n Q) \<Longrightarrow> leads P (if c then m else n) Q"
  by simp

subsection \<open>Transactions that follow a preorder\<close>

text \<open>\<open>for (const row of due) expired += await f(row)\<close>.\<close>

fun sum_each :: "'a list \<Rightarrow> ('a \<Rightarrow> ('s, 'e, nat) tx) \<Rightarrow> ('s, 'e, nat) tx" where
  "sum_each [] f = ret 0"
| "sum_each (x # xs) f = bnd (f x) (\<lambda>n. bnd (sum_each xs f) (\<lambda>k. ret (n + k)))"

text \<open>A transaction that relates the state before it to the state after it, by a preorder.\<close>

definition along :: "('s \<Rightarrow> 's \<Rightarrow> bool) \<Rightarrow> ('s, 'e, 'a) tx \<Rightarrow> bool" where
  "along R m \<longleftrightarrow> (\<forall>s a s'. m s = Inr (a, s') \<longrightarrow> R s s')"

lemma alongD: "along R m \<Longrightarrow> m s = Inr (a, s') \<Longrightarrow> R s s'"
  by (auto simp: along_def)

locale preorder_tx =
  fixes R :: "'s \<Rightarrow> 's \<Rightarrow> bool"
  assumes refl: "R s s" and trans: "R s t \<Longrightarrow> R t u \<Longrightarrow> R s u"
begin

lemma pure: "along R (ret a)" "along R (throw e)" "along R (require c e)" "along R (asks f)"
  "along R (select_one t p)" "along R (select_all t p)" "along R (first_or e rows)" "along R (some_or e row)"
  using refl by (auto simp: along_def)

lemma bind: "along R m \<Longrightarrow> (\<And>a. along R (f a)) \<Longrightarrow> along R (bnd m f)"
  unfolding along_def bnd_run using trans by blast

lemma chain: "along R m \<Longrightarrow> along R n \<Longrightarrow> along R (andthen m n)"
  unfolding along_def andthen_run using trans by blast

lemma guarded: "along R m \<Longrightarrow> along R (onlyif c m)"
  using refl by (auto simp: along_def onlyif_run)

lemma branch: "along R m \<Longrightarrow> along R n \<Longrightarrow> along R (if c then m else n)"
  by simp

lemma cases_option: "along R m \<Longrightarrow> (\<And>y. along R (f y)) \<Longrightarrow> along R (case x of None \<Rightarrow> m | Some y \<Rightarrow> f y)"
  by (cases x) auto

lemma cases_list: "along R m \<Longrightarrow> (\<And>y ys. along R (f y ys)) \<Longrightarrow> along R (case x of [] \<Rightarrow> m | y # ys \<Rightarrow> f y ys)"
  by (cases x) auto

lemma each: "(\<And>x. along R (f x)) \<Longrightarrow> along R (sum_each xs f)"
  by (induction xs) (auto intro!: pure bind)

lemma unchanged: "same v m \<Longrightarrow> (\<And>s s'. v s' = v s \<Longrightarrow> R s s') \<Longrightarrow> along R m"
  by (auto simp: along_def same_def)

lemma each_row: "(\<And>x. along R (f x)) \<Longrightarrow> along R (foreach xs f)"
  by (induction xs) (auto intro!: pure chain)

lemmas intros = pure bind chain guarded branch cases_option cases_list each each_row

end

subsection \<open>Facts about updated tables\<close>

lemma find_None_list_ex: "find p xs = None \<longleftrightarrow> \<not> list_ex p xs"
  by (auto simp: find_None_iff list_ex_iff)

lemma find_hd_filter: "find p xs = Some x \<Longrightarrow> q x \<Longrightarrow> (\<And>y. q y \<Longrightarrow> p y) \<Longrightarrow> hd (filter q xs) = x"
  by (induction xs) (auto split: if_splits)

lemma set_rows_Nil [simp]: "set_rows p f [] = []"
  by (simp add: set_rows_def)

lemma set_rows_Cons [simp]: "set_rows p f (r # rs) = (if p r then f r else r) # set_rows p f rs"
  by (simp add: set_rows_def)

lemma set_rows_append [simp]: "set_rows p f (rs @ qs) = set_rows p f rs @ set_rows p f qs"
  by (simp add: set_rows_def)

lemma length_set_rows [simp]: "length (set_rows p f rs) = length rs"
  by (simp add: set_rows_def)

lemma set_set_rows: "set (set_rows p f rs) = (\<lambda>r. if p r then f r else r) ` set rs"
  by (simp add: set_rows_def)

lemma set_rows_id: "(\<And>r. r \<in> set rs \<Longrightarrow> \<not> p r) \<Longrightarrow> set_rows p f rs = rs"
  by (induction rs) auto

lemma map_set_rows_key [simp]: "(\<And>r. k (f r) = k r) \<Longrightarrow> map k (set_rows p f rs) = map k rs"
  by (simp add: set_rows_def)

lemma filter_set_rows_other:
  assumes "\<And>r. p r \<Longrightarrow> \<not> q r" and "\<And>r. p r \<Longrightarrow> \<not> q (f r)"
  shows "filter q (set_rows p f rs) = filter q rs"
  using assms by (induction rs) auto

lemma find_set_rows:
  assumes "\<And>r. p r \<Longrightarrow> q (f r) = q r"
  shows "find q (set_rows p f rs) = map_option (\<lambda>r. if p r then f r else r) (find q rs)"
  using assms by (induction rs) auto

lemma find_Some_in: "find p rs = Some r \<Longrightarrow> r \<in> set rs \<and> p r"
  by (auto simp: find_Some_iff)

lemma find_append: "find p (rs @ qs) = (case find p rs of None \<Rightarrow> find p qs | Some r \<Rightarrow> Some r)"
  by (induction rs) auto

lemma find_unique:
  assumes "distinct (map k rs)" and "r \<in> set rs"
  shows "find (\<lambda>r'. k r' = k r) rs = Some r"
  using assms by (induction rs) (auto simp: rev_image_eqI)

lemma unique_key_eq:
  assumes "distinct (map k rs)" and "r \<in> set rs" and "q \<in> set rs" and "k r = k q"
  shows "r = q"
  using assms by (meson distinct_map inj_onD)

text \<open>Sums over the rows that match, after an update of one of them.\<close>

definition sum_rows :: "('r \<Rightarrow> bool) \<Rightarrow> ('r \<Rightarrow> 'v::comm_monoid_add) \<Rightarrow> 'r list \<Rightarrow> 'v" where
  "sum_rows p v rs = sum_list (map v (filter p rs))"

lemma sum_rows_Nil [simp]: "sum_rows p v [] = 0"
  by (simp add: sum_rows_def)

lemma sum_rows_Cons [simp]: "sum_rows p v (r # rs) = (if p r then v r else 0) + sum_rows p v rs"
  by (simp add: sum_rows_def)

lemma sum_rows_append [simp]: "sum_rows p v (rs @ qs) = sum_rows p v rs + sum_rows p v qs"
  by (simp add: sum_rows_def)

lemma sum_rows_set_rows_id:
  assumes "\<And>r. r \<in> set rs \<Longrightarrow> q r \<Longrightarrow> p (f r) = p r \<and> (p r \<longrightarrow> v (f r) = v r)"
  shows "sum_rows p v (set_rows q f rs) = sum_rows p v rs"
  using assms by (induction rs) auto

lemma sum_rows_nonneg:
  fixes v :: "'r \<Rightarrow> int"
  shows "(\<And>r. r \<in> set rs \<Longrightarrow> p r \<Longrightarrow> 0 \<le> v r) \<Longrightarrow> 0 \<le> sum_rows p v rs"
  by (induction rs) auto

lemma sum_rows_member_le:
  fixes v :: "'r \<Rightarrow> int"
  assumes "r \<in> set rs" and "p r" and "\<And>q. q \<in> set rs \<Longrightarrow> p q \<Longrightarrow> 0 \<le> v q"
  shows "v r \<le> sum_rows p v rs"
  using assms
proof (induction rs)
  case (Cons a rs)
  have nn: "0 \<le> sum_rows p v rs" by (rule sum_rows_nonneg) (use Cons.prems in auto)
  show ?case
  proof (cases "r = a")
    case True with nn Cons.prems show ?thesis by simp
  next
    case False
    with Cons have "v r \<le> sum_rows p v rs" by auto
    moreover have "p a \<Longrightarrow> 0 \<le> v a" using Cons.prems by simp
    ultimately show ?thesis by auto
  qed
qed simp

text \<open>Changing the one row with a given key changes a sum by that row's difference.\<close>

lemma sum_rows_set_rows_one:
  fixes v :: "'r \<Rightarrow> int"
  assumes "distinct (map k rs)" and "r \<in> set rs" and "\<And>x. x \<in> set rs \<Longrightarrow> q x \<longleftrightarrow> k x = k r"
  shows "sum_rows p v (set_rows q f rs) =
         sum_rows p v rs - (if p r then v r else 0) + (if p (f r) then v (f r) else 0)"
  using assms
proof (induction rs)
  case (Cons a rs)
  show ?case
  proof (cases "a = r")
    case True
    have "\<not> q x" if "x \<in> set rs" for x
      using that True Cons.prems(1,3) by (metis distinct.simps(2) image_eqI list.set_intros(2) list.set_map list.simps(9))
    then have "set_rows q f rs = rs" by (rule set_rows_id)
    with True Cons.prems show ?thesis by auto
  next
    case False
    with Cons.prems have "k a \<noteq> k r" by (metis distinct.simps(2) image_eqI list.set_map list.simps(9) set_ConsD)
    then have "\<not> q a" using Cons.prems(3) by auto
    moreover have "sum_rows p v (set_rows q f rs) =
        sum_rows p v rs - (if p r then v r else 0) + (if p (f r) then v (f r) else 0)"
      using Cons False by auto
    ultimately show ?thesis by simp
  qed
qed simp

text \<open>The row that a compare-and-set found, and the table after it.\<close>

lemma found_set:
  assumes "find p xs = Some x" and "q x" and "\<And>y. q y \<Longrightarrow> p y" and "\<And>y. p (f y) = p y"
  shows "hd (map f (filter q xs)) = f x" and "find p (set_rows q f xs) = Some (f x)"
proof -
  have "x \<in> set xs" using assms(1) by (simp add: find_Some_in)
  with assms(2) have ne: "filter q xs \<noteq> []" by (auto simp: filter_empty_conv)
  have "hd (filter q xs) = x" by (rule find_hd_filter [of p]) (use assms(1-3) in auto)
  with ne show "hd (map f (filter q xs)) = f x" by (simp add: hd_map)
  show "find p (set_rows q f xs) = Some (f x)" using assms by (subst find_set_rows) auto
qed

end
