(* ===== verification/JsNumber.thy ===== *)
theory JsNumber
  imports Complex_Main Prelude
begin

text \<open>
  The numbers of the program.  A JavaScript \<open>number\<close> (and an SQLite \<open>REAL\<close>) is an
  IEEE 754 double.  A finite double is a rational, so the model's numbers are
  rationals, and every arithmetic operation of the source is the exact operation
  followed by \<open>fl\<close>, rounding to nearest, ties to even, with a 53-bit
  significand.  The exponent range is left unbounded: the program's amounts are
  at most 10^9 and at least 0.01 in size, far from overflow and from
  subnormals.  NaN and the infinities are not numbers of the model: amounts
  are validated by Zod schemas (which refuse both) before they are stored.

  The last part proves what the program relies on: an amount in cents survives
  the trip through dollars and back.
\<close>

type_synonym num = rat

section \<open>Rounding to a double\<close>

fun ilog2 :: "nat \<Rightarrow> nat" where
  "ilog2 n = (if n < 2 then 0 else Suc (ilog2 (n div 2)))"

declare ilog2.simps [simp del]

lemma ilog2_bounds: "0 < n \<Longrightarrow> 2 ^ ilog2 n \<le> n \<and> n < 2 ^ Suc (ilog2 n)"
proof (induction n rule: ilog2.induct)
  case (1 n)
  show ?case
  proof (cases "n < 2")
    case True with 1 show ?thesis by (simp add: ilog2.simps)
  next
    case False
    then have "0 < n div 2" by auto
    with 1 False have "2 ^ ilog2 (n div 2) \<le> n div 2 \<and> n div 2 < 2 ^ Suc (ilog2 (n div 2))" by blast
    moreover have "ilog2 n = Suc (ilog2 (n div 2))" using False by (subst ilog2.simps) simp
    ultimately show ?thesis by auto
  qed
qed

text \<open>The binary exponent of a positive rational.\<close>

definition expo :: "rat \<Rightarrow> int" where
  "expo x = (if 1 \<le> x then int (ilog2 (nat \<lfloor>x\<rfloor>))
             else - int (Suc (ilog2 (nat (\<lceil>1 / x\<rceil> - 1)))))"

lemma expo_bounds:
  assumes "0 < x"
  shows "2 powi expo x \<le> x \<and> x < 2 powi (expo x + 1)"
proof (cases "1 \<le> x")
  case True
  define n where "n = nat \<lfloor>x\<rfloor>"
  have fl: "1 \<le> \<lfloor>x\<rfloor>" using True by (simp add: le_floor_iff)
  then have "0 < n" by (simp add: n_def)
  then have b: "2 ^ ilog2 n \<le> n" "n < 2 ^ Suc (ilog2 n)" using ilog2_bounds by blast+
  have nx: "of_nat n = (of_int \<lfloor>x\<rfloor> :: rat)" using fl by (simp add: n_def)
  have "(2::rat) ^ ilog2 n \<le> of_nat n" using b(1) by (metis of_nat_le_iff of_nat_numeral of_nat_power)
  also have "\<dots> \<le> x" by (simp add: nx)
  finally have lo: "(2::rat) ^ ilog2 n \<le> x" .
  have "x < of_int (\<lfloor>x\<rfloor> + 1)" by linarith
  also have "\<dots> = of_nat (n + 1)" using nx by simp
  also have "\<dots> \<le> of_nat (2 ^ Suc (ilog2 n))" using b(2) by (simp only: of_nat_le_iff)
  finally have "x < 2 ^ Suc (ilog2 n)" by simp
  with lo True show ?thesis by (simp add: expo_def n_def power_int_def nat_add_distrib)
next
  case False
  define m where "m = nat (\<lceil>1 / x\<rceil> - 1)"
  have "1 < 1 / x" using False assms by simp
  then have c: "2 \<le> \<lceil>1 / x\<rceil>" by (simp add: le_ceiling_iff)
  then have "0 < m" by (simp add: m_def)
  then have b: "2 ^ ilog2 m \<le> m" "m < 2 ^ Suc (ilog2 m)" using ilog2_bounds by blast+
  have "int m = \<lceil>1 / x\<rceil> - 1" unfolding m_def using c by linarith
  then have mc: "of_nat m = (of_int \<lceil>1 / x\<rceil> - 1 :: rat)" by (metis of_int_1 of_int_diff of_int_of_nat_eq)
  have "(2::rat) ^ ilog2 m \<le> of_nat m" using b(1) by (metis of_nat_le_iff of_nat_numeral of_nat_power)
  also have "\<dots> < 1 / x" using mc by linarith
  finally have hi: "x * 2 ^ ilog2 m < 1" using assms by (simp add: field_simps)
  have "1 / x \<le> of_int \<lceil>1 / x\<rceil>" by simp
  also have "\<dots> = of_nat (m + 1)" using mc by simp
  also have "\<dots> \<le> of_nat (2 ^ Suc (ilog2 m))" using b(2) by (simp only: of_nat_le_iff)
  finally have "1 \<le> x * 2 ^ Suc (ilog2 m)" using assms by (simp add: field_simps)
  with hi False show ?thesis
    by (simp add: expo_def m_def[symmetric] power_int_minus power_int_add field_simps del: of_nat_Suc)
      (simp add: power_int_def field_simps)
qed

text \<open>Nearest integer, ties to even.\<close>

definition rne :: "rat \<Rightarrow> int" where
  "rne x = (let f = \<lfloor>x\<rfloor>; d = x - of_int f in
     if d < 1 / 2 then f else if 1 / 2 < d then f + 1 else if even f then f else f + 1)"

lemma rne_error: "\<bar>of_int (rne x) - x\<bar> \<le> 1 / 2"
proof -
  have "of_int \<lfloor>x\<rfloor> \<le> x" "x < of_int \<lfloor>x\<rfloor> + 1" by linarith+
  then show ?thesis by (auto simp: rne_def Let_def abs_le_iff)
qed

lemma rne_of_int [simp]: "rne (of_int n) = n"
  by (simp add: rne_def)

definition fl :: "rat \<Rightarrow> rat" where
  "fl x = (if x = 0 then 0
           else let u = 2 powi (expo \<bar>x\<bar> - 52) in of_int (rne (x / u)) * u)"

lemma fl_zero [simp]: "fl 0 = 0"
  by (simp add: fl_def)

text \<open>The relative error of a rounding.\<close>

lemma fl_error: "\<bar>fl x - x\<bar> \<le> \<bar>x\<bar> / 2 ^ 53"
proof (cases "x = 0")
  case False
  define u where "u = (2::rat) powi (expo \<bar>x\<bar> - 52)"
  have u: "0 < u" by (simp add: u_def)
  have "fl x - x = (of_int (rne (x / u)) - x / u) * u"
    using False u by (simp add: fl_def u_def[symmetric] Let_def field_simps)
  then have "\<bar>fl x - x\<bar> = \<bar>of_int (rne (x / u)) - x / u\<bar> * u" using u by (simp add: abs_mult)
  also have "\<dots> \<le> 1 / 2 * u" using rne_error u by (intro mult_right_mono) auto
  finally have e: "\<bar>fl x - x\<bar> \<le> u / 2" by simp
  have "2 powi expo \<bar>x\<bar> \<le> \<bar>x\<bar>" using expo_bounds False by simp
  moreover have "u * 2 ^ 52 = 2 powi expo \<bar>x\<bar>"
    by (simp add: u_def power_int_diff)
  ultimately have "u * 2 ^ 52 \<le> \<bar>x\<bar>" by simp
  with e show ?thesis by (simp add: field_simps)
qed simp

text \<open>Integers of at most 53 bits are doubles.\<close>

lemma fl_of_int:
  assumes "\<bar>n\<bar> < 2 ^ 53"
  shows "fl (of_int n) = of_int n"
proof (cases "n = 0")
  case False
  define e where "e = expo \<bar>of_int n\<bar>"
  have b: "2 powi e \<le> \<bar>of_int n :: rat\<bar>" "\<bar>of_int n :: rat\<bar> < 2 powi (e + 1)"
    using expo_bounds [of "\<bar>of_int n\<bar>"] False by (auto simp: e_def)
  have "(of_int \<bar>n\<bar> :: rat) < of_int (2 ^ 53)" using assms by (simp only: of_int_less_iff)
  then have lt: "(2::rat) powi e < 2 ^ 53" using b(1) by simp
  have e52: "e \<le> 52"
  proof (rule ccontr)
    assume "\<not> e \<le> 52"
    then have "(2::rat) powi 53 \<le> 2 powi e" by (intro power_int_increasing) auto
    with lt show False by simp
  qed
  define k where "k = nat (52 - e)"
  have u: "(2::rat) powi (e - 52) = 1 / 2 ^ k"
    using e52 by (simp add: k_def power_int_def field_simps)
  have "of_int n / (1 / 2 ^ k :: rat) = of_int (n * 2 ^ k)" by simp
  then have "rne (of_int n / (1 / 2 ^ k :: rat)) = n * 2 ^ k" by (metis rne_of_int)
  with False show ?thesis by (simp add: fl_def Let_def e_def[symmetric] u)
qed simp

section \<open>The operations of the source\<close>

definition jadd :: "num \<Rightarrow> num \<Rightarrow> num" where "jadd x y = fl (x + y)"
definition jsub :: "num \<Rightarrow> num \<Rightarrow> num" where "jsub x y = fl (x - y)"
definition jmul :: "num \<Rightarrow> num \<Rightarrow> num" where "jmul x y = fl (x * y)"
definition jdiv :: "num \<Rightarrow> num \<Rightarrow> num" where "jdiv x y = fl (x / y)"

text \<open>\<open>Math.round\<close>: the nearest integer, ties towards plus infinity.\<close>

definition jround :: "num \<Rightarrow> int" where
  "jround x = \<lfloor>x + 1 / 2\<rfloor>"

text \<open>\<open>Number.isSafeInteger\<close> on a value known to be an integer.\<close>

definition safe_int :: "int \<Rightarrow> bool" where
  "safe_int n \<longleftrightarrow> \<bar>n\<bar> \<le> 9007199254740991"

text \<open>\<open>Math.round(x * 100)\<close>, the program's dollars to cents.\<close>

definition to_minor :: "num \<Rightarrow> int" where
  "to_minor x = jround (jmul x 100)"

text \<open>\<open>minor / 100\<close>, cents to dollars.\<close>

definition of_minor :: "int \<Rightarrow> num" where
  "of_minor n = jdiv (of_int n) 100"

text \<open>\<open>Math.round(n * 100) / 100\<close>.\<close>

definition round2 :: "num \<Rightarrow> num" where
  "round2 n = of_minor (jround (jmul n 100))"

text \<open>\<open>Math.abs(x * 100 - Math.round(x * 100)) < 0.000001\<close>.\<close>

definition near_cents :: "num \<Rightarrow> bool" where
  "near_cents x \<longleftrightarrow> \<bar>jsub (jmul x 100) (of_int (to_minor x))\<bar> < fl (1 / 1000000)"

lemma jround_of_int [simp]: "jround (of_int n) = n"
  by (simp add: jround_def) linarith

lemma jround_near:
  assumes "\<bar>x - of_int n\<bar> < 1 / 2"
  shows "jround x = n"
proof -
  have "x - of_int n < 1 / 2" "- (x - of_int n) < 1 / 2" using assms unfolding abs_less_iff by blast+
  then have "of_int n \<le> x + 1 / 2" "x + 1 / 2 < of_int n + 1" by linarith+
  then show ?thesis unfolding jround_def by (rule floor_unique)
qed

text \<open>
  Two roundings in sequence, as in \<open>(n / 100) * 100\<close>: the absolute error for values
  up to \<open>B\<close>.
\<close>

lemma fl_error_abs:
  assumes "\<bar>x\<bar> \<le> B"
  shows "\<bar>fl x - x\<bar> \<le> B / 2 ^ 53"
  using fl_error [of x] assms by (meson divide_right_mono dual_order.trans zero_le_numeral zero_le_power)

lemma minor_error:
  assumes "\<bar>n\<bar> \<le> 2 ^ 50"
  shows "\<bar>jmul (of_minor n) 100 - of_int n\<bar> < 1 / 2"
proof -
  define N where "N = (of_int n :: rat)"
  have N: "\<bar>N\<bar> \<le> 2 ^ 50" using assms unfolding N_def by (metis of_int_abs of_int_le_iff of_int_numeral of_int_power)
  have "\<bar>N / 100\<bar> \<le> 2 ^ 50 / 100" using N by simp
  from fl_error_abs [OF this]
  have e1: "\<bar>fl (N / 100) - N / 100\<bar> \<le> 1 / 800" by simp
  define y where "y = fl (N / 100) * 100"
  have "y - N = (fl (N / 100) - N / 100) * 100" by (simp add: y_def algebra_simps)
  then have "\<bar>y - N\<bar> = \<bar>fl (N / 100) - N / 100\<bar> * 100" by (simp only: abs_mult abs_numeral)
  also have "\<dots> \<le> 1 / 800 * 100" using e1 by (rule mult_right_mono) simp
  finally have y: "\<bar>y - N\<bar> \<le> 1 / 8" by simp
  then have "\<bar>y\<bar> \<le> 2 ^ 50 + 1" using N by linarith
  from fl_error_abs [OF this] have "\<bar>fl y - y\<bar> \<le> 1 / 4" by simp
  with y have "\<bar>fl y - N\<bar> < 1 / 2" by linarith
  then show ?thesis by (simp add: jmul_def of_minor_def jdiv_def N_def y_def)
qed

lemma to_minor_of_minor: "\<bar>n\<bar> \<le> 2 ^ 50 \<Longrightarrow> to_minor (of_minor n) = n"
  unfolding to_minor_def by (intro jround_near minor_error)

lemma round2_of_minor: "\<bar>n\<bar> \<le> 2 ^ 50 \<Longrightarrow> round2 (of_minor n) = of_minor n"
  using to_minor_of_minor by (simp add: round2_def to_minor_def)

lemma round2_minor: "round2 x = of_minor (to_minor x)"
  by (simp add: round2_def to_minor_def)

lemma to_minor_round2: "\<bar>to_minor x\<bar> \<le> 2 ^ 50 \<Longrightarrow> to_minor (round2 x) = to_minor x"
  by (simp add: round2_minor to_minor_of_minor)

lemma jmul_of_int:
  assumes "\<bar>a * b\<bar> < 2 ^ 53"
  shows "jmul (of_int a) (of_int b) = of_int (a * b)"
  using fl_of_int [OF assms] by (simp add: jmul_def)

lemma to_minor_of_int:
  assumes "\<bar>n\<bar> < 2 ^ 46"
  shows "to_minor (of_int n) = 100 * n"
proof -
  have "\<bar>n * 100\<bar> < 2 ^ 53" using assms by (simp add: abs_mult)
  from jmul_of_int [OF this] have "jmul (of_int n) 100 = of_int (n * 100)" by simp
  then show ?thesis unfolding to_minor_def by (metis jround_of_int mult.commute)
qed

lemma to_minor_numeral: "(numeral k :: int) < 2 ^ 46 \<Longrightarrow> to_minor (numeral k) = 100 * numeral k"
  using to_minor_of_int [of "numeral k"] by simp

lemma fl_numeral: "(numeral k :: int) < 2 ^ 53 \<Longrightarrow> fl (numeral k) = numeral k"
  using fl_of_int [of "numeral k"] by simp

lemma jround_numeral [simp]: "jround (numeral k) = numeral k"
  using jround_of_int [of "numeral k"] by simp

end
