(* ===== verification/Schema.thy ===== *)
theory Schema
  imports JsNumber
begin

text \<open>
  The rows of \<open>lib/schema.ts\<close> and the database of the model: one record per table,
  one field per column, and one list per table in \<open>db\<close>.  Column names carry a
  short prefix for their table, since several tables share names such as
  \<open>state\<close> and \<open>buyer_id\<close>.

  Columns of mode \<open>timestamp\<close> hold whole seconds since the epoch, as SQLite
  stores them.  Text ids are \<open>string\<close>.  A random id is an argument of the
  operation that draws it.  The surrogate keys of append-only journals
  (\<open>credit_entries.id\<close>, \<open>transactions.id\<close>, the event tables) are never read by
  the code and are left out, as are the columns of \<open>users\<close> and \<open>agents\<close> that no
  modelled operation reads.  Foreign keys are not enforced by the model.
  A JSON column whose writer and reader are both modelled holds the value that
  the JSON text stands for.
\<close>

section \<open>Column types\<close>

type_synonym id = string
type_synonym seconds = int
type_synonym millis = int

datatype rail = Ledger | Credit | Mpp | Evm

datatype contract_state =
    DRAFT | FUNDED | IN_PROGRESS | AWAITING_REVIEW | DISPUTED | COMPLETED | CANCELED | EXPIRED | REFUNDED

datatype milestone_state =
    M_PENDING | M_ACTIVE | M_SUBMITTED | M_AUTO_FAILED | M_AWAITING_BUYER_REVIEW
  | M_CHANGES_REQUESTED | M_APPROVED | M_PAID | M_DISPUTED | M_REFUNDED

datatype check_result = Check_pass | Check_fail | Check_inconclusive

datatype dispute_state = Dispute_open | Dispute_under_review | Dispute_resolved

datatype ruling = Buyer_win | Seller_win | Split_ruling | Redo

datatype listing_status = L_active | L_inactive | L_sold | L_expired

datatype payout_status =
    Payout_pending | Payout_processing | Payout_fee_sent | Payout_seller_paid | Payout_refunded
  | Payout_partial | Payout_complete

datatype trade_status =
    T_pending | T_escrow_held | T_pending_release | T_completed | T_complete | T_disputed
  | T_resolved | T_cancelled

datatype resolution = To_buyer | To_seller | To_split

datatype order_state =
    O_awaiting_funding | O_funded | O_executing | O_verifying | O_completed | O_cancelled
  | O_disputed | O_resolved

datatype attempt_state =
    A_queued | A_accepted | A_declined | A_expired | A_delivered | A_interrupted
  | A_acknowledgment_timed_out

datatype verification_status = V_pending | V_passed | V_failed | V_disputed | V_skipped

datatype transaction_type =
    Faucet | Transfer | Escrow_lock | Escrow_release | Escrow_refund | Fee | Adjustment

datatype session_status = Session_active | Session_closed

datatype deposit_state = Deposit_pending | Deposit_confirmed

datatype instant_status = I_open | I_closing | I_closed

datatype call_state = C_pending | C_claimed | C_completed | C_failed

datatype transfer_kind = Kind_payout | Kind_refund

datatype transfer_status = St_pending | St_signing | St_prepared | St_submitted | St_confirmed | St_failed

section \<open>Deposited account credit\<close>

record credit_account =
  ca_user_id :: id
  ca_available_minor :: int
  ca_escrow_minor :: int

record credit_entry =
  ce_user_id :: id
  ce_reference :: string
  ce_kind :: string
  ce_available_delta :: int
  ce_escrow_delta :: int
  ce_created_at :: seconds

record credit_deposit =
  cd_id :: id
  cd_user_id :: id
  cd_client_reference :: string
  cd_amount_minor :: int
  cd_payer :: string
  cd_treasury :: string
  cd_token :: string
  cd_chain_id :: int
  cd_tx_hash :: "string option"
  cd_payer_signature :: "string option"
  cd_state :: deposit_state
  cd_created_at :: seconds
  cd_expires_at :: seconds

record payment_receipt =
  pr_route :: string
  pr_trade_id :: "id option"
  pr_payment_rail :: "rail option"
  pr_amount :: num
  pr_currency :: string
  pr_tx_hash :: "string option"
  pr_payer_address :: "string option"
  pr_token_address :: "string option"
  pr_chain_id :: "int option"
  pr_token_symbol :: "string option"
  pr_token_decimals :: "int option"
  pr_token_amount :: "int option"
  pr_token_usd_price :: "num option"
  pr_usd_value_at_payment :: "num option"
  pr_external_id :: "string option"

section \<open>Wallets and the transaction journal\<close>

record wallet =
  w_user_id :: id
  w_balance :: num
  w_escrow :: num

record transaction_row =
  tr_from_user_id :: "id option"
  tr_to_user_id :: "id option"
  tr_amount :: num
  tr_type :: transaction_type
  tr_reference_id :: "string option"

record mpp_session =
  ms_session_id :: id
  ms_agent_id :: id
  ms_reserved_amount :: num
  ms_spent_amount :: num
  ms_status :: session_status
  ms_closed_at :: "seconds option"

section \<open>Transfers on chain\<close>

text \<open>\<open>token_amount\<close> is the amount whose decimal digits the column holds.\<close>

record settlement_transfer =
  st_id :: id
  st_business_key :: string
  st_trade_id :: id
  st_kind :: transfer_kind
  st_chain_id :: int
  st_token_address :: string
  st_from_address :: string
  st_to_address :: string
  st_token_amount :: int
  st_usd_amount :: num
  st_nonce :: "int option"
  st_raw_transaction :: "string option"
  st_tx_hash :: "string option"
  st_status :: transfer_status
  st_attempts :: int
  st_last_error :: "string option"
  st_updated_at :: seconds
  st_confirmed_at :: "seconds option"

record settlement_nonce =
  sn_key :: string
  sn_next_nonce :: int

record payout_address =
  pd_user_id :: id
  pd_address :: string

section \<open>Contracts\<close>

record contract =
  c_id :: id
  c_buyer_id :: id
  c_seller_id :: id
  c_listing_id :: "id option"
  c_total_amount :: num
  c_fee_amount :: num
  c_escrow_amount :: num
  c_payment_rail :: rail
  c_funded_at :: "seconds option"
  c_organization_id :: "id option"
  c_state :: contract_state
  c_expires_at :: "seconds option"
  c_current_milestone_index :: int
  c_dispute_id :: "id option"
  c_created_at :: seconds
  c_updated_at :: seconds

record milestone =
  m_id :: id
  m_contract_id :: id
  m_index :: int
  m_title :: string
  m_amount :: num
  m_required_artifacts :: "string list"
  m_deadline_at :: "seconds option"
  m_review_window_hours :: int
  m_state :: milestone_state
  m_submission_id :: "id option"
  m_created_at :: seconds
  m_updated_at :: seconds

record submission =
  s_id :: id
  s_milestone_id :: id
  s_submitted_by :: id
  s_artifact_bundle :: string
  s_auto_check_result :: check_result
  s_missing :: "string list"

record contract_dispute =
  d_id :: id
  d_contract_id :: id
  d_milestone_id :: "id option"
  d_raised_by :: id
  d_reason_code :: string
  d_evidence :: string
  d_state :: dispute_state
  d_ruling :: "ruling option"
  d_resolved_at :: "seconds option"

record creation_request =
  cr_contract_id :: id
  cr_buyer_id :: id
  cr_client_reference :: string
  cr_request_hash :: string

section \<open>Listings, trades and service orders\<close>

record listing =
  l_id :: id
  l_seller_id :: id
  l_price :: num
  l_status :: listing_status
  l_created_at :: seconds

record trade =
  t_id :: id
  t_listing_id :: id
  t_buyer_id :: id
  t_seller_id :: id
  t_amount :: num
  t_fee :: num
  t_item_price :: num
  t_platform_fee :: num
  t_total_cost :: num
  t_seller_amount :: num
  t_dev_amount :: num
  t_dev_wallet :: "string option"
  t_fee_tx_hash :: "string option"
  t_payout_status :: payout_status
  t_payment_rail :: rail
  t_client_reference :: "string option"
  t_status :: trade_status
  t_escrow_session_id :: "id option"
  t_payment_due_at :: "millis option"
  t_funded_at :: "millis option"
  t_auto_confirm_at :: "millis option"
  t_resolution :: "resolution option"
  t_resolution_seller_percent :: "num option"
  t_created_at :: seconds
  t_completed_at :: "seconds option"
  t_rating_window_expires_at :: "millis option"

record service_definition =
  sd_organization_only :: bool
  sd_id :: id
  sd_seller_id :: id
  sd_capabilities :: string
  sd_input_schema :: string
  sd_output_schema :: string
  sd_price_minor :: int
  sd_estimated_latency_seconds :: "int option"
  sd_max_concurrency :: int
  sd_active_orders :: int
  sd_leased :: bool
  sd_verification_policy :: string
  sd_active :: bool
  sd_updated_at :: seconds

record service_order =
  so_private_provider_share_id :: "id option"
  so_id :: id
  so_service_id :: id
  so_listing_id :: id
  so_trade_id :: id
  so_buyer_id :: id
  so_contract_leased :: "bool option"
  so_price_minor :: int
  so_payment_rail :: rail
  so_state :: order_state
  so_execution_started_at :: "seconds option"
  so_capacity_released_at :: "seconds option"
  so_updated_at :: seconds

record execution_attempt =
  ea_id :: id
  ea_order_id :: id
  ea_state :: attempt_state
  ea_acknowledgment_due_at :: "seconds option"
  ea_accepted_at :: "seconds option"
  ea_heartbeat_at :: "seconds option"
  ea_lease_expires_at :: "seconds option"
  ea_completed_at :: "seconds option"
  ea_created_at :: seconds
  ea_updated_at :: seconds

record route_plan =
  rp_id :: id
  rp_buyer_id :: id
  rp_objective :: string
  rp_required_capabilities :: string
  rp_input_json :: string
  rp_max_budget_minor :: int
  rp_deadline_seconds :: "int option"
  rp_execution_deadline_at :: "millis option"
  rp_verification_policy :: string
  rp_payment_policy :: string
  rp_retry_policy :: string
  rp_provider_requirements_json :: string
  rp_state :: string
  rp_service_order_id :: "id option"
  rp_expires_at :: seconds
  rp_updated_at :: seconds

text \<open>
  The terms of a route mandate, the value of \<open>terms_json\<close>: what its owner approved, and the
  token as it was configured then.  Unit amounts are decimal texts.
\<close>

record mandate_payment =
  mp_rail :: rail
  mp_chain_id :: int
  mp_token_address :: string
  mp_payer_address :: string
  mp_treasury_address :: string
  mp_minimum_token_reserve_units :: string
  mp_minimum_native_reserve_wei :: "string option"
  mp_max_gas_cost_wei :: "string option"
  mp_fee_token_address :: "string option"
  mp_minimum_fee_token_reserve_units :: "string option"
  mp_max_fee_token_cost_units :: "string option"

record mandate_terms =
  mt_max_aggregate :: int
  mt_max_per_execution :: int
  mt_max_retry_budget :: int
  mt_max_attempts :: int
  mt_approved_providers :: "id list"
  mt_max_latency_seconds :: int
  mt_expires_at :: millis
  mt_payment :: mandate_payment

record token_contract =
  tc_token_decimals :: int
  tc_token_usd_price :: num
  tc_fee_token_decimals :: "int option"

datatype mandate_state = Mandate_active | Mandate_revoked

record route_mandate =
  rm_id :: id
  rm_route_id :: id
  rm_buyer_id :: id
  rm_owner_account_id :: id
  rm_client_reference :: string
  rm_request_hash :: string
  rm_route_hash :: string
  rm_terms :: mandate_terms
  rm_token :: token_contract
  rm_max_aggregate_minor :: int
  rm_reserved_minor :: int
  rm_state :: mandate_state
  rm_expires_at :: seconds
  rm_revoked_at :: "seconds option"

datatype step_state = Step_reserved | Step_funded | Step_rejected

text \<open>
  A row of \<open>route_funding_steps\<close>, or, with the operation, the earlier trade and the attempt that
  it is a retry of, of \<open>route_retry_funding_steps\<close>.
\<close>

record retry_link =
  rl_operation_id :: id
  rl_previous_trade_id :: id
  rl_attempt_id :: id

record funding_step =
  fs_id :: id
  fs_mandate_id :: id
  fs_route_id :: id
  fs_order_id :: id
  fs_trade_id :: id
  fs_amount_minor :: int
  fs_terms_hash :: string
  fs_state :: step_state
  fs_retry :: "retry_link option"
  fs_created_at :: seconds

datatype claim_state = Claim_claimed | Claim_confirmed

record evm_intent =
  ei_id :: id
  ei_trade_id :: id
  ei_payer_address :: string
  ei_chain_id :: int
  ei_tx_hash :: "string option"

record mpp_intent =
  mi_id :: id
  mi_trade_id :: id
  mi_chain_id :: int
  mi_payer_address :: string
  mi_token_address :: string
  mi_token_amount :: int

record payment_claim =
  pc_intent_id :: id
  pc_tx_hash :: string
  pc_terms_hash :: string
  pc_state :: claim_state

record trade_delivery =
  td_id :: id
  td_trade_id :: id
  td_content_hash :: string

record verification_result =
  vr_trade_id :: id
  vr_delivery_id :: "id option"
  vr_content_hash :: string
  vr_method :: string
  vr_status :: verification_status

record private_artifact =
  pa_id :: id
  pa_delivery_id :: "id option"

text \<open>\<open>events\<close> is the parsed list, \<open>None\<close> when the column does not hold one.\<close>

record webhook =
  wh_id :: id
  wh_agent_id :: id
  wh_events :: "string list option"
  wh_active :: bool

record webhook_delivery =
  wd_id :: id
  wd_webhook_id :: id
  wd_event_type :: string
  wd_trade_id :: id
  wd_attempt_id :: "id option"

record task_workspace =
  tw_task_id :: id
  tw_trade_id :: "id option"

record task =
  tk_id :: id
  tk_status :: string

section \<open>People, agents and organizations\<close>

record user =
  u_id :: id
  u_email :: string
  u_is_agent :: bool

record agent =
  ag_id :: id
  ag_owner_address :: "string option"
  ag_active :: bool
  ag_public :: bool
  ag_archived_at :: "seconds option"

record agent_owner =
  ao_agent_id :: id
  ao_user_id :: id

record seller_preference =
  sp_seller_id :: id
  sp_supported_rails :: "rail list"

record payment_control =
  pc_key :: string
  pc_paused :: bool

record route_control =
  rc_key :: string
  rc_paused :: bool
  rc_reason_code :: "string option"
  rc_revision :: int
  rc_last_checked_at :: "seconds option"
  rc_healthy_since_at :: "seconds option"
  rc_healthy_sampled_at :: "seconds option"
  rc_healthy_check_count :: int
  rc_updated_at :: seconds

record route_control_event =
  re_control_key :: string
  re_paused :: bool
  re_reason_code :: string
  re_revision :: int
  re_actor_user_id :: "id option"
  re_created_at :: seconds

record organization =
  o_id :: id
  o_owner_account_id :: id

record team =
  te_id :: id
  te_organization_id :: id
  te_active :: bool

record agent_assignment =
  aa_agent_id :: id
  aa_organization_id :: id
  aa_team_id :: "id option"
  aa_cost_center :: string

text \<open>\<open>organization_spend_budgets\<close>: a missing limit is no ceiling.\<close>

record spend_budget =
  sb_organization_id :: id
  sb_max_per_execution_minor :: "int option"
  sb_max_daily_minor :: "int option"
  sb_max_monthly_minor :: "int option"
  sb_version :: int
  sb_created_at :: seconds
  sb_updated_at :: seconds

record team_budget =
  tb_team_id :: id
  tb_organization_id :: id
  tb_max_per_execution_minor :: "int option"
  tb_max_daily_minor :: "int option"
  tb_max_monthly_minor :: "int option"
  tb_version :: int
  tb_created_at :: seconds
  tb_updated_at :: seconds

record trade_attribution =
  ta_trade_id :: id
  ta_organization_id :: id
  ta_agent_id :: id
  ta_team_id :: "id option"
  ta_cost_center :: string
  ta_total_minor :: int
  ta_created_at :: seconds

record contract_attribution =
  cx_contract_id :: id
  cx_organization_id :: id
  cx_agent_id :: id
  cx_team_id :: "id option"
  cx_cost_center :: string
  cx_total_minor :: int
  cx_created_at :: seconds

text \<open>
  \<open>organization_budget_events\<close> and \<open>organization_team_budget_events\<close>: the old and new
  limits, whose JSON text the code only writes.
\<close>

type_synonym limits = "int option \<times> int option \<times> int option"

record budget_event =
  be_organization_id :: id
  be_team_id :: "id option"
  be_actor_account_id :: id
  be_version :: int
  be_old :: "limits option"
  be_new :: limits
  be_created_at :: seconds

record audit_event =
  ae_organization_id :: id
  ae_actor_account_id :: id
  ae_action :: string
  ae_team_id :: "id option"
  ae_created_at :: seconds

text \<open>
  \<open>buyer_spend_policies.policy_json\<close> as the policy object it encodes
  (\<open>BuyerSpendPolicy\<close>): amounts in cents, absent fields \<open>None\<close>.  The provider
  requirements are kept as the flag the code reads here, whether any is set.
\<close>

record buyer_policy =
  bp_max_per_execution :: "int option"
  bp_max_daily :: "int option"
  bp_max_monthly :: "int option"
  bp_max_retry_budget :: "int option"
  bp_approval_required_above :: "int option"
  bp_allowed_capabilities :: "string list option"
  bp_blocked_capabilities :: "string list option"
  bp_approved_providers :: "string list option"
  bp_blocked_providers :: "string list option"
  bp_approved_payment_rails :: "rail list option"
  bp_required_verification_methods :: "string list option"
  bp_has_provider_requirements :: bool

record buyer_policy_row =
  bs_buyer_id :: id
  bs_policy :: buyer_policy

section \<open>Reviewed purchases, as far as the modelled guards read them\<close>

record contract_authorization =
  ga_id :: id
  ga_contract_id :: id
  ga_terms_listing_id :: "id option"

record contract_use =
  gu_authorization_id :: id
  gu_contract_id :: id

record listing_authorization =
  la_id :: id
  la_listing_id :: id
  la_buyer_id :: id

record listing_use =
  lu_authorization_id :: id
  lu_listing_id :: id

record task_use =
  tu_authorization_id :: id
  tu_trade_id :: id

section \<open>Instant execution\<close>

text \<open>\<open>outputSchemaV1\<close>: the bounded JSON schema subset of \<open>lib/verification-policy.ts\<close>.\<close>

datatype field_type = F_string | F_number | F_integer | F_boolean | F_object | F_array | F_null

record output_schema =
  os_properties :: "(string \<times> field_type) list"
  os_required :: "string list"
  os_additional :: "bool option"

text \<open>JSON values; an object is its entries in order.\<close>

datatype json = J_null | J_bool bool | J_num num | J_str string | J_arr "json list"
  | J_obj "(string \<times> json) list"

record instant_service =
  is_id :: id
  is_seller_id :: id
  is_title :: string
  is_capabilities :: "string list"
  is_input_schema :: output_schema
  is_output_schema :: output_schema
  is_unit_price_minor :: int
  is_max_concurrency :: int
  is_deadline_seconds :: int
  is_active :: bool

record instant_terms =
  it_seller_id :: id
  it_capabilities :: "string list"
  it_input_schema :: output_schema
  it_output_schema :: output_schema
  it_unit_price_minor :: int
  it_deadline_seconds :: int
  it_max_concurrency :: int

record instant_session =
  in_id :: id
  in_buyer_id :: id
  in_service_id :: id
  in_client_reference :: string
  in_terms :: instant_terms
  in_budget_minor :: int
  in_balance_minor :: int
  in_held_minor :: int
  in_spent_minor :: int
  in_refunded_minor :: int
  in_status :: instant_status
  in_created_at :: seconds
  in_expires_at :: seconds
  in_closed_at :: "seconds option"

text \<open>A receipt; its version, unit count, currency and the like are constants.\<close>

record instant_receipt =
  ir_call_id :: id
  ir_session_id :: id
  ir_service_id :: id
  ir_buyer_id :: id
  ir_seller_id :: id
  ir_amount_minor :: int
  ir_input_sha256 :: string
  ir_output_sha256 :: string
  ir_settled_at :: millis

record instant_call =
  ic_id :: id
  ic_session_id :: id
  ic_service_id :: id
  ic_seller_id :: id
  ic_client_reference :: string
  ic_input_json :: string
  ic_input_hash :: string
  ic_unit_price_minor :: int
  ic_state :: call_state
  ic_lease_token_hash :: "string option"
  ic_output_json :: "string option"
  ic_receipt :: "instant_receipt option"
  ic_failure_code :: "string option"
  ic_deadline_at :: seconds
  ic_completed_at :: "seconds option"

section \<open>The database\<close>

record db =
  credit_accounts :: "credit_account list"
  credit_entries :: "credit_entry list"
  credit_deposits :: "credit_deposit list"
  payment_receipts :: "payment_receipt list"
  wallets :: "wallet list"
  transactions :: "transaction_row list"
  mpp_sessions :: "mpp_session list"
  contracts :: "contract list"
  contract_milestones :: "milestone list"
  contract_submissions :: "submission list"
  contract_disputes :: "contract_dispute list"
  contract_creation_requests :: "creation_request list"
  listings :: "listing list"
  trades :: "trade list"
  service_definitions :: "service_definition list"
  service_orders :: "service_order list"
  service_execution_attempts :: "execution_attempt list"
  route_plans :: "route_plan list"
  task_workspaces :: "task_workspace list"
  tasks :: "task list"
  users :: "user list"
  agents :: "agent list"
  agent_owners :: "agent_owner list"
  seller_payment_preferences :: "seller_preference list"
  payment_controls :: "payment_control list"
  organizations :: "organization list"
  organization_teams :: "team list"
  organization_agent_assignments :: "agent_assignment list"
  organization_spend_budgets :: "spend_budget list"
  organization_team_budgets :: "team_budget list"
  organization_trade_attributions :: "trade_attribution list"
  organization_contract_attributions :: "contract_attribution list"
  organization_budget_events :: "budget_event list"
  organization_audit_events :: "audit_event list"
  buyer_spend_policies :: "buyer_policy_row list"
  organization_contract_authorizations :: "contract_authorization list"
  organization_contract_uses :: "contract_use list"
  organization_listing_authorizations :: "listing_authorization list"
  organization_listing_uses :: "listing_use list"
  organization_task_uses :: "task_use list"
  instant_services :: "instant_service list"
  instant_sessions :: "instant_session list"
  instant_calls :: "instant_call list"
  trade_deliveries :: "trade_delivery list"
  verification_results :: "verification_result list"
  private_artifacts :: "private_artifact list"
  webhooks :: "webhook list"
  webhook_deliveries :: "webhook_delivery list"
  settlement_transfers :: "settlement_transfer list"
  settlement_nonces :: "settlement_nonce list"
  payout_addresses :: "payout_address list"
  route_controls :: "route_control list"
  route_control_events :: "route_control_event list"
  route_payment_mandates :: "route_mandate list"
  route_funding_steps :: "funding_step list"
  route_retry_funding_steps :: "funding_step list"
  evm_payment_intents :: "evm_intent list"
  buyer_evm_payment_claims :: "payment_claim list"
  buyer_mpp_payment_intents :: "mpp_intent list"
  buyer_mpp_payment_claims :: "payment_claim list"

text \<open>The database of a new deployment.\<close>

definition empty_db :: db where
  "empty_db = \<lparr>credit_accounts = [], credit_entries = [], credit_deposits = [], payment_receipts = [], wallets = [],
     transactions = [], mpp_sessions = [], contracts = [], contract_milestones = [], contract_submissions = [],
     contract_disputes = [], contract_creation_requests = [], listings = [], trades = [], service_definitions = [],
     service_orders = [], service_execution_attempts = [], route_plans = [], task_workspaces = [], tasks = [],
     users = [], agents = [], agent_owners = [], seller_payment_preferences = [], payment_controls = [],
     organizations = [], organization_teams = [], organization_agent_assignments = [],
     organization_spend_budgets = [], organization_team_budgets = [], organization_trade_attributions = [],
     organization_contract_attributions = [], organization_budget_events = [], organization_audit_events = [],
     buyer_spend_policies = [], organization_contract_authorizations = [], organization_contract_uses = [],
     organization_listing_authorizations = [], organization_listing_uses = [], organization_task_uses = [],
     instant_services = [], instant_sessions = [], instant_calls = [], trade_deliveries = [], verification_results = [],
     private_artifacts = [], webhooks = [], webhook_deliveries = [], settlement_transfers = [], settlement_nonces = [],
     payout_addresses = [], route_controls = [], route_control_events = [], route_payment_mandates = [],
     route_funding_steps = [], route_retry_funding_steps = [], evm_payment_intents = [], buyer_evm_payment_claims = [],
     buyer_mpp_payment_intents = [], buyer_mpp_payment_claims = []\<rparr>"

lemma empty_db_tables [simp]:
  "credit_accounts empty_db = []" "credit_entries empty_db = []" "credit_deposits empty_db = []"
  "payment_receipts empty_db = []" "wallets empty_db = []" "transactions empty_db = []"
  "mpp_sessions empty_db = []" "contracts empty_db = []" "contract_milestones empty_db = []"
  "contract_submissions empty_db = []" "contract_disputes empty_db = []" "contract_creation_requests empty_db = []"
  "listings empty_db = []" "trades empty_db = []" "service_definitions empty_db = []"
  "service_orders empty_db = []" "service_execution_attempts empty_db = []" "route_plans empty_db = []"
  "task_workspaces empty_db = []" "tasks empty_db = []" "users empty_db = []"
  "agents empty_db = []" "agent_owners empty_db = []" "seller_payment_preferences empty_db = []"
  "payment_controls empty_db = []" "organizations empty_db = []" "organization_teams empty_db = []"
  "organization_agent_assignments empty_db = []" "organization_spend_budgets empty_db = []" "organization_team_budgets empty_db = []"
  "organization_trade_attributions empty_db = []" "organization_contract_attributions empty_db = []" "organization_budget_events empty_db = []"
  "organization_audit_events empty_db = []" "buyer_spend_policies empty_db = []" "organization_contract_authorizations empty_db = []"
  "organization_contract_uses empty_db = []" "organization_listing_authorizations empty_db = []" "organization_listing_uses empty_db = []"
  "organization_task_uses empty_db = []" "instant_services empty_db = []" "instant_sessions empty_db = []"
  "instant_calls empty_db = []" "trade_deliveries empty_db = []" "verification_results empty_db = []"
  "private_artifacts empty_db = []" "webhooks empty_db = []" "webhook_deliveries empty_db = []"
  "settlement_transfers empty_db = []" "settlement_nonces empty_db = []" "payout_addresses empty_db = []"
  "route_controls empty_db = []" "route_control_events empty_db = []"
  "route_payment_mandates empty_db = []" "route_funding_steps empty_db = []" "route_retry_funding_steps empty_db = []"
  "evm_payment_intents empty_db = []" "buyer_evm_payment_claims empty_db = []" "buyer_mpp_payment_intents empty_db = []"
  "buyer_mpp_payment_claims empty_db = []"
  by (simp_all add: empty_db_def)

text \<open>A trade of twenty dollars between two agents, as the examples use it.\<close>

definition sample_trade :: trade where
  "sample_trade = \<lparr>t_id = ''t1'', t_listing_id = ''l1'', t_buyer_id = ''user_agent_a1'', t_seller_id = ''user_agent_a2'',
     t_amount = 20, t_fee = 0, t_item_price = 20, t_platform_fee = 0, t_total_cost = 20, t_seller_amount = 20,
     t_dev_amount = 0, t_dev_wallet = None, t_fee_tx_hash = None, t_payout_status = Payout_pending,
     t_payment_rail = Credit, t_client_reference = None, t_status = T_escrow_held, t_escrow_session_id = None,
     t_payment_due_at = None, t_funded_at = None, t_auto_confirm_at = None, t_resolution = None,
     t_resolution_seller_percent = None, t_created_at = 0, t_completed_at = None, t_rating_window_expires_at = None\<rparr>"

section \<open>Errors\<close>

text \<open>
  The error classes of the source, each with its \<open>code\<close> (or, where the class has
  none, its message) and the HTTP status it carries.  \<open>SqlError\<close> is what the
  database raises on a violated unique index or CHECK constraint; \<open>PlainError\<close> is a
  bare \<open>throw new Error(...)\<close>.
\<close>

datatype app_error =
    CreditError string nat
  | ContractSettlementError string
  | WalletGuardError string
  | TradeRaceError string
  | SellerRailError
  | ContractActionError string nat
  | MilestoneActionError string nat
  | ContractCreationError string nat
  | PurchasingError string nat
  | AgentSpendPolicyError string
  | BuyerSpendPolicyError string
  | TeamBudgetError string nat
  | NewPaymentsPausedError
  | InstantError string nat
  | ServiceAttemptError string nat
  | ServiceOrderStartError string nat
  | ServiceOrderReservationError string nat
  | DeliveryError string nat
  | TradeFundingError string nat
  | AcceptanceError string
  | SettlementError string bool
  | RouteControlError string nat
  | RouteMandateError string nat
  | SqlError string
  | PlainError string

type_synonym 'a dbtx = "(db, app_error, 'a) tx"

end
