(* ===== verification/JsString.thy ===== *)
theory JsString
  imports JsNumber
begin

text \<open>
  The string operations of JavaScript that the modelled code uses.  Strings are
  sequences of characters up to U+00FF; the case mapping and the white space of
  the language are written out for them.
\<close>

section \<open>Case and white space\<close>

text \<open>\<open>toLowerCase\<close>: A to Z, and the accented capitals (all but the multiplication sign).\<close>

definition lower_char :: "char \<Rightarrow> char" where
  "lower_char c = (let n = of_char c :: int in
     if 65 \<le> n \<and> n \<le> 90 \<or> 192 \<le> n \<and> n \<le> 222 \<and> n \<noteq> 215 then char_of (n + 32) else c)"

definition lower :: "string \<Rightarrow> string" where
  "lower xs = map lower_char xs"

definition is_space :: "char \<Rightarrow> bool" where
  "is_space c = (let n = of_char c :: int in 9 \<le> n \<and> n \<le> 13 \<or> n = 32 \<or> n = 160)"

definition trim :: "string \<Rightarrow> string" where
  "trim xs = rev (dropWhile is_space (rev (dropWhile is_space xs)))"

lemma lower_char_idem [simp]: "lower_char (lower_char c) = lower_char c"
  by (auto simp: lower_char_def Let_def)

lemma lower_idem [simp]: "lower (lower xs) = lower xs"
  by (simp add: lower_def)

lemma dropWhile_none: "(\<And>c. c \<in> set xs \<Longrightarrow> \<not> p c) \<Longrightarrow> dropWhile p xs = xs"
  by (cases xs) auto

lemma trim_id: "(\<And>c. c \<in> set xs \<Longrightarrow> \<not> is_space c) \<Longrightarrow> trim xs = xs"
  using dropWhile_none [of xs is_space] dropWhile_none [of "rev xs" is_space] by (simp add: trim_def)

section \<open>Runs of characters\<close>

text \<open>\<open>replace(/[p]+/g, '-')\<close>: every maximal run of matching characters becomes one dash.\<close>

function dash_runs :: "(char \<Rightarrow> bool) \<Rightarrow> string \<Rightarrow> string" where
  "dash_runs p [] = []"
| "dash_runs p (x # xs) =
     (if p x then CHR ''-'' # dash_runs p (dropWhile p xs) else x # dash_runs p xs)"
  by pat_completeness auto
termination
  by (relation "measure (\<lambda>(p, xs). length xs)") (auto simp: le_imp_less_Suc length_dropWhile_le)

text \<open>\<open>split(/[^p]+/)\<close>: a run of separators is one cut, and the ends may be empty.\<close>

function split_runs :: "(char \<Rightarrow> bool) \<Rightarrow> string \<Rightarrow> string list" where
  "split_runs p xs = takeWhile p xs #
     (case dropWhile p xs of [] \<Rightarrow> [] | y # ys \<Rightarrow> split_runs p (dropWhile (\<lambda>c. \<not> p c) ys))"
  by pat_completeness auto
termination
proof (relation "measure (\<lambda>(p, xs). length xs)", simp, clarsimp)
  fix p xs y ys
  assume "dropWhile p xs = y # (ys :: string)"
  then have "length ys < length xs" using length_dropWhile_le [of p xs] by simp
  then show "length (dropWhile (\<lambda>c. \<not> p c) ys) < length xs"
    using length_dropWhile_le [of "\<lambda>c. \<not> p c" ys] by simp
qed

declare split_runs.simps [simp del]

lemma dash_runs_id:
  assumes "\<And>c. c \<in> set xs \<Longrightarrow> \<not> p c"
  shows "dash_runs p xs = xs"
  using assms by (induction xs) auto

lemma set_dash_runs: "set (dash_runs p xs) \<subseteq> insert CHR ''-'' (set xs)"
  by (induction p xs rule: dash_runs.induct) (auto dest: set_dropWhileD)

text \<open>Collapsing runs of dashes a second time changes nothing.\<close>

lemma dash_runs_head: "dash_runs p (dropWhile p xs) = y # ys \<Longrightarrow> \<not> p CHR ''-'' \<or> p = (\<lambda>c. c = CHR ''-'') \<Longrightarrow> \<not> p y"
  using hd_dropWhile [of p xs] by (cases "dropWhile p xs") (auto split: if_splits)

lemma dash_runs_idem:
  "dash_runs (\<lambda>c. c = CHR ''-'') (dash_runs (\<lambda>c. c = CHR ''-'') xs) = dash_runs (\<lambda>c. c = CHR ''-'') xs"
proof (induction "\<lambda>c. c = CHR ''-''" xs rule: dash_runs.induct)
  case (2 x xs)
  let ?p = "\<lambda>c. c = CHR ''-''"
  have drop: "dropWhile ?p (dash_runs ?p (dropWhile ?p xs)) = dash_runs ?p (dropWhile ?p xs)"
    using dash_runs_head [of ?p xs] by (cases "dash_runs ?p (dropWhile ?p xs)") auto
  show ?case using 2 by (simp add: drop)
qed simp

section \<open>Decimal digits\<close>

definition digit_char :: "nat \<Rightarrow> char" where
  "digit_char d = char_of (48 + d)"

definition is_digit :: "char \<Rightarrow> bool" where
  "is_digit c = (let n = of_char c :: nat in 48 \<le> n \<and> n \<le> 57)"

definition digit_value :: "char \<Rightarrow> nat" where
  "digit_value c = of_char c - 48"

text \<open>\<open>Number(s)\<close> of a string of digits, and \<open>String(n)\<close> of a natural number.\<close>

definition parse_digits :: "string \<Rightarrow> nat" where
  "parse_digits xs = foldl (\<lambda>n c. 10 * n + digit_value c) 0 xs"

fun show_nat :: "nat \<Rightarrow> string" where
  "show_nat n = (if n < 10 then [digit_char n] else show_nat (n div 10) @ [digit_char (n mod 10)])"

declare show_nat.simps [simp del]

lemma digit_char [simp]:
  "d < 10 \<Longrightarrow> is_digit (digit_char d)" "d < 10 \<Longrightarrow> digit_value (digit_char d) = d"
  by (simp_all add: digit_char_def is_digit_def digit_value_def Let_def)

lemma parse_digits_snoc [simp]: "parse_digits (xs @ [c]) = 10 * parse_digits xs + digit_value c"
  by (simp add: parse_digits_def)

lemma parse_digits_Nil [simp]: "parse_digits [] = 0"
  by (simp add: parse_digits_def)

lemma parse_digits_one [simp]: "parse_digits [c] = digit_value c"
  by (simp add: parse_digits_def)

lemma parse_show_nat [simp]: "parse_digits (show_nat n) = n"
proof (induction n rule: show_nat.induct)
  case (1 n)
  then show ?case by (subst show_nat.simps) auto
qed

lemma show_nat_digits: "list_all is_digit (show_nat n)"
proof (induction n rule: show_nat.induct)
  case (1 n)
  then show ?case by (subst show_nat.simps) auto
qed

lemma show_nat_not_Nil [simp]: "show_nat n \<noteq> []"
  by (subst show_nat.simps) simp

lemma digit_char_eq_0 [simp]: "d < 10 \<Longrightarrow> digit_char d = CHR ''0'' \<longleftrightarrow> d = 0"
proof -
  assume d: "d < 10"
  have "CHR ''0'' = digit_char 0" unfolding digit_char_def by code_simp
  moreover have "digit_value (digit_char d) = d" "digit_value (digit_char 0) = 0" using d by simp_all
  ultimately show ?thesis by metis
qed

lemma show_nat_head: "0 < n \<Longrightarrow> hd (show_nat n) \<noteq> CHR ''0''"
proof (induction n rule: show_nat.induct)
  case (1 n)
  then show ?case by (subst show_nat.simps) auto
qed

lemma show_nat_length: "n < 10 ^ Suc k \<Longrightarrow> length (show_nat n) \<le> Suc k"
proof (induction k arbitrary: n)
  case 0 then show ?case by (subst show_nat.simps) simp
next
  case (Suc k)
  then have "n div 10 < 10 ^ Suc k" by (simp add: less_mult_imp_div_less mult.commute)
  with Suc.IH show ?case by (subst show_nat.simps) auto
qed

text \<open>\<open>padEnd(2, '0')\<close>.\<close>

definition pad_end2 :: "string \<Rightarrow> string" where
  "pad_end2 xs = xs @ replicate (2 - length xs) CHR ''0''"

text \<open>
  \<open>toFixed(2)\<close> of a non-negative number: the hundredths nearest to it (the upper of
  two equally near), in decimal.
\<close>

definition hundredths :: "num \<Rightarrow> int" where
  "hundredths x = \<lfloor>x * 100 + 1 / 2\<rfloor>"

definition to_fixed2 :: "num \<Rightarrow> string" where
  "to_fixed2 x = (let n = nat (hundredths x) in
     show_nat (n div 100) @ ''.'' @ [digit_char (n div 10 mod 10), digit_char (n mod 10)])"

lemma hundredths_of_minor: "\<bar>n\<bar> \<le> 2 ^ 50 \<Longrightarrow> hundredths (of_minor n) = n"
proof -
  assume "\<bar>n\<bar> \<le> 2 ^ 50"
  then have n: "\<bar>of_int n :: rat\<bar> \<le> 2 ^ 50" by (metis of_int_abs of_int_le_iff of_int_numeral of_int_power)
  define q where "q = (of_int n :: rat) / 100"
  have "\<bar>q\<bar> \<le> 2 ^ 50 / 100" using n by (simp add: q_def)
  then have "\<bar>fl q - q\<bar> \<le> (2 ^ 50 / 100) / 2 ^ 53" by (rule fl_error_abs)
  moreover have "(2 ^ 50 / 100) / 2 ^ 53 = (1 / 800 :: rat)" by simp
  ultimately have e: "\<bar>fl q - q\<bar> \<le> 1 / 800" by (simp only:)
  have "\<bar>(fl q - q) * 100\<bar> = \<bar>fl q - q\<bar> * 100" by (simp only: abs_mult abs_numeral)
  also have "\<dots> \<le> 1 / 800 * 100" using e by (rule mult_right_mono) simp
  also have "\<dots> < 1 / 2" by simp
  finally have "\<bar>(fl q - q) * 100\<bar> < 1 / 2" .
  moreover have "(fl q - q) * 100 = fl q * 100 - of_int n" by (simp add: q_def left_diff_distrib)
  ultimately have "\<bar>fl q * 100 - of_int n\<bar> < 1 / 2" by simp
  then have "jround (fl q * 100) = n" by (rule jround_near)
  then show ?thesis by (simp add: hundredths_def jround_def of_minor_def jdiv_def q_def)
qed

lemma to_fixed2_of_minor:
  assumes "0 \<le> n" and "n \<le> 2 ^ 50"
  shows "to_fixed2 (of_minor n) = show_nat (nat n div 100) @ ''.''
           @ [digit_char (nat n div 10 mod 10), digit_char (nat n mod 10)]"
  using hundredths_of_minor [of n] assms by (simp add: to_fixed2_def Let_def)

end
