(* ===== verification/AccountCredit.thy ===== *)
theory AccountCredit
  imports Schema JsString
begin

text \<open>
  Deposited account credit (\<open>lib/account-credit.ts\<close>): the double-entry journal every
  credit purchase, contract, prepaid session and agent top-up posts to.  An
  account row holds whole cents, available and in escrow; every change of it
  is posted beside it as an entry that no second entry with the same user,
  reference and kind can follow.

  The locale \<open>credit_journal\<close> is the contract the other components rely on; its
  interpretation at the end discharges it for \<open>changeCredit\<close>.
\<close>

section \<open>Operations\<close>

abbreviation credit_of :: "id \<Rightarrow> credit_account \<Rightarrow> bool" where
  "credit_of u \<equiv> (\<lambda>a. ca_user_id a = u)"

definition creditBalance :: "db \<Rightarrow> id \<Rightarrow> int \<times> int" where
  "creditBalance s u = (case find (credit_of u) (credit_accounts s) of
     None \<Rightarrow> (0, 0) | Some a \<Rightarrow> (ca_available_minor a, ca_escrow_minor a))"

definition changeCredit :: "seconds \<Rightarrow> id \<Rightarrow> string \<Rightarrow> string \<Rightarrow> int \<Rightarrow> int \<Rightarrow> unit dbtx" where
  "changeCredit now userId reference kind available escrow =
     andthen (require (safe_int available \<and> safe_int escrow) (CreditError ''INVALID_AMOUNT'' 409))
    (andthen (insert_ignore credit_accounts credit_accounts_update (credit_of userId)
        \<lparr>ca_user_id = userId, ca_available_minor = 0, ca_escrow_minor = 0\<rparr>)
    (bnd (update_where credit_accounts credit_accounts_update
        (\<lambda>a. ca_user_id a = userId \<and> 0 \<le> ca_available_minor a + available \<and> 0 \<le> ca_escrow_minor a + escrow)
        (\<lambda>a. a\<lparr>ca_available_minor := ca_available_minor a + available,
                ca_escrow_minor := ca_escrow_minor a + escrow\<rparr>)) (\<lambda>rows.
     andthen (require (rows \<noteq> []) (CreditError ''INSUFFICIENT_CREDIT'' 402))
       (insert_row credit_entries credit_entries_update
          (\<lambda>e. ce_user_id e = userId \<and> ce_reference e = reference \<and> ce_kind e = kind)
          (SqlError ''UNIQUE credit_entries'')
          \<lparr>ce_user_id = userId, ce_reference = reference, ce_kind = kind,
           ce_available_delta = available, ce_escrow_delta = escrow, ce_created_at = now\<rparr>))))"

definition reserveCredit :: "seconds \<Rightarrow> id \<Rightarrow> id \<Rightarrow> id \<Rightarrow> int \<Rightarrow> int \<Rightarrow> int \<Rightarrow> unit dbtx" where
  "reserveCredit now ref buyer feeRecipient totalMinor seller fee =
     andthen (require (\<not> (totalMinor \<noteq> seller + fee \<or> seller \<le> 0 \<or> fee < 0)) (CreditError ''INVALID_AMOUNT'' 409))
    (andthen (changeCredit now buyer ref ''purchase'' (- totalMinor) seller)
       (onlyif (fee \<noteq> 0) (changeCredit now feeRecipient ref ''fee'' fee 0)))"

definition settleCredit :: "seconds \<Rightarrow> id \<Rightarrow> id \<Rightarrow> id \<Rightarrow> num \<Rightarrow> int \<Rightarrow> unit dbtx" where
  "settleCredit now tradeId buyer seller amount buyerMinor =
     (let totalMinor = to_minor amount in
      andthen (require (\<not> (\<not> safe_int buyerMinor \<or> buyerMinor < 0 \<or> totalMinor < buyerMinor))
                (CreditError ''INVALID_AMOUNT'' 409))
     (bnd (select_one credit_entries (\<lambda>e. ce_user_id e = buyer \<and> ce_reference e = tradeId \<and> ce_kind e = ''purchase''))
        (\<lambda>lock. case lock of
           None \<Rightarrow> throw (CreditError ''CREDIT_ESCROW_MISMATCH'' 409)
         | Some l \<Rightarrow>
             andthen (require (ce_escrow_delta l = totalMinor) (CreditError ''CREDIT_ESCROW_MISMATCH'' 409))
            (andthen (changeCredit now buyer tradeId ''settlement'' buyerMinor (- totalMinor))
               (onlyif (buyerMinor < totalMinor) (changeCredit now seller tradeId ''sale'' (totalMinor - buyerMinor) 0))))))"

text \<open>An owner moves credit to the account of an agent they own.\<close>

definition fundOwnedAgent :: "seconds \<Rightarrow> id \<Rightarrow> id \<Rightarrow> int \<Rightarrow> string \<Rightarrow> (bool \<times> int \<times> int) dbtx" where
  "fundOwnedAgent now userId agentId minor clientReference =
     (let target = ''user_agent_'' @ agentId;
          reference = ''agent-funding:'' @ userId @ '':'' @ clientReference in
      bnd (asks (\<lambda>s. find (\<lambda>o'. ao_agent_id o' = agentId \<and> ao_user_id o' = userId \<and>
                   (\<exists>g \<in> set (agents s). ag_id g = agentId \<and> ag_archived_at g = None)) (agent_owners s)))
        (\<lambda>own. case own of None \<Rightarrow> throw (CreditError ''AGENT_NOT_OWNED'' 403) | Some _ \<Rightarrow>
      bnd (select_one credit_entries (\<lambda>e. ce_reference e = reference \<and> ce_kind e = ''transfer_out''))
        (\<lambda>prior. case prior of
           Some p \<Rightarrow>
             bnd (select_one credit_entries (\<lambda>e. ce_reference e = reference \<and> ce_kind e = ''transfer_in''))
               (\<lambda>destination.
                  andthen (require (\<not> (ce_user_id p \<noteq> userId \<or> ce_available_delta p \<noteq> - minor
                                      \<or> map_option ce_user_id destination \<noteq> Some target))
                            (CreditError ''REFERENCE_CONFLICT'' 409))
                    (bnd (asks (\<lambda>s. creditBalance s target)) (\<lambda>b. ret (True, b))))
         | None \<Rightarrow>
             andthen (changeCredit now userId reference ''transfer_out'' (- minor) 0)
            (andthen (changeCredit now target reference ''transfer_in'' minor 0)
               (bnd (asks (\<lambda>s. creditBalance s target)) (\<lambda>b. ret (False, b)))))))"

subsection \<open>Deposits\<close>

text \<open>
  What a deposit reads from outside the database: the deployment's USDC token
  and treasury (\<open>creditToken\<close>), the chain, and the signature check.  \<open>net_payment\<close> is
  the answer of \<open>verifyIncomingErc20Payment\<close>: the token amount the transaction
  paid, or its error.
\<close>

record network =
  net_token :: "(string \<times> int) option"
  net_treasury :: "string"
  net_rpc :: bool
  net_chain_id :: int
  net_payer_is_contract :: "string \<Rightarrow> bool"
  net_signature_ok :: "credit_deposit \<Rightarrow> string \<Rightarrow> string \<Rightarrow> bool"
  net_payment :: "credit_deposit \<Rightarrow> string \<Rightarrow> app_error + int"
  net_canonical :: "credit_deposit \<Rightarrow> string \<Rightarrow> bool"

definition replayDeposit :: "int \<Rightarrow> string \<Rightarrow> credit_deposit \<Rightarrow> (bool \<times> credit_deposit) dbtx" where
  "replayDeposit amount payer prior =
     andthen (require (\<not> (cd_amount_minor prior \<noteq> amount \<or> cd_payer prior \<noteq> lower payer))
               (CreditError ''REFERENCE_CONFLICT'' 409))
       (ret (False, prior))"

definition createDeposit ::
  "network \<Rightarrow> millis \<Rightarrow> id \<Rightarrow> id \<Rightarrow> int \<Rightarrow> string \<Rightarrow> string \<Rightarrow> (bool \<times> credit_deposit) dbtx" where
  "createDeposit net now fresh userId amount payer clientReference =
    (case net_token net of
       None \<Rightarrow> throw (CreditError ''CREDIT_UNAVAILABLE'' 503)
     | Some (token, chainId) \<Rightarrow>
       bnd (select_one credit_deposits (\<lambda>d. cd_user_id d = userId \<and> cd_client_reference d = clientReference))
        (\<lambda>prior. case prior of Some p \<Rightarrow> replayDeposit amount payer p | None \<Rightarrow>
          andthen (require (net_rpc net) (CreditError ''CREDIT_UNAVAILABLE'' 503))
         (andthen (require (net_chain_id net = chainId) (CreditError ''DEPOSIT_CHAIN_MISMATCH'' 503))
         (andthen (require (\<not> net_payer_is_contract net payer) (CreditError ''DEPOSIT_WALLET_UNSUPPORTED'' 400))
         (let intent = \<lparr>cd_id = fresh, cd_user_id = userId, cd_client_reference = clientReference,
               cd_amount_minor = amount, cd_payer = lower payer, cd_treasury = lower (net_treasury net),
               cd_token = lower token, cd_chain_id = chainId, cd_tx_hash = None, cd_payer_signature = None,
               cd_state = Deposit_pending, cd_created_at = now div 1000,
               cd_expires_at = (now + 30 * 60000) div 1000\<rparr> in
          andthen (require (0 < amount) (SqlError ''CHECK credit_deposits_positive''))
         (andthen (insert_row credit_deposits credit_deposits_update
             (\<lambda>d. cd_id d = fresh \<or> cd_user_id d = userId \<and> cd_client_reference d = clientReference)
             (SqlError ''UNIQUE credit_deposits'') intent)
            (ret (True, intent))))))))"

text \<open>The transaction at the end of \<open>confirmDeposit\<close>.\<close>

definition commitDeposit :: "millis \<Rightarrow> id \<Rightarrow> credit_deposit \<Rightarrow> string \<Rightarrow> int \<Rightarrow> credit_deposit dbtx" where
  "commitDeposit now userId intent hash tokenAmount =
     bnd (select_one credit_deposits (\<lambda>d. cd_id d = cd_id intent)) (\<lambda>current.
       case current of
         None \<Rightarrow> throw (PlainError ''TypeError'')
       | Some cur \<Rightarrow> if cd_state cur = Deposit_confirmed then ret cur else
           bnd (select_one payment_receipts (\<lambda>p. pr_tx_hash p = Some hash)) (\<lambda>used.
           andthen (require (used = None) (CreditError ''DEPOSIT_PROOF_ALREADY_USED'' 409))
          (andthen (insert_row payment_receipts payment_receipts_update
              (\<lambda>p. pr_tx_hash p = Some hash \<or> pr_payment_rail p = Some Evm \<and> pr_external_id p = Some (cd_id intent))
              (SqlError ''UNIQUE payment_receipts'')
              \<lparr>pr_route = ''/api/wallet/deposits'', pr_trade_id = None, pr_payment_rail = Some Evm,
               pr_amount = of_minor (cd_amount_minor intent), pr_currency = ''USDC'', pr_tx_hash = Some hash,
               pr_payer_address = Some (cd_payer intent), pr_token_address = Some (cd_token intent),
               pr_chain_id = Some (cd_chain_id intent), pr_token_symbol = Some ''USDC'',
               pr_token_decimals = Some 6, pr_token_amount = Some tokenAmount, pr_token_usd_price = Some 1,
               pr_usd_value_at_payment = Some (of_minor (cd_amount_minor intent)),
               pr_external_id = Some (cd_id intent)\<rparr>)
          (andthen (changeCredit (now div 1000) userId (cd_id intent) ''deposit'' (cd_amount_minor intent) 0)
          (bnd (update_where credit_deposits credit_deposits_update
              (\<lambda>d. cd_id d = cd_id intent \<and> cd_state d = Deposit_pending)
              (\<lambda>d. d\<lparr>cd_state := Deposit_confirmed\<rparr>))
            (first_or (CreditError ''DEPOSIT_STATE_CHANGED'' 409)))))))"

text \<open>
  \<open>confirmDeposit\<close> is not one transaction: the hash is claimed and committed
  before the chain is asked, so the answer comes with the committed state.
\<close>

definition claimHash :: "credit_deposit \<Rightarrow> string \<Rightarrow> string \<Rightarrow> db \<Rightarrow> app_error + db" where
  "claimHash intent hash signature s =
     (if list_ex (\<lambda>d. cd_id d \<noteq> cd_id intent \<and> cd_tx_hash d = Some hash) (credit_deposits s)
         \<and> cd_tx_hash intent = None
      then Inl (SqlError ''UNIQUE credit_deposits_hash'')
      else Inr (s\<lparr>credit_deposits := set_rows
             (\<lambda>d. cd_id d = cd_id intent \<and> (cd_tx_hash d = None \<or> cd_tx_hash d = Some hash))
             (\<lambda>d. d\<lparr>cd_tx_hash := Some hash, cd_payer_signature := Some signature\<rparr>) (credit_deposits s)\<rparr>))"

definition confirmDeposit ::
  "network \<Rightarrow> millis \<Rightarrow> id \<Rightarrow> id \<Rightarrow> string \<Rightarrow> string \<Rightarrow> db \<Rightarrow> (app_error + credit_deposit) \<times> db" where
  "confirmDeposit net now userId depositId txHash signature s =
     (case find (\<lambda>d. cd_id d = depositId \<and> cd_user_id d = userId) (credit_deposits s) of
        None \<Rightarrow> (Inl (CreditError ''DEPOSIT_NOT_FOUND'' 404), s)
      | Some intent0 \<Rightarrow>
        let hash = lower txHash in
        if cd_tx_hash intent0 \<noteq> None \<and> cd_tx_hash intent0 \<noteq> Some hash
        then (Inl (CreditError ''DEPOSIT_HASH_CONFLICT'' 409), s)
        else if cd_state intent0 = Deposit_confirmed then (Inr intent0, s)
        else if \<not> net_signature_ok net intent0 hash signature
        then (Inl (CreditError ''INVALID_DEPOSIT_PROOF'' 403), s)
        else (case claimHash intent0 hash signature s of
            Inl e \<Rightarrow> (Inl e, s)
          | Inr s1 \<Rightarrow>
            (case find (\<lambda>d. cd_id d = depositId) (credit_deposits s1) of
               None \<Rightarrow> (Inl (PlainError ''TypeError''), s1)
             | Some intent \<Rightarrow>
               if cd_tx_hash intent \<noteq> Some hash then (Inl (CreditError ''DEPOSIT_HASH_CONFLICT'' 409), s1)
               else (case net_payment net intent hash of
                   Inl e \<Rightarrow> (Inl e, s1)
                 | Inr tokenAmount \<Rightarrow>
                   if tokenAmount \<noteq> cd_amount_minor intent * 10000
                   then (Inl (CreditError ''DEPOSIT_AMOUNT_MISMATCH'' 409), s1)
                   else if \<not> net_rpc net then (Inl (CreditError ''CREDIT_UNAVAILABLE'' 503), s1)
                   else if \<not> net_canonical net intent hash
                   then (Inl (CreditError ''DEPOSIT_CHAIN_MISMATCH'' 409), s1)
                   else transaction (commitDeposit now userId intent hash tokenAmount) s1))))"

text \<open>The unspent part of a buyer's prepaid sessions.\<close>

definition instantCreditBalance :: "db \<Rightarrow> id \<Rightarrow> int \<times> int" where
  "instantCreditBalance s u =
     (sum_rows (\<lambda>i. in_buyer_id i = u) in_balance_minor (instant_sessions s),
      sum_rows (\<lambda>i. in_buyer_id i = u) in_held_minor (instant_sessions s))"

section \<open>The state of the journal\<close>

definition avail :: "db \<Rightarrow> id \<Rightarrow> int" where
  "avail s u = fst (creditBalance s u)"

definition escrowed :: "db \<Rightarrow> id \<Rightarrow> int" where
  "escrowed s u = snd (creditBalance s u)"

definition posted :: "db \<Rightarrow> id \<Rightarrow> string \<Rightarrow> string \<Rightarrow> (int \<times> int) option" where
  "posted s u r k = map_option (\<lambda>e. (ce_available_delta e, ce_escrow_delta e))
     (find (\<lambda>e. ce_user_id e = u \<and> ce_reference e = r \<and> ce_kind e = k) (credit_entries s))"

text \<open>All credit there is, available or in escrow.\<close>

definition total_credit :: "db \<Rightarrow> int" where
  "total_credit s = (\<Sum>a \<leftarrow> credit_accounts s. ca_available_minor a + ca_escrow_minor a)"

text \<open>What one obligation still holds in a user's escrow.\<close>

definition held :: "db \<Rightarrow> id \<Rightarrow> string \<Rightarrow> int" where
  "held s u r = sum_rows (\<lambda>e. ce_user_id e = u \<and> ce_reference e = r) ce_escrow_delta (credit_entries s)"

text \<open>
  The invariant of the journal: one account per user, no balance below zero,
  and every balance is the sum of the entries posted to it.
\<close>

definition books :: "db \<Rightarrow> bool" where
  "books s \<longleftrightarrow> distinct (map ca_user_id (credit_accounts s))
     \<and> (\<forall>a \<in> set (credit_accounts s). 0 \<le> ca_available_minor a \<and> 0 \<le> ca_escrow_minor a)
     \<and> (\<forall>u. avail s u = sum_rows (\<lambda>e. ce_user_id e = u) ce_available_delta (credit_entries s))
     \<and> (\<forall>u. escrowed s u = sum_rows (\<lambda>e. ce_user_id e = u) ce_escrow_delta (credit_entries s))"

text \<open>One posting, as a change of the two tables.\<close>

definition with_account :: "id \<Rightarrow> credit_account list \<Rightarrow> credit_account list" where
  "with_account u as = (if list_ex (credit_of u) as then as
     else as @ [\<lparr>ca_user_id = u, ca_available_minor = 0, ca_escrow_minor = 0\<rparr>])"

definition bump_account :: "id \<Rightarrow> int \<Rightarrow> int \<Rightarrow> credit_account list \<Rightarrow> credit_account list" where
  "bump_account u a e = set_rows
     (\<lambda>r. ca_user_id r = u \<and> 0 \<le> ca_available_minor r + a \<and> 0 \<le> ca_escrow_minor r + e)
     (\<lambda>r. r\<lparr>ca_available_minor := ca_available_minor r + a, ca_escrow_minor := ca_escrow_minor r + e\<rparr>)"

lemma find_with_account:
  "find (credit_of v) (with_account u as) =
     (case find (credit_of v) as of
        Some r \<Rightarrow> Some r
      | None \<Rightarrow> if u = v \<and> \<not> list_ex (credit_of u) as
                then Some \<lparr>ca_user_id = u, ca_available_minor = 0, ca_escrow_minor = 0\<rparr> else None)"
  by (auto simp: with_account_def find_append split: option.splits)

lemma changeCredit_eval:
  "changeCredit now u r k a e s =
     (if \<not> (safe_int a \<and> safe_int e) then Inl (CreditError ''INVALID_AMOUNT'' 409)
      else if \<not> (\<exists>x \<in> set (with_account u (credit_accounts s)).
        ca_user_id x = u \<and> 0 \<le> ca_available_minor x + a \<and> 0 \<le> ca_escrow_minor x + e)
      then Inl (CreditError ''INSUFFICIENT_CREDIT'' 402)
      else if list_ex (\<lambda>y. ce_user_id y = u \<and> ce_reference y = r \<and> ce_kind y = k) (credit_entries s)
      then Inl (SqlError ''UNIQUE credit_entries'')
      else Inr ((), s\<lparr>credit_accounts := bump_account u a e (with_account u (credit_accounts s)),
                credit_entries := credit_entries s @
                  [\<lparr>ce_user_id = u, ce_reference = r, ce_kind = k, ce_available_delta = a,
                    ce_escrow_delta = e, ce_created_at = now\<rparr>]\<rparr>))"
proof -
  have insert: "insert_ignore credit_accounts credit_accounts_update (credit_of u)
      \<lparr>ca_user_id = u, ca_available_minor = 0, ca_escrow_minor = 0\<rparr> s
    = Inr ((), s\<lparr>credit_accounts := with_account u (credit_accounts s)\<rparr>)"
    by (simp add: insert_ignore_def with_account_def)
  show ?thesis
    by (simp add: changeCredit_def andthen_def bnd_def insert require_def update_where_def insert_row_def
        bump_account_def ret_def throw_def filter_empty_conv)
qed

lemma changeCredit_run:
  "changeCredit now u r k a e s = Inr p \<longleftrightarrow>
     safe_int a \<and> safe_int e \<and>
     (\<exists>x \<in> set (with_account u (credit_accounts s)).
        ca_user_id x = u \<and> 0 \<le> ca_available_minor x + a \<and> 0 \<le> ca_escrow_minor x + e) \<and>
     \<not> list_ex (\<lambda>y. ce_user_id y = u \<and> ce_reference y = r \<and> ce_kind y = k) (credit_entries s) \<and>
     p = ((), s\<lparr>credit_accounts := bump_account u a e (with_account u (credit_accounts s)),
                credit_entries := credit_entries s @
                  [\<lparr>ce_user_id = u, ce_reference = r, ce_kind = k, ce_available_delta = a,
                    ce_escrow_delta = e, ce_created_at = now\<rparr>]\<rparr>)"
  unfolding changeCredit_eval by (simp split: if_split) blast

lemma distinct_with_account:
  "distinct (map ca_user_id as) \<Longrightarrow> distinct (map ca_user_id (with_account u as))"
  by (auto simp: with_account_def list_ex_iff)

lemma find_bump_account:
  assumes "distinct (map ca_user_id as)"
    and "\<exists>x \<in> set as. ca_user_id x = u \<and> 0 \<le> ca_available_minor x + a \<and> 0 \<le> ca_escrow_minor x + e"
  shows "find (credit_of v) (bump_account u a e as) = map_option (\<lambda>r. if ca_user_id r = u
           then r\<lparr>ca_available_minor := ca_available_minor r + a, ca_escrow_minor := ca_escrow_minor r + e\<rparr>
           else r) (find (credit_of v) as)"
proof -
  have guard: "0 \<le> ca_available_minor r + a \<and> 0 \<le> ca_escrow_minor r + e"
    if "r \<in> set as" and "ca_user_id r = u" for r
    using assms that by (metis unique_key_eq)
  show ?thesis
  proof (cases "find (credit_of v) as")
    case None
    then show ?thesis unfolding bump_account_def by (subst find_set_rows) auto
  next
    case (Some r)
    then have "r \<in> set as" by (simp add: find_Some_in)
    with Some guard [of r] show ?thesis unfolding bump_account_def by (subst find_set_rows) auto
  qed
qed

lemma creditBalance_change:
  assumes "distinct (map ca_user_id (credit_accounts s))"
    and "changeCredit now u r k a e s = Inr (x, s')"
  shows "creditBalance s' v = (if v = u then (avail s u + a, escrowed s u + e) else creditBalance s v)"
proof -
  let ?as = "with_account u (credit_accounts s)"
  from assms(2) have s': "credit_accounts s' = bump_account u a e ?as"
    and ex: "\<exists>x \<in> set ?as. ca_user_id x = u \<and> 0 \<le> ca_available_minor x + a \<and> 0 \<le> ca_escrow_minor x + e"
    by (auto simp: changeCredit_run)
  have f: "find (credit_of v) (credit_accounts s') = map_option (\<lambda>r. if ca_user_id r = u
           then r\<lparr>ca_available_minor := ca_available_minor r + a, ca_escrow_minor := ca_escrow_minor r + e\<rparr>
           else r) (find (credit_of v) ?as)"
    unfolding s' by (rule find_bump_account [OF distinct_with_account [OF assms(1)] ex])
  show ?thesis
    by (auto simp: creditBalance_def f avail_def escrowed_def find_with_account find_None_iff list_ex_iff
        dest!: find_Some_in split: option.splits)
qed

lemma avail_change:
  assumes "books s" and "changeCredit now u r k a e s = Inr (x, s')"
  shows "avail s' v = avail s v + (if v = u then a else 0)"
    and "escrowed s' v = escrowed s v + (if v = u then e else 0)"
  using creditBalance_change [OF _ assms(2)] assms(1) by (auto simp: books_def avail_def escrowed_def)

lemma credit_entries_change:
  "changeCredit now u r k a e s = Inr (x, s') \<Longrightarrow> credit_entries s' = credit_entries s @
     [\<lparr>ce_user_id = u, ce_reference = r, ce_kind = k, ce_available_delta = a, ce_escrow_delta = e,
       ce_created_at = now\<rparr>]"
  by (auto simp: changeCredit_run)

lemma books_cong:
  "credit_accounts s' = credit_accounts s \<Longrightarrow> credit_entries s' = credit_entries s \<Longrightarrow> books s' = books s"
  by (simp add: books_def avail_def escrowed_def creditBalance_def)

lemma books_change:
  assumes "books s" and "changeCredit now u r k a e s = Inr (x, s')"
  shows "books s'"
proof -
  have as: "credit_accounts s' = bump_account u a e (with_account u (credit_accounts s))"
    using assms(2) by (auto simp: changeCredit_run)
  have "distinct (map ca_user_id (credit_accounts s'))"
    using assms(1) by (simp add: as bump_account_def distinct_with_account books_def)
  moreover have "\<forall>r \<in> set (credit_accounts s'). 0 \<le> ca_available_minor r \<and> 0 \<le> ca_escrow_minor r"
    using assms(1) by (auto simp: as bump_account_def set_set_rows with_account_def books_def)
  ultimately show ?thesis
    using assms(1) avail_change [OF assms] by (auto simp: books_def credit_entries_change [OF assms(2)])
qed

lemma posted_change:
  assumes "changeCredit now u r k a e s = Inr (x, s')"
  shows "posted s u r k = None"
    and "posted s' v r' k' = (if v = u \<and> r' = r \<and> k' = k then Some (a, e) else posted s v r' k')"
proof -
  have fresh: "find (\<lambda>y. ce_user_id y = u \<and> ce_reference y = r \<and> ce_kind y = k) (credit_entries s) = None"
    using assms by (auto simp: changeCredit_run find_None_iff list_ex_iff)
  then show "posted s u r k = None" by (simp add: posted_def)
  show "posted s' v r' k' = (if v = u \<and> r' = r \<and> k' = k then Some (a, e) else posted s v r' k')"
    using fresh by (auto simp: posted_def credit_entries_change [OF assms] find_append split: option.splits)
qed

lemma held_change:
  assumes "changeCredit now u r k a e s = Inr (x, s')"
  shows "held s' v r' = held s v r' + (if v = u \<and> r' = r then e else 0)"
  by (simp add: held_def credit_entries_change [OF assms])

lemma total_credit_change:
  assumes "books s" and "changeCredit now u r k a e s = Inr (x, s')"
  shows "total_credit s' = total_credit s + a + e"
proof -
  let ?as = "with_account u (credit_accounts s)"
  from assms(2) have s': "credit_accounts s' = bump_account u a e ?as" by (auto simp: changeCredit_run)
  from assms(2) obtain y where y: "y \<in> set ?as" "ca_user_id y = u"
      "0 \<le> ca_available_minor y + a" "0 \<le> ca_escrow_minor y + e"
    by (auto simp: changeCredit_run)
  have d: "distinct (map ca_user_id ?as)" using assms(1) distinct_with_account by (simp add: books_def)
  have q: "ca_user_id z = u \<and> 0 \<le> ca_available_minor z + a \<and> 0 \<le> ca_escrow_minor z + e
      \<longleftrightarrow> ca_user_id z = ca_user_id y" if "z \<in> set ?as" for z
    using y d that by (metis unique_key_eq)
  have "sum_rows (\<lambda>_. True) (\<lambda>r. ca_available_minor r + ca_escrow_minor r) (credit_accounts s')
      = sum_rows (\<lambda>_. True) (\<lambda>r. ca_available_minor r + ca_escrow_minor r) ?as + a + e"
    unfolding s' bump_account_def by (subst sum_rows_set_rows_one [OF d y(1) q]) auto
  then show ?thesis by (simp add: total_credit_def sum_rows_def with_account_def)
qed

text \<open>A posting touches the two credit tables and nothing else.\<close>

definition beside_credit :: "db \<Rightarrow> db" where
  "beside_credit s = s\<lparr>credit_accounts := [], credit_entries := []\<rparr>"

lemma beside_credit_fields [simp]:
  "beside_credit (s\<lparr>credit_accounts := as, credit_entries := es\<rparr>) = beside_credit s"
  by (simp add: beside_credit_def)

lemma same_changeCredit: "same beside_credit (changeCredit now u r k a e)"
  by (rule sameI) (auto simp: changeCredit_run)

text \<open>Anything that the two tables do not determine is unchanged.\<close>

lemma same_beside:
  assumes "same beside_credit m" and "\<And>s as es. v (s\<lparr>credit_accounts := as, credit_entries := es\<rparr>) = v s"
  shows "same v m"
proof (rule sameI)
  fix s a s' assume "m s = Inr (a, s')"
  with assms(1) have "beside_credit s' = beside_credit s" by (rule sameD)
  then have "beside_credit s'\<lparr>credit_accounts := credit_accounts s, credit_entries := credit_entries s\<rparr> = s"
    by (simp add: beside_credit_def)
  moreover have "v (beside_credit s'\<lparr>credit_accounts := credit_accounts s, credit_entries := credit_entries s\<rparr>) = v s'"
    unfolding beside_credit_def using assms(2) by simp
  ultimately show "v s' = v s" by simp
qed


section \<open>The contract of the journal\<close>

text \<open>Money out of a user's escrow: part back to the user, the rest to a payee.\<close>

definition pay_out :: "(id \<Rightarrow> string \<Rightarrow> string \<Rightarrow> int \<Rightarrow> int \<Rightarrow> ('s, 'e, unit) tx) \<Rightarrow>
    id \<Rightarrow> id \<Rightarrow> string \<Rightarrow> string \<Rightarrow> string \<Rightarrow> int \<Rightarrow> int \<Rightarrow> ('s, 'e, unit) tx" where
  "pay_out post payer payee r k k' back amount =
     andthen (post payer r k back (- amount))
       (onlyif (back < amount) (post payee r k' (amount - back) 0))"

locale credit_journal =
  fixes post :: "id \<Rightarrow> string \<Rightarrow> string \<Rightarrow> int \<Rightarrow> int \<Rightarrow> ('s, 'e, unit) tx"
    and available :: "'s \<Rightarrow> id \<Rightarrow> int"
    and in_escrow :: "'s \<Rightarrow> id \<Rightarrow> int"
    and holds :: "'s \<Rightarrow> id \<Rightarrow> string \<Rightarrow> int"
    and entry :: "'s \<Rightarrow> id \<Rightarrow> string \<Rightarrow> string \<Rightarrow> (int \<times> int) option"
    and wealth :: "'s \<Rightarrow> int"
    and inv :: "'s \<Rightarrow> bool"
  assumes post_inv: "inv s \<Longrightarrow> post u r k a e s = Inr (x, s') \<Longrightarrow> inv s'"
    and post_available: "inv s \<Longrightarrow> post u r k a e s = Inr (x, s') \<Longrightarrow>
          available s' v = available s v + (if v = u then a else 0)"
    and post_escrow: "inv s \<Longrightarrow> post u r k a e s = Inr (x, s') \<Longrightarrow>
          in_escrow s' v = in_escrow s v + (if v = u then e else 0)"
    and post_holds: "post u r k a e s = Inr (x, s') \<Longrightarrow>
          holds s' v r' = holds s v r' + (if v = u \<and> r' = r then e else 0)"
    and post_wealth: "inv s \<Longrightarrow> post u r k a e s = Inr (x, s') \<Longrightarrow> wealth s' = wealth s + a + e"
    and post_new: "post u r k a e s = Inr (x, s') \<Longrightarrow> entry s u r k = None"
    and post_entry: "post u r k a e s = Inr (x, s') \<Longrightarrow>
          entry s' v r' k' = (if v = u \<and> r' = r \<and> k' = k then Some (a, e) else entry s v r' k')"
    and inv_solvent: "inv s \<Longrightarrow> 0 \<le> available s v \<and> 0 \<le> in_escrow s v"
begin

lemmas post_laws = post_inv post_available post_escrow post_holds post_wealth post_entry

lemma keeps_post: "keeps inv (post u r k a e)"
  by (auto simp: keeps_def intro: post_inv)

text \<open>An entry is posted once: the second posting of a key fails.\<close>

lemma post_once:
  assumes "entry s u r k = Some p"
  shows "\<exists>err. post u r k a e s = Inl err"
proof (cases "post u r k a e s")
  case (Inr q)
  then obtain x s' where "post u r k a e s = Inr (x, s')" by (cases q) auto
  from post_new [OF this] assms show ?thesis by simp
qed blast

lemma pay_out_laws:
  assumes i: "inv s" and run: "pay_out post payer payee r k k' back amount s = Inr (x, s')" and le: "back \<le> amount"
  shows "inv s'" and "wealth s' = wealth s"
    and "holds s' payer r = holds s payer r - amount"
    and "in_escrow s' v = in_escrow s v - (if v = payer then amount else 0)"
    and "available s' v = available s v + (if v = payer then back else 0) + (if v = payee then amount - back else 0)"
    and "entry s payer r k = None" and "entry s' payer r k \<noteq> None"
proof -
  from run obtain y s1 where p1: "post payer r k back (- amount) s = Inr (y, s1)"
    and p2: "onlyif (back < amount) (post payee r k' (amount - back) 0) s1 = Inr (x, s')"
    by (auto simp: pay_out_def andthen_run)
  note i1 = post_inv [OF i p1]
  note l1 = post_available [OF i p1] post_escrow [OF i p1] post_holds [OF p1] post_wealth [OF i p1] post_entry [OF p1]
  have all: "inv s' \<and> wealth s' = wealth s \<and> holds s' payer r = holds s payer r - amount
     \<and> in_escrow s' v = in_escrow s v - (if v = payer then amount else 0)
     \<and> available s' v = available s v + (if v = payer then back else 0) + (if v = payee then amount - back else 0)
     \<and> entry s' payer r k \<noteq> None"
  proof (cases "back < amount")
    case True
    with p2 have p: "post payee r k' (amount - back) 0 s1 = Inr (x, s')" by (simp add: onlyif_run)
    show ?thesis
      using post_inv [OF i1 p] l1 post_available [OF i1 p] post_escrow [OF i1 p] post_holds [OF p]
        post_wealth [OF i1 p] post_entry [OF p] by simp
  next
    case False
    with p2 le have "s' = s1" and "back = amount" by (auto simp: onlyif_run)
    then show ?thesis using i1 l1 by simp
  qed
  then show "inv s'" "wealth s' = wealth s" "holds s' payer r = holds s payer r - amount"
    "in_escrow s' v = in_escrow s v - (if v = payer then amount else 0)"
    "available s' v = available s v + (if v = payer then back else 0) + (if v = payee then amount - back else 0)"
    "entry s' payer r k \<noteq> None" by blast+
  show "entry s payer r k = None" using post_new [OF p1] .
qed

text \<open>A payer cannot be paid out of an empty escrow.\<close>

lemma pay_out_needs_escrow:
  assumes "inv s" and "pay_out post payer payee r k k' back amount s = Inr (x, s')" and "back \<le> amount"
  shows "amount \<le> in_escrow s payer"
  using pay_out_laws(1) [OF assms] pay_out_laws(4) [OF assms, of payer] inv_solvent [of s' payer] by auto

end

lemma books_solvent: "books s \<Longrightarrow> 0 \<le> avail s v \<and> 0 \<le> escrowed s v"
  unfolding books_def avail_def escrowed_def creditBalance_def
  by (cases "find (credit_of v) (credit_accounts s)") (auto dest: find_Some_in simp del: split_paired_All)

interpretation cj: credit_journal "changeCredit now" avail escrowed held posted total_credit books for now
proof unfold_locales
qed (simp_all add: books_change avail_change held_change total_credit_change posted_change books_solvent)


section \<open>The operations against the contract\<close>

lemma reserve_laws:
  assumes b: "books s" and run: "reserveCredit now ref buyer recipient t sl fe s = Inr (x, s')"
  shows "t = sl + fe \<and> 0 < sl \<and> 0 \<le> fe" and "books s'" and "total_credit s' = total_credit s"
    and "held s' v r = held s v r + (if v = buyer \<and> r = ref then sl else 0)"
    and "escrowed s' v = escrowed s v + (if v = buyer then sl else 0)"
    and "avail s' v = avail s v - (if v = buyer then t else 0) + (if v = recipient then fe else 0)"
    and "posted s' buyer ref ''purchase'' = Some (- t, sl)"
proof -
  from run obtain y s1 where g: "t = sl + fe" "0 < sl" "0 \<le> fe"
    and p1: "changeCredit now buyer ref ''purchase'' (- t) sl s = Inr (y, s1)"
    and p2: "onlyif (fe \<noteq> 0) (changeCredit now recipient ref ''fee'' fe 0) s1 = Inr (x, s')"
    by (auto simp: reserveCredit_def run_simps)
  show "t = sl + fe \<and> 0 < sl \<and> 0 \<le> fe" using g by simp
  note b1 = cj.post_inv [OF b p1]
  note l1 = avail_change [OF b p1] held_change [OF p1] total_credit_change [OF b p1] posted_change(2) [OF p1]
  have "books s' \<and> total_credit s' = total_credit s
     \<and> held s' v r = held s v r + (if v = buyer \<and> r = ref then sl else 0)
     \<and> escrowed s' v = escrowed s v + (if v = buyer then sl else 0)
     \<and> avail s' v = avail s v - (if v = buyer then t else 0) + (if v = recipient then fe else 0)
     \<and> posted s' buyer ref ''purchase'' = Some (- t, sl)"
  proof (cases "fe = 0")
    case True with p2 g b1 l1 show ?thesis by (simp add: onlyif_run)
  next
    case False
    with p2 have p: "changeCredit now recipient ref ''fee'' fe 0 s1 = Inr (x, s')" by (simp add: onlyif_run)
    show ?thesis
      using g l1 cj.post_inv [OF b1 p] avail_change [OF b1 p] held_change [OF p] total_credit_change [OF b1 p]
        posted_change(2) [OF p] by simp
  qed
  then show "books s'" "total_credit s' = total_credit s"
    "held s' v r = held s v r + (if v = buyer \<and> r = ref then sl else 0)"
    "escrowed s' v = escrowed s v + (if v = buyer then sl else 0)"
    "avail s' v = avail s v - (if v = buyer then t else 0) + (if v = recipient then fe else 0)"
    "posted s' buyer ref ''purchase'' = Some (- t, sl)" by blast+
qed

lemma settleCredit_run:
  "settleCredit now tid buyer seller amount back s = Inr p \<longleftrightarrow>
     safe_int back \<and> 0 \<le> back \<and> back \<le> to_minor amount \<and>
     (\<exists>a. posted s buyer tid ''purchase'' = Some (a, to_minor amount)) \<and>
     pay_out (changeCredit now) buyer seller tid ''settlement'' ''sale'' back (to_minor amount) s = Inr p"
proof (cases "find (\<lambda>e. ce_user_id e = buyer \<and> ce_reference e = tid \<and> ce_kind e = ''purchase'') (credit_entries s)")
  case None
  then show ?thesis by (simp add: settleCredit_def bnd_run andthen_run posted_def Let_def)
next
  case (Some l)
  then show ?thesis by (auto simp: settleCredit_def bnd_run andthen_run posted_def pay_out_def Let_def)
qed


lemma same_pay_out:
  "(\<And>u r k a e. same v (post u r k a e)) \<Longrightarrow> same v (pay_out post payer payee r k k' back amount)"
  unfolding pay_out_def by (intro same_intros) auto

lemma same_reserveCredit: "same beside_credit (reserveCredit now ref buyer recipient t sl fe)"
  unfolding reserveCredit_def by (intro same_intros same_changeCredit)

lemma same_settleCredit: "same beside_credit (settleCredit now tid buyer seller amount back)"
  unfolding settleCredit_def by (intro same_intros same_changeCredit)

text \<open>
  A posting either fails without a trace or moves exactly the named user's
  balance: it is refused (402) when it would take a balance below zero, refused
  by the unique index when its key was already posted, and otherwise adds both
  amounts, records the entry and leaves every other account as it was.
\<close>

theorem changeCredit_spec:
  assumes "books s" and "safe_int a" and "safe_int e"
  shows "case changeCredit now u r k a e s of
      Inl err \<Rightarrow> if avail s u + a < 0 \<or> escrowed s u + e < 0
        then err = CreditError ''INSUFFICIENT_CREDIT'' 402
        else posted s u r k \<noteq> None \<and> err = SqlError ''UNIQUE credit_entries''
    | Inr (_, s') \<Rightarrow> 0 \<le> avail s u + a \<and> 0 \<le> escrowed s u + e \<and> posted s u r k = None
        \<and> (\<forall>v. avail s' v = avail s v + (if v = u then a else 0))
        \<and> (\<forall>v. escrowed s' v = escrowed s v + (if v = u then e else 0))
        \<and> posted s' u r k = Some (a, e) \<and> books s'"
proof (cases "changeCredit now u r k a e s")
  case (Inr p)
  then obtain x s' where p: "changeCredit now u r k a e s = Inr (x, s')" by (cases p) auto
  have "0 \<le> avail s' u" "0 \<le> escrowed s' u" using books_solvent [OF books_change [OF assms(1) p]] by auto
  with p avail_change [OF assms(1) p] posted_change [OF p] books_change [OF assms(1) p] show ?thesis by simp
next
  case (Inl err)
  let ?as = "with_account u (credit_accounts s)"
  let ?ok = "\<lambda>x. ca_user_id x = u \<and> 0 \<le> ca_available_minor x + a \<and> 0 \<le> ca_escrow_minor x + e"
  have "find (credit_of u) ?as \<noteq> None"
    by (auto simp: with_account_def find_None_iff list_ex_iff)
  then obtain y where y: "find (credit_of u) ?as = Some y" by blast
  have bal: "avail s u = ca_available_minor y" "escrowed s u = ca_escrow_minor y"
    using y by (auto simp: avail_def escrowed_def creditBalance_def find_with_account split: option.splits if_splits)
  have ex: "(\<exists>x \<in> set ?as. ?ok x) \<longleftrightarrow> ?ok y"
  proof -
    have d: "distinct (map ca_user_id ?as)" using assms(1) by (simp add: books_def distinct_with_account)
    have "x = y" if "x \<in> set ?as" and "ca_user_id x = u" for x
      using find_Some_in [OF y] unique_key_eq [OF d that(1), of y] that by simp
    with find_Some_in [OF y] show ?thesis by blast
  qed
  have "ca_user_id y = u" using find_Some_in [OF y] by simp
  with ex bal have ok: "(\<exists>x \<in> set ?as. ?ok x) \<longleftrightarrow> 0 \<le> avail s u + a \<and> 0 \<le> escrowed s u + e" by simp
  have new: "list_ex (\<lambda>y. ce_user_id y = u \<and> ce_reference y = r \<and> ce_kind y = k) (credit_entries s)
      \<longleftrightarrow> posted s u r k \<noteq> None"
    by (auto simp: posted_def list_ex_iff find_None_iff)
  show ?thesis using Inl assms(2,3) unfolding changeCredit_eval ok new by (auto split: if_splits)
qed


lemma keeps_books_change [keeps_intros]: "keeps books (changeCredit now u r k a e)"
  by (rule cj.keeps_post)


lemma books_beside:
  assumes "\<And>s. credit_accounts (u s) = credit_accounts s" and "\<And>s. credit_entries (u s) = credit_entries s"
  shows "books (u s) = books s"
  by (simp add: books_def avail_def escrowed_def creditBalance_def assms)






lemma reserve_then_settle_parts:
  assumes "books s" and reserve: "reserveCredit now ref buyer recipient t sl fe s = Inr (x, s1)"
    and settle: "settleCredit later ref buyer seller amount back s1 = Inr (y, s2)"
  shows "to_minor amount = sl" and "total_credit s2 = total_credit s" and "held s2 buyer ref = held s buyer ref"
    and "avail s2 v = avail s v - (if v = buyer then sl + fe - back else 0)
           + (if v = seller then sl - back else 0) + (if v = recipient then fe else 0)"
    and "escrowed s2 v = escrowed s v"
    and "\<exists>err. settleCredit again ref buyer seller amount back' s2 = Inl err"
proof -
  note r = reserve_laws [OF assms(1) reserve]
  from settle have g: "back \<le> to_minor amount"
    and pur: "\<exists>a. posted s1 buyer ref ''purchase'' = Some (a, to_minor amount)"
    and pay: "pay_out (changeCredit later) buyer seller ref ''settlement'' ''sale'' back (to_minor amount) s1 = Inr (y, s2)"
    by (auto simp: settleCredit_run)
  show sl: "to_minor amount = sl" using pur r(7) by simp
  note p = cj.pay_out_laws [OF r(2) pay g, unfolded sl]
  show "total_credit s2 = total_credit s" using p(2) r(3) by simp
  show "held s2 buyer ref = held s buyer ref" using p(3) r(4) by simp
  show "avail s2 v = avail s v - (if v = buyer then sl + fe - back else 0)
           + (if v = seller then sl - back else 0) + (if v = recipient then fe else 0)"
    using p(5) [of v] r(6) [of v] r(1) by simp
  show "escrowed s2 v = escrowed s v" using p(4) [of v] r(5) [of v] by simp
  show "\<exists>err. settleCredit again ref buyer seller amount back' s2 = Inl err"
  proof (cases "settleCredit again ref buyer seller amount back' s2")
    case (Inr q)
    then obtain z s3 where q: "settleCredit again ref buyer seller amount back' s2 = Inr (z, s3)" by (cases q) auto
    then have pay3: "pay_out (changeCredit again) buyer seller ref ''settlement'' ''sale'' back' (to_minor amount) s2 = Inr (z, s3)"
      and le: "back' \<le> to_minor amount" by (auto simp: settleCredit_run)
    show ?thesis using cj.pay_out_laws(6) [OF p(1) pay3 le] p(7) by simp
  qed blast
qed

text \<open>
  C1. A credit purchase from reservation to settlement creates and destroys
  nothing: the buyer is charged the total less what comes back, the seller and
  the fee recipient receive exactly the rest, the obligation holds no more in
  escrow than before, and it cannot be settled a second time.
\<close>

theorem reserve_then_settle:
  assumes "books s" and "reserveCredit now ref buyer recipient t sl fe s = Inr (x, s1)"
    and "settleCredit later ref buyer seller amount back s1 = Inr (y, s2)"
  shows "to_minor amount = sl \<and> total_credit s2 = total_credit s \<and> held s2 buyer ref = held s buyer ref
    \<and> (\<forall>v. avail s2 v = avail s v - (if v = buyer then sl + fe - back else 0)
           + (if v = seller then sl - back else 0) + (if v = recipient then fe else 0))
    \<and> (\<forall>v. escrowed s2 v = escrowed s v)
    \<and> (\<exists>err. settleCredit again ref buyer seller amount back' s2 = Inl err)"
  using reserve_then_settle_parts [OF assms] by blast

text \<open>A buyer with 10.50 of deposited credit.\<close>

definition funded_db :: db where
  "funded_db = empty_db\<lparr>
     credit_accounts := [\<lparr>ca_user_id = ''buyer'', ca_available_minor = 1050, ca_escrow_minor = 0\<rparr>],
     credit_entries := [\<lparr>ce_user_id = ''buyer'', ce_reference = ''deposit-1'', ce_kind = ''deposit'',
       ce_available_delta = 1050, ce_escrow_delta = 0, ce_created_at = 0\<rparr>]\<rparr>"

lemma books_funded: "books funded_db"
  by (auto simp: books_def funded_db_def empty_db_def avail_def escrowed_def creditBalance_def)

lemma changeCredit_spec_witness:
  "case changeCredit 7 ''buyer'' ''t1'' ''purchase'' (- 1050) 1000 funded_db of
      Inl err \<Rightarrow> False | Inr (_, s') \<Rightarrow> avail s' ''buyer'' = 0 \<and> escrowed s' ''buyer'' = 1000"
proof -
  have safe: "safe_int (- 1050)" "safe_int 1000" by (simp_all add: safe_int_def)
  show ?thesis using changeCredit_spec [OF books_funded safe, where now = 7 and u = "''buyer''" and r = "''t1''"
        and k = "''purchase''"]
    by (auto simp: funded_db_def empty_db_def avail_def escrowed_def creditBalance_def posted_def
        split: sum.splits if_splits)
qed


lemmas eval_credit = reserveCredit_def settleCredit_def changeCredit_eval eval_tx eval_table with_account_def
  bump_account_def safe_int_def

lemma reserve_then_settle_witness:
  "\<exists>s1 s2. reserveCredit 0 ''t1'' ''buyer'' ''fees'' 1050 1000 50 funded_db = Inr ((), s1)
     \<and> settleCredit 9 ''t1'' ''buyer'' ''seller'' 10 0 s1 = Inr ((), s2)
     \<and> avail s2 ''seller'' = 1000 \<and> avail s2 ''fees'' = 50 \<and> avail s2 ''buyer'' = 0
     \<and> total_credit s2 = 1050"
proof -
  have m: "to_minor 10 = 1000" using to_minor_numeral by simp
  have "\<exists>s1 s2. reserveCredit 0 ''t1'' ''buyer'' ''fees'' 1050 1000 50 funded_db = Inr ((), s1)
     \<and> settleCredit 9 ''t1'' ''buyer'' ''seller'' 10 0 s1 = Inr ((), s2)"
    by (simp add: eval_credit funded_db_def empty_db_def m)
  then obtain s1 s2 where r: "reserveCredit 0 ''t1'' ''buyer'' ''fees'' 1050 1000 50 funded_db = Inr ((), s1)"
    and q: "settleCredit 9 ''t1'' ''buyer'' ''seller'' 10 0 s1 = Inr ((), s2)" by blast
  have "avail funded_db ''buyer'' = 1050" "avail funded_db ''seller'' = 0" "avail funded_db ''fees'' = 0"
    "total_credit funded_db = 1050"
    by (simp_all add: funded_db_def empty_db_def avail_def creditBalance_def total_credit_def)
  with r q reserve_then_settle [OF books_funded r q] show ?thesis by auto
qed

text \<open>Every transfer in has its transfer out: \<open>fundOwnedAgent\<close> posts them together.\<close>

definition transfers_paired :: "db \<Rightarrow> bool" where
  "transfers_paired s \<longleftrightarrow> (\<forall>i \<in> set (credit_entries s). ce_kind i = ''transfer_in'' \<longrightarrow>
     (\<exists>t \<in> set (credit_entries s). ce_reference t = ce_reference i \<and> ce_kind t = ''transfer_out''))"

definition owns_agent :: "db \<Rightarrow> id \<Rightarrow> id \<Rightarrow> bool" where
  "owns_agent s userId agentId \<longleftrightarrow> find (\<lambda>o'. ao_agent_id o' = agentId \<and> ao_user_id o' = userId \<and>
     (\<exists>g \<in> set (agents s). ag_id g = agentId \<and> ag_archived_at g = None)) (agent_owners s) \<noteq> None"

abbreviation first_entry :: "db \<Rightarrow> string \<Rightarrow> string \<Rightarrow> credit_entry option" where
  "first_entry s r k \<equiv> find (\<lambda>e. ce_reference e = r \<and> ce_kind e = k) (credit_entries s)"

lemma fundOwnedAgent_run:
  "fundOwnedAgent now userId agentId minor cref s = Inr (p, s') \<longleftrightarrow>
    (let target = ''user_agent_'' @ agentId; r = ''agent-funding:'' @ userId @ '':'' @ cref in
     owns_agent s userId agentId \<and> p = (fst p, creditBalance s' target) \<and>
     (if first_entry s r ''transfer_out'' = None
      then \<not> fst p \<and> (\<exists>s1. changeCredit now userId r ''transfer_out'' (- minor) 0 s = Inr ((), s1)
              \<and> changeCredit now target r ''transfer_in'' minor 0 s1 = Inr ((), s'))
      else fst p \<and> s' = s \<and> (\<exists>t i. first_entry s r ''transfer_out'' = Some t \<and> ce_user_id t = userId
              \<and> ce_available_delta t = - minor
              \<and> first_entry s r ''transfer_in'' = Some i \<and> ce_user_id i = target)))"
proof (cases "first_entry s (''agent-funding:'' @ userId @ '':'' @ cref) ''transfer_out''")
  case None
  then show ?thesis
    by (cases p) (auto simp: fundOwnedAgent_def bnd_run andthen_run owns_agent_def Let_def split: option.splits)
next
  case (Some t)
  then show ?thesis
    by (cases p) (auto simp: fundOwnedAgent_def bnd_run andthen_run owns_agent_def Let_def split: option.splits)
qed

lemma owns_agent_change:
  "changeCredit now u r k a e s = Inr (x, s') \<Longrightarrow> owns_agent s' userId agentId = owns_agent s userId agentId"
  by (auto simp: changeCredit_run owns_agent_def)

lemma transfers_paired_change:
  assumes "transfers_paired s" and "changeCredit now u r k a e s = Inr (x, s')"
    and "k = ''transfer_in'' \<Longrightarrow> first_entry s r ''transfer_out'' \<noteq> None"
  shows "transfers_paired s'"
proof -
  have "\<exists>t \<in> set (credit_entries s). ce_reference t = r \<and> ce_kind t = ''transfer_out''" if "k = ''transfer_in''"
    using assms(3) [OF that] by (auto simp: find_None_iff)
  with assms(1) show ?thesis
    by (auto simp: transfers_paired_def credit_entries_change [OF assms(2)])
qed

text \<open>A top-up that moved money, and what a repetition of it reads.\<close>

lemma transfer_posts:
  assumes "books s" and "transfers_paired s" and new: "first_entry s r ''transfer_out'' = None"
    and p1: "changeCredit now u r ''transfer_out'' (- minor) 0 s = Inr (x, s1)"
    and p2: "changeCredit now v r ''transfer_in'' minor 0 s1 = Inr (y, s')"
  shows "transfers_paired s'" and "total_credit s' = total_credit s"
    and "avail s' w = avail s w - (if w = u then minor else 0) + (if w = v then minor else 0)"
    and "\<exists>t. first_entry s' r ''transfer_out'' = Some t \<and> ce_user_id t = u \<and> ce_available_delta t = - minor"
    and "\<exists>i. first_entry s' r ''transfer_in'' = Some i \<and> ce_user_id i = v"
proof -
  note b1 = books_change [OF assms(1) p1]
  have no_in: "first_entry s r ''transfer_in'' = None"
    using assms(2) new by (auto simp: transfers_paired_def find_None_iff)
  have out1: "first_entry s1 r ''transfer_out'' \<noteq> None"
    by (simp add: credit_entries_change [OF p1] find_append split: option.splits)
  have "transfers_paired s1" by (rule transfers_paired_change [OF assms(2) p1]) simp
  then show "transfers_paired s'" by (rule transfers_paired_change [OF _ p2]) (rule out1)
  show "total_credit s' = total_credit s"
    using total_credit_change [OF assms(1) p1] total_credit_change [OF b1 p2] by simp
  show "avail s' w = avail s w - (if w = u then minor else 0) + (if w = v then minor else 0)"
    using avail_change(1) [OF assms(1) p1] avail_change(1) [OF b1 p2] by simp
  show "\<exists>t. first_entry s' r ''transfer_out'' = Some t \<and> ce_user_id t = u \<and> ce_available_delta t = - minor"
    using new by (simp add: credit_entries_change [OF p2] credit_entries_change [OF p1] find_append)
  show "\<exists>i. first_entry s' r ''transfer_in'' = Some i \<and> ce_user_id i = v"
    using no_in by (simp add: credit_entries_change [OF p2] credit_entries_change [OF p1] find_append)
qed

text \<open>
  C34. An owner's top-up of an agent is a transfer made once: it moves exactly the
  amount from the owner to the agent's account, and the same request again
  answers as a replay with the same balance and changes nothing.
\<close>

theorem fundOwnedAgent_transfers_once:
  assumes "books s" and "transfers_paired s"
    and "fundOwnedAgent now userId agentId minor cref s = Inr ((replay, b), s')"
  shows "transfers_paired s' \<and> b = creditBalance s' (''user_agent_'' @ agentId)
    \<and> (if replay then s' = s
       else total_credit s' = total_credit s
          \<and> (\<forall>v. avail s' v = avail s v - (if v = userId then minor else 0)
                + (if v = ''user_agent_'' @ agentId then minor else 0)))
    \<and> fundOwnedAgent later userId agentId minor cref s' = Inr ((True, b), s')"
proof -
  let ?r = "''agent-funding:'' @ userId @ '':'' @ cref" and ?to = "''user_agent_'' @ agentId"
  show ?thesis
  proof (cases "first_entry s ?r ''transfer_out''")
    case (Some t)
    with assms show ?thesis by (auto simp: fundOwnedAgent_run Let_def)
  next
    case None
    with assms(3) obtain s1 where g: "\<not> replay" "b = creditBalance s' ?to" "owns_agent s userId agentId"
      and p1: "changeCredit now userId ?r ''transfer_out'' (- minor) 0 s = Inr ((), s1)"
      and p2: "changeCredit now ?to ?r ''transfer_in'' minor 0 s1 = Inr ((), s')"
      by (auto simp: fundOwnedAgent_run Let_def)
    note q = transfer_posts [OF assms(1,2) None p1 p2]
    have "owns_agent s' userId agentId"
      using owns_agent_change [OF p1] owns_agent_change [OF p2] g(3) by simp
    then have "fundOwnedAgent later userId agentId minor cref s' = Inr ((True, b), s')"
      using q(4,5) g(2) unfolding fundOwnedAgent_run Let_def by auto
    with q(1-3) g show ?thesis by simp
  qed
qed

definition owner_db :: db where
  "owner_db = funded_db\<lparr>
     agents := [\<lparr>ag_id = ''a1'', ag_owner_address = None, ag_active = True, ag_public = True, ag_archived_at = None\<rparr>],
     agent_owners := [\<lparr>ao_agent_id = ''a1'', ao_user_id = ''buyer''\<rparr>]\<rparr>"

lemma fundOwnedAgent_transfers_once_witness:
  "\<exists>s' b. fundOwnedAgent 5 ''buyer'' ''a1'' 300 ''x'' owner_db = Inr ((False, b), s') \<and> avail s' ''buyer'' = 750
     \<and> fundOwnedAgent 6 ''buyer'' ''a1'' 300 ''x'' s' = Inr ((True, b), s')"
proof -
  have "books owner_db" unfolding owner_db_def by (subst books_beside) (simp_all add: books_beside books_funded)
  moreover have "transfers_paired owner_db"
    by (simp add: transfers_paired_def owner_db_def funded_db_def)
  moreover have "\<exists>s' b. fundOwnedAgent 5 ''buyer'' ''a1'' 300 ''x'' owner_db = Inr ((False, b), s')"
    by (simp add: fundOwnedAgent_def eval_credit owner_db_def funded_db_def empty_db_def Let_def)
  moreover have "avail owner_db ''buyer'' = 1050"
    by (simp add: owner_db_def funded_db_def avail_def creditBalance_def)
  ultimately show ?thesis using fundOwnedAgent_transfers_once by fastforce
qed

section \<open>Deposits credit once\<close>

text \<open>Deposit ids are distinct, and a confirmed deposit was posted to its user, in full.\<close>

definition deposits_ok :: "db \<Rightarrow> bool" where
  "deposits_ok s \<longleftrightarrow> distinct (map cd_id (credit_deposits s)) \<and>
     (\<forall>d \<in> set (credit_deposits s). cd_state d = Deposit_confirmed \<longrightarrow>
        posted s (cd_user_id d) (cd_id d) ''deposit'' = Some (cd_amount_minor d, 0) \<and> cd_tx_hash d \<noteq> None)"

lemma deposit_eq:
  "deposits_ok s \<Longrightarrow> d \<in> set (credit_deposits s) \<Longrightarrow> e \<in> set (credit_deposits s) \<Longrightarrow> cd_id d = cd_id e \<Longrightarrow> d = e"
  by (auto simp: deposits_ok_def intro: unique_key_eq)

lemma find_deposit:
  "deposits_ok s \<Longrightarrow> d \<in> set (credit_deposits s) \<Longrightarrow> find (\<lambda>e. cd_id e = cd_id d) (credit_deposits s) = Some d"
  by (rule find_unique) (auto simp: deposits_ok_def)

lemma claimHash_run:
  assumes "deposits_ok s" and "d \<in> set (credit_deposits s)" and "cd_state d = Deposit_pending"
    and "claimHash d hash signature s = Inr s1"
  shows "deposits_ok s1" and "books s1 = books s" and "avail s1 = avail s" and "posted s1 = posted s"
    and "cd_tx_hash d = None \<or> cd_tx_hash d = Some hash \<Longrightarrow>
           d\<lparr>cd_tx_hash := Some hash, cd_payer_signature := Some signature\<rparr> \<in> set (credit_deposits s1)"
proof -
  have s1: "s1 = s\<lparr>credit_deposits := set_rows
      (\<lambda>e. cd_id e = cd_id d \<and> (cd_tx_hash e = None \<or> cd_tx_hash e = Some hash))
      (\<lambda>e. e\<lparr>cd_tx_hash := Some hash, cd_payer_signature := Some signature\<rparr>) (credit_deposits s)\<rparr>"
    using assms(4) by (auto simp: claimHash_def split: if_splits)
  have same: "cd_id e = cd_id d \<Longrightarrow> e \<in> set (credit_deposits s) \<Longrightarrow> e = d" for e
    using deposit_eq [OF assms(1)] assms(2) by blast
  show "deposits_ok s1" using assms(1,3) same by (auto simp: deposits_ok_def s1 set_set_rows posted_def)
  show "books s1 = books s" unfolding s1 by (rule books_beside) simp_all
  show "avail s1 = avail s" by (simp add: s1 avail_def creditBalance_def fun_eq_iff)
  show "posted s1 = posted s" by (simp add: s1 posted_def fun_eq_iff)
  assume "cd_tx_hash d = None \<or> cd_tx_hash d = Some hash"
  with assms(2) show "d\<lparr>cd_tx_hash := Some hash, cd_payer_signature := Some signature\<rparr> \<in> set (credit_deposits s1)"
    by (auto simp: s1 set_set_rows image_iff intro!: bexI [of _ d])
qed

lemma commitDeposit_run:
  assumes "books s" and "deposits_ok s" and d: "d \<in> set (credit_deposits s)" "cd_state d = Deposit_pending"
      "cd_tx_hash d \<noteq> None"
    and run: "commitDeposit now (cd_user_id d) d hash tokens s = Inr (e, s')"
  shows "books s'" and "deposits_ok s'" and "e = d\<lparr>cd_state := Deposit_confirmed\<rparr>"
    and "posted s (cd_user_id d) (cd_id d) ''deposit'' = None"
    and "e \<in> set (credit_deposits s')"
    and "avail s' v = avail s v + (if v = cd_user_id d then cd_amount_minor d else 0)"
proof -
  let ?p = "\<lambda>x. cd_id x = cd_id d \<and> cd_state x = Deposit_pending" and ?f = "\<lambda>x. x\<lparr>cd_state := Deposit_confirmed\<rparr>"
  have "find (\<lambda>x. cd_id x = cd_id d) (credit_deposits s) = Some d" by (rule find_deposit [OF assms(2) d(1)])
  with run d(2) obtain r s2 y where
      p: "changeCredit (now div 1000) (cd_user_id d) (cd_id d) ''deposit'' (cd_amount_minor d) 0
            (s\<lparr>payment_receipts := r\<rparr>) = Inr (y, s2)"
    and s': "s' = s2\<lparr>credit_deposits := set_rows ?p ?f (credit_deposits s2)\<rparr>"
    and e: "filter ?p (credit_deposits s2) \<noteq> []" "e = hd (map ?f (filter ?p (credit_deposits s2)))"
    by (auto simp: commitDeposit_def bnd_run andthen_run)
  have ds: "credit_deposits s2 = credit_deposits s" using p by (auto simp: changeCredit_run)
  have same: "cd_id x = cd_id d \<Longrightarrow> x \<in> set (credit_deposits s) \<Longrightarrow> x = d" for x
    using deposit_eq [OF assms(2)] d(1) by blast
  have b: "books (s\<lparr>payment_receipts := r\<rparr>)" using assms(1) by (subst books_beside) simp_all
  have "books s' = books s2" unfolding s' by (rule books_beside) simp_all
  with books_change [OF b p] show "books s'" by simp
  have "set (filter ?p (credit_deposits s)) \<subseteq> {d}" using same by auto
  moreover have "hd (filter ?p (credit_deposits s)) \<in> set (filter ?p (credit_deposits s))"
    using e(1) unfolding ds by (rule hd_in_set)
  moreover have "e = ?f (hd (filter ?p (credit_deposits s)))" using e(2) hd_map [OF e(1), of ?f] unfolding ds by (rule trans)
  ultimately show e': "e = ?f d" by auto
  show "e \<in> set (credit_deposits s')"
    using d unfolding s' ds e' by (auto simp: set_set_rows image_iff intro!: bexI [of _ d])
  have a: "avail s' v = avail s2 v" for v by (simp add: s' avail_def creditBalance_def)
  have a0: "avail (s\<lparr>payment_receipts := r\<rparr>) v = avail s v" for v by (simp add: avail_def creditBalance_def)
  show "avail s' v = avail s v + (if v = cd_user_id d then cd_amount_minor d else 0)"
    using avail_change(1) [OF b p, of v] by (simp only: a a0)
  have q: "posted s' u r' k = (if u = cd_user_id d \<and> r' = cd_id d \<and> k = ''deposit''
       then Some (cd_amount_minor d, 0) else posted s u r' k)" for u r' k
    using posted_change(2) [OF p, of u r' k] by (simp add: s' posted_def)
  show "posted s (cd_user_id d) (cd_id d) ''deposit'' = None"
    using posted_change(1) [OF p] by (simp add: posted_def)
  show "deposits_ok s'"
  proof -
    have st: "x \<in> set (credit_deposits s') \<Longrightarrow> x = ?f d \<or> x \<in> set (credit_deposits s) \<and> cd_id x \<noteq> cd_id d
        \<or> x \<in> set (credit_deposits s) \<and> cd_state x \<noteq> Deposit_pending \<and> x = d" for x
      using same by (auto simp: s' ds set_set_rows)
    have "distinct (map cd_id (credit_deposits s'))" using assms(2) by (simp add: deposits_ok_def s' ds)
    moreover have "posted s' (cd_user_id x) (cd_id x) ''deposit'' = Some (cd_amount_minor x, 0) \<and> cd_tx_hash x \<noteq> None"
      if "x \<in> set (credit_deposits s')" "cd_state x = Deposit_confirmed" for x
      using st [OF that(1)] that(2) d assms(2) by (auto simp: q deposits_ok_def)
    ultimately show ?thesis by (simp add: deposits_ok_def)
  qed
qed

lemma find_owned_deposit:
  "deposits_ok s \<Longrightarrow> d \<in> set (credit_deposits s) \<Longrightarrow>
   find (\<lambda>e. cd_id e = cd_id d \<and> cd_user_id e = cd_user_id d) (credit_deposits s) = Some d"
  using deposit_eq [of s d] find_Some_in [of _ "credit_deposits s"]
  by (cases "find (\<lambda>e. cd_id e = cd_id d \<and> cd_user_id e = cd_user_id d) (credit_deposits s)")
     (fastforce simp: find_None_iff)+

text \<open>Once the row is confirmed with this hash, a confirmation is a read.\<close>

lemma confirm_again:
  assumes "deposits_ok s" and "d \<in> set (credit_deposits s)" and "cd_state d = Deposit_confirmed"
    and "cd_tx_hash d = Some (lower tx)"
  shows "confirmDeposit net later (cd_user_id d) (cd_id d) tx sg s = (Inr d, s)"
  using assms(3,4) find_owned_deposit [OF assms(1,2)] by (simp add: confirmDeposit_def)

lemma confirm_pending:
  assumes b: "books s" and ok: "deposits_ok s" and d: "d \<in> set (credit_deposits s)" "cd_state d = Deposit_pending"
    and run: "confirmDeposit net now (cd_user_id d) (cd_id d) tx sg s = (answer, s')"
  shows "case answer of
      Inl _ \<Rightarrow> books s' \<and> deposits_ok s' \<and> avail s' = avail s
    | Inr e \<Rightarrow> \<exists>s1 d1 tokens. commitDeposit now (cd_user_id d1) d1 (lower tx) tokens s1 = Inr (e, s')
        \<and> books s1 \<and> deposits_ok s1 \<and> avail s1 = avail s \<and> posted s1 = posted s \<and> d1 \<in> set (credit_deposits s1)
        \<and> cd_state d1 = Deposit_pending \<and> cd_tx_hash d1 = Some (lower tx)
        \<and> cd_user_id d1 = cd_user_id d \<and> cd_id d1 = cd_id d \<and> cd_amount_minor d1 = cd_amount_minor d"
proof (cases "cd_tx_hash d = None \<or> cd_tx_hash d = Some (lower tx)")
  case False
  with run b ok find_owned_deposit [OF ok d(1)] show ?thesis by (auto simp: confirmDeposit_def)
next
  case hash: True
  show ?thesis
  proof (cases "claimHash d (lower tx) sg s")
    case (Inl e)
    with run b ok find_owned_deposit [OF ok d(1)] hash d(2) show ?thesis
      by (auto simp: confirmDeposit_def Let_def split: if_splits)
  next
    case (Inr s1)
    let ?d = "d\<lparr>cd_tx_hash := Some (lower tx), cd_payer_signature := Some sg\<rparr>"
    note c = claimHash_run [OF ok d Inr]
    note m = c(5) [OF hash]
    have f: "find (\<lambda>x. cd_id x = cd_id d) (credit_deposits s1) = Some ?d"
      using find_deposit [OF c(1) m] by simp
    note mine = find_owned_deposit [OF ok d(1)]
    show ?thesis
    proof (cases answer)
      case (Inl e)
      with run hash d(2) mine Inr f b ok c show ?thesis
        by (auto simp: confirmDeposit_def Let_def transaction_def split: if_splits sum.splits)
    next
      case (Inr e)
      with run hash d(2) mine \<open>claimHash d (lower tx) sg s = Inr s1\<close> f obtain tokens where
          "commitDeposit now (cd_user_id d) ?d (lower tx) tokens s1 = Inr (e, s')"
        by (auto simp: confirmDeposit_def Let_def transaction_def split: if_splits sum.splits)
      with Inr b c m d(2) show ?thesis by (auto intro!: exI [of _ s1] exI [of _ ?d] exI [of _ tokens])
    qed
  qed
qed

text \<open>
  C2. A deposit is credited once.  Confirming one keeps the books and the record
  of which deposits were posted; an error changes no balance; a deposit that
  was pending raises exactly its user's balance by exactly its amount; and from
  then on confirming it with its hash answers the same row and changes nothing.
\<close>

theorem confirmDeposit_credits_once:
  assumes b: "books s" and ok: "deposits_ok s"
    and run: "confirmDeposit net now u dep tx sg s = (answer, s')"
  shows "books s' \<and> deposits_ok s' \<and>
     (case answer of
        Inl _ \<Rightarrow> \<forall>v. avail s' v = avail s v
      | Inr d \<Rightarrow> cd_state d = Deposit_confirmed \<and> cd_id d = dep \<and> cd_user_id d = u
          \<and> (\<forall>v. avail s' v = avail s v + (if v = u \<and> s' \<noteq> s then cd_amount_minor d else 0))
          \<and> (s' \<noteq> s \<longrightarrow> posted s u dep ''deposit'' = None)
          \<and> (\<forall>later sg'. confirmDeposit net later u dep tx sg' s' = (Inr d, s')))"
proof (cases "find (\<lambda>d. cd_id d = dep \<and> cd_user_id d = u) (credit_deposits s)")
  case None
  with run b ok show ?thesis by (auto simp: confirmDeposit_def)
next
  case (Some d)
  then have d: "d \<in> set (credit_deposits s)" "dep = cd_id d" "u = cd_user_id d" by (auto dest: find_Some_in)
  show ?thesis
  proof (cases "cd_state d")
    case Deposit_confirmed
    with run b ok d Some show ?thesis
      by (auto simp: confirmDeposit_def Let_def confirm_again deposits_ok_def split: if_splits)
  next
    case Deposit_pending
    note p = confirm_pending [OF b ok d(1) Deposit_pending run [unfolded d(2,3)]]
    show ?thesis
    proof (cases answer)
      case (Inl e) with p show ?thesis by simp
    next
      case (Inr e)
      with p obtain s1 d1 tokens where c: "commitDeposit now (cd_user_id d1) d1 (lower tx) tokens s1 = Inr (e, s')"
        and s1: "books s1" "deposits_ok s1" "d1 \<in> set (credit_deposits s1)" "cd_state d1 = Deposit_pending"
        and d1: "cd_tx_hash d1 = Some (lower tx)" "cd_user_id d1 = u" "cd_id d1 = dep"
          "cd_amount_minor d1 = cd_amount_minor d" and eq: "avail s1 = avail s" "posted s1 = posted s"
        by (auto simp: d)
      have "cd_tx_hash d1 \<noteq> None" using d1 by simp
      note r = commitDeposit_run [OF s1 this c]
      have e: "cd_state e = Deposit_confirmed" "cd_tx_hash e = Some (lower tx)" "cd_id e = dep" "cd_user_id e = u"
        "cd_amount_minor e = cd_amount_minor d1" using r(3) d1 by auto
      have "s' \<noteq> s" using deposit_eq [OF ok, of e d] r(5) d e(1,3) Deposit_pending by auto
      moreover have "confirmDeposit net later u dep tx sg' s' = (Inr e, s')" for later sg'
        using confirm_again [OF r(2,5) e(1,2)] e by simp
      ultimately show ?thesis using Inr r(1,2,4) r(6) d1 e by (simp add: eq)
    qed
  qed
qed

definition deposit_1 :: credit_deposit where
  "deposit_1 = \<lparr>cd_id = ''d1'', cd_user_id = ''buyer'', cd_client_reference = ''ref'', cd_amount_minor = 2500,
     cd_payer = ''0xab'', cd_treasury = ''0xcd'', cd_token = ''0xef'', cd_chain_id = 8453, cd_tx_hash = None,
     cd_payer_signature = None, cd_state = Deposit_pending, cd_created_at = 0, cd_expires_at = 1800\<rparr>"

text \<open>A network on which every transfer pays what its deposit asks.\<close>

definition paying_network :: network where
  "paying_network = \<lparr>net_token = Some (''0xef'', 8453), net_treasury = ''0xcd'', net_rpc = True, net_chain_id = 8453,
     net_payer_is_contract = (\<lambda>_. False), net_signature_ok = (\<lambda>_ _ _. True),
     net_payment = (\<lambda>d _. Inr (cd_amount_minor d * 10000)), net_canonical = (\<lambda>_ _. True)\<rparr>"

lemma confirmDeposit_credits_once_witness:
  "\<exists>s' d. confirmDeposit paying_network 60000 ''buyer'' ''d1'' ''0xTX'' ''sig'' (funded_db\<lparr>credit_deposits := [deposit_1]\<rparr>)
      = (Inr d, s') \<and> avail s' ''buyer'' = 3550
      \<and> confirmDeposit paying_network 70000 ''buyer'' ''d1'' ''0xTX'' ''sig'' s' = (Inr d, s')"
proof -
  let ?s = "funded_db\<lparr>credit_deposits := [deposit_1]\<rparr>"
  have b: "books ?s" by (subst books_beside) (simp_all add: books_funded)
  have ok: "deposits_ok ?s" by (simp add: deposits_ok_def deposit_1_def)
  have "\<exists>s' d. confirmDeposit paying_network 60000 ''buyer'' ''d1'' ''0xTX'' ''sig'' ?s = (Inr d, s')
      \<and> cd_amount_minor d = 2500 \<and> avail s' ''buyer'' = 3550"
    by (simp add: confirmDeposit_def commitDeposit_def claimHash_def transaction_def eval_credit funded_db_def
        empty_db_def deposit_1_def paying_network_def avail_def creditBalance_def Let_def)
  then obtain s' d where r: "confirmDeposit paying_network 60000 ''buyer'' ''d1'' ''0xTX'' ''sig'' ?s = (Inr d, s')"
    and a: "avail s' ''buyer'' = 3550" by blast
  from confirmDeposit_credits_once [OF b ok r] r a show ?thesis by auto
qed

end
