(* ===== verification/JsDate.thy ===== *)
theory JsDate
  imports Main
begin

text \<open>
  The calendar arithmetic of \<open>Date.UTC\<close> that the spending windows use: times are
  milliseconds since the epoch, and the civil calendar is computed from the
  number of the day as in the proleptic Gregorian calendar, whose cycle is 400
  years of 146097 days and whose computational year starts in March.
\<close>

definition day_number :: "int \<Rightarrow> int" where
  "day_number t = t div 86400000"

text \<open>The day within the computational year, 0 being the first of March.\<close>

definition day_of_cycle :: "int \<Rightarrow> int" where
  "day_of_cycle d = (d + 719468) mod 146097"

definition year_of_cycle :: "int \<Rightarrow> int" where
  "year_of_cycle e = (e - e div 1460 + e div 36524 - e div 146096) div 365"

definition day_of_year :: "int \<Rightarrow> int" where
  "day_of_year d = (let e = day_of_cycle d; y = year_of_cycle e in e - (365 * y + y div 4 - y div 100))"

text \<open>\<open>getUTCDate()\<close>, from 1.\<close>

definition day_of_month :: "int \<Rightarrow> int" where
  "day_of_month d = (let y = day_of_year d; m = (5 * y + 2) div 153 in y - (153 * m + 2) div 5 + 1)"

text \<open>\<open>Date.UTC(year, month, date)\<close> and \<open>Date.UTC(year, month, 1)\<close> of the time's own fields.\<close>

definition utc_day_start :: "int \<Rightarrow> int" where
  "utc_day_start t = 86400000 * day_number t"

definition utc_month_start :: "int \<Rightarrow> int" where
  "utc_month_start t = 86400000 * (day_number t - (day_of_month (day_number t) - 1))"

text \<open>\<open>Math.floor(t / 1000)\<close>, as a timestamp column stores it.\<close>

definition to_seconds :: "int \<Rightarrow> int" where
  "to_seconds t = t div 1000"

lemma day_of_month_bounds: "1 \<le> day_of_month d \<and> day_of_month d \<le> 31"
proof -
  define y where "y = day_of_year d"
  define m where "m = (5 * y + 2) div 153"
  define q where "q = (153 * m + 2) div 5"
  have m: "153 * m \<le> 5 * y + 2" "5 * y + 2 < 153 * m + 153"
    unfolding m_def by (simp_all add: minus_mod_eq_mult_div [symmetric])
  have q: "5 * q \<le> 153 * m + 2" "153 * m + 2 < 5 * q + 5"
    unfolding q_def by (simp_all add: minus_mod_eq_mult_div [symmetric])
  have "q \<le> y" "y \<le> q + 30" using m q by arith+
  then show ?thesis by (simp add: day_of_month_def Let_def y_def [symmetric] m_def [symmetric] q_def [symmetric])
qed

lemma utc_day_bounds: "utc_day_start t \<le> t" "t < utc_day_start t + 86400000"
  by (simp_all add: utc_day_start_def day_number_def)

lemma utc_month_le_day: "utc_month_start t \<le> utc_day_start t"
  using day_of_month_bounds [of "day_number t"] by (simp add: utc_month_start_def utc_day_start_def)

lemma utc_month_near: "utc_day_start t \<le> utc_month_start t + 30 * 86400000"
  using day_of_month_bounds [of "day_number t"] by (simp add: utc_month_start_def utc_day_start_def)

lemma utc_month_day [simp]: "utc_day_start (utc_month_start t) = utc_month_start t"
  by (simp add: utc_month_start_def utc_day_start_def day_number_def)

lemma to_seconds_mono: "s \<le> t \<Longrightarrow> to_seconds s \<le> to_seconds t"
  by (simp add: to_seconds_def zdiv_mono1)

text \<open>Two dates: 29 February 2024 and 1 March 2026.\<close>

lemma day_of_month_examples: "day_of_month 19782 = 29" "day_of_month 20513 = 1"
  by (simp_all add: day_of_month_def day_of_year_def day_of_cycle_def year_of_cycle_def Let_def)

end
