(* ===== verification/Capabilities.thy ===== *)
theory Capabilities
  imports JsString "HOL-Library.Multiset"
begin

text \<open>
  \<open>lib/capabilities.ts\<close>: the catalogue of capability names and the mapping of free
  text to it.  The descriptions in the catalogue are only shown, and are left out.
\<close>

section \<open>Canonical form\<close>

definition word_char :: "char \<Rightarrow> bool" where
  "word_char c = (let n = of_char c :: int in 97 \<le> n \<and> n \<le> 122 \<or> 48 \<le> n \<and> n \<le> 57 \<or> n = 45)"

definition canonicalize :: "string \<Rightarrow> string" where
  "canonicalize value = dash_runs (\<lambda>c. c = CHR ''-'')
     (filter word_char (dash_runs (\<lambda>c. c = CHR ''_'' \<or> is_space c) (trim (lower value))))"

section \<open>The catalogue\<close>

record capability =
  cap_id :: string
  cap_label :: string
  cap_category :: string
  cap_aliases :: "string list"

definition CAPABILITIES :: "capability list" where
  "CAPABILITIES = [
    \<lparr>cap_id = ''web-research'', cap_label = ''Web Research'', cap_category = ''research'',
       cap_aliases = [''web search'', ''internet research'', ''research'']\<rparr>,
    \<lparr>cap_id = ''fact-checking'', cap_label = ''Fact Checking'', cap_category = ''research'',
       cap_aliases = [''verification'', ''claim verification'']\<rparr>,
    \<lparr>cap_id = ''data-analysis'', cap_label = ''Data Analysis'', cap_category = ''research'',
       cap_aliases = [''analytics'', ''analysis'']\<rparr>,
    \<lparr>cap_id = ''data-extraction'', cap_label = ''Data Extraction'', cap_category = ''research'',
       cap_aliases = [''extract data'', ''scrape data'', ''structured extraction'']\<rparr>,
    \<lparr>cap_id = ''financial-analysis'', cap_label = ''Financial Analysis'', cap_category = ''research'',
       cap_aliases = [''finance'', ''market research'']\<rparr>,
    \<lparr>cap_id = ''legal-research'', cap_label = ''Legal Research'', cap_category = ''research'',
       cap_aliases = [''legal-analysis'', ''legal analysis'']\<rparr>,
    \<lparr>cap_id = ''academic-research'', cap_label = ''Academic Research'', cap_category = ''research'',
       cap_aliases = [''scientific-research'', ''scientific research'']\<rparr>,
    \<lparr>cap_id = ''competitive-intelligence'', cap_label = ''Competitive Intelligence'', cap_category = ''research'',
       cap_aliases = [''market intelligence'']\<rparr>,
    \<lparr>cap_id = ''code-generation'', cap_label = ''Code Generation'', cap_category = ''code'',
       cap_aliases = [''coding'', ''programming'']\<rparr>,
    \<lparr>cap_id = ''code-review'', cap_label = ''Code Review'', cap_category = ''code'',
       cap_aliases = []\<rparr>,
    \<lparr>cap_id = ''debugging'', cap_label = ''Debugging'', cap_category = ''code'',
       cap_aliases = []\<rparr>,
    \<lparr>cap_id = ''testing'', cap_label = ''Testing'', cap_category = ''code'',
       cap_aliases = [''qa'', ''test automation'']\<rparr>,
    \<lparr>cap_id = ''deployment'', cap_label = ''Deployment'', cap_category = ''code'',
       cap_aliases = [''devops'', ''release'']\<rparr>,
    \<lparr>cap_id = ''api-integration'', cap_label = ''API Integration'', cap_category = ''code'',
       cap_aliases = [''api'']\<rparr>,
    \<lparr>cap_id = ''browser-automation'', cap_label = ''Browser Automation'', cap_category = ''code'',
       cap_aliases = [''playwright'', ''puppeteer'']\<rparr>,
    \<lparr>cap_id = ''smart-contracts'', cap_label = ''Smart Contracts'', cap_category = ''code'',
       cap_aliases = [''solidity'', ''contract audit'']\<rparr>,
    \<lparr>cap_id = ''security-analysis'', cap_label = ''Security Analysis'', cap_category = ''code'',
       cap_aliases = [''security'', ''audit'']\<rparr>,
    \<lparr>cap_id = ''content-writing'', cap_label = ''Content Writing'', cap_category = ''content'',
       cap_aliases = [''writing'']\<rparr>,
    \<lparr>cap_id = ''copywriting'', cap_label = ''Copywriting'', cap_category = ''content'',
       cap_aliases = []\<rparr>,
    \<lparr>cap_id = ''summarization'', cap_label = ''Summarization'', cap_category = ''content'',
       cap_aliases = [''summary'']\<rparr>,
    \<lparr>cap_id = ''report-writing'', cap_label = ''Report Writing'', cap_category = ''content'',
       cap_aliases = [''reports'']\<rparr>,
    \<lparr>cap_id = ''translation'', cap_label = ''Translation'', cap_category = ''content'',
       cap_aliases = []\<rparr>,
    \<lparr>cap_id = ''proofreading'', cap_label = ''Proofreading'', cap_category = ''content'',
       cap_aliases = [''editing'']\<rparr>,
    \<lparr>cap_id = ''creative-writing'', cap_label = ''Creative Writing'', cap_category = ''content'',
       cap_aliases = []\<rparr>,
    \<lparr>cap_id = ''customer-support'', cap_label = ''Customer Support'', cap_category = ''content'',
       cap_aliases = [''support'']\<rparr>,
    \<lparr>cap_id = ''education'', cap_label = ''Education'', cap_category = ''content'',
       cap_aliases = [''tutoring'']\<rparr>,
    \<lparr>cap_id = ''prompt-engineering'', cap_label = ''Prompt Engineering'', cap_category = ''ai'',
       cap_aliases = []\<rparr>,
    \<lparr>cap_id = ''rag'', cap_label = ''RAG'', cap_category = ''ai'',
       cap_aliases = [''retrieval augmented generation'']\<rparr>,
    \<lparr>cap_id = ''fine-tuning'', cap_label = ''Fine-Tuning'', cap_category = ''ai'',
       cap_aliases = []\<rparr>,
    \<lparr>cap_id = ''benchmarking'', cap_label = ''Benchmarking'', cap_category = ''ai'',
       cap_aliases = []\<rparr>,
    \<lparr>cap_id = ''evals'', cap_label = ''Evals'', cap_category = ''ai'',
       cap_aliases = [''evaluation'']\<rparr>,
    \<lparr>cap_id = ''image-analysis'', cap_label = ''Image Analysis'', cap_category = ''multimodal'',
       cap_aliases = []\<rparr>,
    \<lparr>cap_id = ''image-generation'', cap_label = ''Image Generation'', cap_category = ''multimodal'',
       cap_aliases = []\<rparr>,
    \<lparr>cap_id = ''audio-transcription'', cap_label = ''Audio Transcription'', cap_category = ''multimodal'',
       cap_aliases = [''audio-processing'', ''audio processing'']\<rparr>,
    \<lparr>cap_id = ''video-analysis'', cap_label = ''Video Analysis'', cap_category = ''multimodal'',
       cap_aliases = [''video-processing'', ''video processing'']\<rparr>,
    \<lparr>cap_id = ''onchain-analysis'', cap_label = ''On-chain Analysis'', cap_category = ''crypto'',
       cap_aliases = [''on-chain analysis'']\<rparr>,
    \<lparr>cap_id = ''defi-research'', cap_label = ''DeFi Research'', cap_category = ''crypto'',
       cap_aliases = []\<rparr>,
    \<lparr>cap_id = ''nft-analysis'', cap_label = ''NFT Analysis'', cap_category = ''crypto'',
       cap_aliases = []\<rparr>,
    \<lparr>cap_id = ''token-research'', cap_label = ''Token Research'', cap_category = ''crypto'',
       cap_aliases = []\<rparr>,
    \<lparr>cap_id = ''file-processing'', cap_label = ''File Processing'', cap_category = ''infra'',
       cap_aliases = []\<rparr>,
    \<lparr>cap_id = ''web-scraping'', cap_label = ''Web Scraping'', cap_category = ''infra'',
       cap_aliases = [''scraping'', ''crawler'']\<rparr>,
    \<lparr>cap_id = ''data-pipeline'', cap_label = ''Data Pipeline'', cap_category = ''infra'',
       cap_aliases = [''etl'']\<rparr>,
    \<lparr>cap_id = ''database-management'', cap_label = ''Database Management'', cap_category = ''infra'',
       cap_aliases = [''database'', ''sql'']\<rparr>,
    \<lparr>cap_id = ''monitoring'', cap_label = ''Monitoring'', cap_category = ''infra'',
       cap_aliases = [''observability'']\<rparr>,
    \<lparr>cap_id = ''task-posting'', cap_label = ''Task Posting'', cap_category = ''marketplace'',
       cap_aliases = []\<rparr>,
    \<lparr>cap_id = ''trade-management'', cap_label = ''Trade Management'', cap_category = ''marketplace'',
       cap_aliases = []\<rparr>,
    \<lparr>cap_id = ''agent-registry'', cap_label = ''Agent Registry'', cap_category = ''marketplace'',
       cap_aliases = []\<rparr>,
    \<lparr>cap_id = ''agent-discovery'', cap_label = ''Agent Discovery'', cap_category = ''marketplace'',
       cap_aliases = []\<rparr>,
    \<lparr>cap_id = ''math'', cap_label = ''Math'', cap_category = ''science'',
       cap_aliases = []\<rparr>,
    \<lparr>cap_id = ''statistics'', cap_label = ''Statistics'', cap_category = ''science'',
       cap_aliases = []\<rparr>,
    \<lparr>cap_id = ''medical-analysis'', cap_label = ''Medical Analysis'', cap_category = ''science'',
       cap_aliases = [''medical research'']\<rparr>]"

text \<open>
  The \<open>Map\<close> that the module fills when it loads: each \<open>set\<close> overwrites what the key
  held before, so the pairs are kept latest first.
\<close>

definition alias_entries :: "capability \<Rightarrow> (string \<times> string) list" where
  "alias_entries c = map (\<lambda>a. (canonicalize a, cap_id c)) (cap_id c # cap_label c # cap_aliases c)"

definition aliasToCapability :: "(string \<times> string) list" where
  "aliasToCapability = rev (concat (map alias_entries CAPABILITIES))"

definition normalizeCapability :: "string \<Rightarrow> string option" where
  "normalizeCapability value = map_of aliasToCapability (canonicalize value)"

text \<open>What \<open>query.split(/[^a-z0-9_-]+/)\<close> does not cut at.\<close>

definition query_char :: "char \<Rightarrow> bool" where
  "query_char c \<longleftrightarrow> word_char c \<or> c = CHR ''_''"

definition resolveCapabilityQuery :: "string \<Rightarrow> string list" where
  "resolveCapabilityQuery query =
     (let found = List.map_filter (map_of aliasToCapability)
        (canonicalize query # filter (\<lambda>w. 2 < length w) (map canonicalize (split_runs query_char (lower query))))
      in rev (remdups (rev found)))"

definition resolveCapabilities :: "string list \<Rightarrow> (string \<times> capability \<times> string) list \<times> string list" where
  "resolveCapabilities values =
     (List.map_filter (\<lambda>input. case normalizeCapability input of None \<Rightarrow> None
        | Some i \<Rightarrow> map_option (\<lambda>c. (input, c, i)) (find (\<lambda>c. cap_id c = i) CAPABILITIES)) values,
      filter (\<lambda>input. normalizeCapability input = None) values)"

section \<open>Canonical forms are stable\<close>

lemma word_char_plain:
  assumes "word_char c"
  shows "lower_char c = c" and "\<not> is_space c" and "c \<noteq> CHR ''_''"
proof -
  show "lower_char c = c" and "\<not> is_space c"
    using assms by (auto simp: word_char_def lower_char_def is_space_def Let_def)
  have "\<not> word_char CHR ''_''" by code_simp
  then show "c \<noteq> CHR ''_''" using assms by auto
qed

lemma dash_word: "word_char CHR ''-''"
  by code_simp

lemma canonicalize_word: "c \<in> set (canonicalize v) \<Longrightarrow> word_char c"
  using set_dash_runs dash_word by (force simp: canonicalize_def)

lemma canonicalize_idem_fact: "canonicalize (canonicalize v) = canonicalize v"
proof -
  let ?c = "canonicalize v"
  have w: "c \<in> set ?c \<Longrightarrow> word_char c" for c by (rule canonicalize_word)
  have l: "lower ?c = ?c" unfolding lower_def by (rule map_idI) (simp add: word_char_plain w)
  have t: "trim ?c = ?c" by (rule trim_id) (simp add: word_char_plain w)
  have d: "dash_runs (\<lambda>c. c = CHR ''_'' \<or> is_space c) ?c = ?c"
    by (rule dash_runs_id) (use w word_char_plain in blast)
  have f: "filter word_char ?c = ?c" by (rule filter_True) (simp add: w)
  have "canonicalize ?c = dash_runs (\<lambda>c. c = CHR ''-'') ?c"
    by (simp only: canonicalize_def [of ?c] l t d f)
  also have "\<dots> = ?c" unfolding canonicalize_def [of v] by (rule dash_runs_idem)
  finally show ?thesis .
qed

lemma normalizeCapability_in_catalogue:
  "normalizeCapability v = Some i \<Longrightarrow> i \<in> cap_id ` set CAPABILITIES"
  by (auto simp: normalizeCapability_def aliasToCapability_def alias_entries_def dest!: map_of_SomeD)

text \<open>
  The canonical form of a capability name is stable and clean: it has only
  small letters, digits and dashes, canonicalizing it again changes nothing, two
  spellings with one canonical form name the same capability, and what a name
  resolves to is always an entry of the catalogue.
\<close>

theorem canonicalize_stable:
  "canonicalize (canonicalize v) = canonicalize v \<and> list_all word_char (canonicalize v)
   \<and> normalizeCapability (canonicalize v) = normalizeCapability v
   \<and> set_option (normalizeCapability v) \<subseteq> cap_id ` set CAPABILITIES"
  using canonicalize_word normalizeCapability_in_catalogue [of v]
  by (auto simp: canonicalize_idem_fact list_all_iff normalizeCapability_def elem_set)

lemma resolve_partition_fact:
  "mset values = mset (map fst (fst (resolveCapabilities values))) + mset (snd (resolveCapabilities values))"
proof (induction "values")
  case (Cons v vs)
  have found: "\<exists>c. find (\<lambda>c. cap_id c = i) CAPABILITIES = Some c" if "normalizeCapability v = Some i" for i
    using normalizeCapability_in_catalogue [OF that] by (auto simp: find_None_iff simp flip: not_None_eq)
  show ?case
  proof (cases "normalizeCapability v")
    case None
    with Cons show ?thesis by (simp add: resolveCapabilities_def List.map_filter_simps)
  next
    case (Some i)
    from found [OF this] obtain c where "find (\<lambda>c. cap_id c = i) CAPABILITIES = Some c" ..
    with Some Cons show ?thesis by (simp add: resolveCapabilities_def List.map_filter_simps)
  qed
qed (simp add: resolveCapabilities_def List.map_filter_simps)

end
