(* ===== verification/SpendPolicy.thy ===== *)
theory SpendPolicy
  imports Schema JsString JsDate Capabilities
begin

text \<open>
  Spending limits: a buyer's own policy (\<open>lib/buyer-spend-policy.ts\<close>, with
  \<open>purchaseThresholdSatisfied\<close> of \<open>lib/organization-purchase-evidence.ts\<close> and
  \<open>providerMatches\<close> of \<open>lib/provider-requirements.ts\<close>) and the ceilings of the
  deployment on autonomous agents (\<open>lib/agent-spend-policy.ts\<close>).
\<close>

section \<open>Amounts as text\<close>

text \<open>\<open>/^(?:0|[1-9][0-9]{0,k-1})(?:\.[0-9]{1,2})?$/\<close>, read as cents.\<close>

definition whole_ok :: "nat \<Rightarrow> string \<Rightarrow> bool" where
  "whole_ok k w \<longleftrightarrow> w = ''0'' \<or> w \<noteq> [] \<and> hd w \<noteq> CHR ''0'' \<and> list_all is_digit w \<and> length w \<le> k"

definition parse_cents :: "nat \<Rightarrow> string \<Rightarrow> int option" where
  "parse_cents k v =
     (let whole = takeWhile (\<lambda>c. c \<noteq> CHR ''.'') v; rest = dropWhile (\<lambda>c. c \<noteq> CHR ''.'') v; fraction = tl rest in
      if whole_ok k whole \<and> (rest = [] \<or> list_all is_digit fraction \<and> 1 \<le> length fraction \<and> length fraction \<le> 2)
      then Some (int (parse_digits whole * 100 + parse_digits (pad_end2 fraction)))
      else None)"

text \<open>\<open>(value / 100).toFixed(2)\<close>.\<close>

definition format_cents :: "int \<Rightarrow> string" where
  "format_cents n = to_fixed2 (of_minor n)"

lemma parse_digits_bound: "list_all is_digit w \<Longrightarrow> parse_digits w < 10 ^ length w"
proof (induction w rule: rev_induct)
  case (snoc c w)
  then have "digit_value c < 10" by (auto simp: is_digit_def digit_value_def Let_def)
  with snoc show ?case by simp
qed simp

lemma is_digit_0: "is_digit CHR ''0''" "digit_value CHR ''0'' = 0" "\<not> is_digit CHR ''.''"
  by code_simp+

lemma whole_ok_bound: "whole_ok k w \<Longrightarrow> 0 < k \<Longrightarrow> parse_digits w < 10 ^ k"
  using parse_digits_bound [of w] power_increasing [of "length w" k "10 :: nat"]
  by (auto simp: whole_ok_def is_digit_0 intro: order.strict_trans2)

lemma pad_end2_cases:
  assumes "length f \<le> 2" and "list_all is_digit f"
  shows "list_all is_digit (pad_end2 f)" and "length (pad_end2 f) = 2"
  using assms by (auto simp: pad_end2_def list_all_iff is_digit_0)

lemma parse_cents_bound:
  assumes "parse_cents k v = Some n" and "0 < k"
  shows "0 \<le> n" and "n < 10 ^ (k + 2)"
proof -
  define w where "w = takeWhile (\<lambda>c. c \<noteq> CHR ''.'') v"
  define f where "f = tl (dropWhile (\<lambda>c. c \<noteq> CHR ''.'') v)"
  have "dropWhile (\<lambda>c. c \<noteq> CHR ''.'') v = [] \<Longrightarrow> f = []"
    by (simp only: f_def list.sel)
  with assms(1) [unfolded parse_cents_def Let_def, folded w_def f_def]
  have n: "n = int (parse_digits w * 100 + parse_digits (pad_end2 f))" and w: "whole_ok k w"
    and f: "length f \<le> 2" "list_all is_digit f"
    by (auto simp del: dropWhile_eq_Nil_conv split: if_splits)
  show "0 \<le> n" by (simp add: n)
  have "parse_digits (pad_end2 f) < 100"
    using parse_digits_bound [OF pad_end2_cases(1) [OF f]] pad_end2_cases(2) [OF f] by simp
  moreover have "parse_digits w < 10 ^ k" by (rule whole_ok_bound [OF w assms(2)])
  ultimately have "parse_digits w * 100 + parse_digits (pad_end2 f) < 10 ^ k * 100" by simp
  then have "int (parse_digits w * 100 + parse_digits (pad_end2 f)) < int (10 ^ k * 100)"
    by (simp only: of_nat_less_iff)
  then show "n < 10 ^ (k + 2)" by (simp add: n power_add)
qed

lemma show_nat_no_dot: "CHR ''.'' \<notin> set (show_nat n)"
  using show_nat_digits [of n] is_digit_0(3) by (auto simp: list_all_iff)

lemma parse_format_cents_fact:
  assumes "0 < k" and "k \<le> 12" and "0 \<le> n" and "n < 10 ^ (k + 2)"
  shows "parse_cents k (format_cents n) = Some n"
proof -
  define m where "m = nat n"
  have m: "n = int m" "m < 10 ^ k * 100" using assms by (auto simp: m_def nat_less_iff power_add)
  have "(10 :: int) ^ (k + 2) \<le> 10 ^ 14" using assms(2) by (intro power_increasing) auto
  then have le: "n \<le> 2 ^ 50" using assms(4) by simp
  let ?w = "show_nat (m div 100)" and ?f = "[digit_char (m div 10 mod 10), digit_char (m mod 10)]"
  have str: "format_cents n = ?w @ CHR ''.'' # ?f"
    using to_fixed2_of_minor [OF assms(3) le] by (simp add: format_cents_def m_def)
  have split: "takeWhile (\<lambda>c. c \<noteq> CHR ''.'') (?w @ CHR ''.'' # ?f) = ?w"
    "dropWhile (\<lambda>c. c \<noteq> CHR ''.'') (?w @ CHR ''.'' # ?f) = CHR ''.'' # ?f"
    using show_nat_no_dot [of "m div 100"] by (subst takeWhile_append2 dropWhile_append2; auto)+
  have "m div 100 < 10 ^ k" using m(2) by (simp add: less_mult_imp_div_less)
  with assms(1) have "length ?w \<le> k" using show_nat_length [of "m div 100" "k - 1"] by simp
  moreover have "show_nat 0 = ''0''" by (subst show_nat.simps) (simp add: digit_char_eq_0)
  ultimately have w: "whole_ok k ?w"
    using show_nat_digits show_nat_head [of "m div 100"] by (cases "m div 100 = 0") (auto simp: whole_ok_def)
  have "parse_digits (pad_end2 ?f) = 10 * (m div 10 mod 10) + m mod 10"
    by (simp add: pad_end2_def parse_digits_def)
  moreover have "m = m div 100 * 100 + (10 * (m div 10 mod 10) + m mod 10)"
    using mod_mult2_eq [of m 10 10] div_mult_mod_eq [of m 100] by simp
  ultimately have v: "parse_digits ?w * 100 + parse_digits (pad_end2 ?f) = m" by simp
  show ?thesis unfolding str parse_cents_def Let_def split using arg_cong [OF v, of int]
    by (simp add: w m(1))
qed

text \<open>
  C40. Amounts survive their text form: whatever a policy or budget form accepts is
  a whole number of cents in_limit its bounds, and formatting it with two decimals
  and reading it back gives exactly the same cents.
\<close>

theorem parse_format_cents:
  assumes "parse_cents k v = Some n" and "0 < k" and "k \<le> 12"
  shows "0 \<le> n \<and> n < 10 ^ (k + 2) \<and> parse_cents k (format_cents n) = Some n"
  using parse_cents_bound [OF assms(1,2)] parse_format_cents_fact [OF assms(2,3)] by simp

lemma parse_format_cents_witness:
  "parse_cents 10 ''19.9'' = Some 1990 \<and> parse_cents 10 (format_cents 1990) = Some 1990"
proof -
  have p: "parse_cents 10 ''19.9'' = Some 1990" by code_simp
  show ?thesis using parse_format_cents [OF p] p by simp
qed

section \<open>Policies as text\<close>

text \<open>What \<open>policyToPublic\<close> produces and \<open>buyerSpendPolicyInput\<close> reads: amounts as text.\<close>

record policy_text =
  pt_max_per_execution :: "string option"
  pt_max_daily :: "string option"
  pt_max_monthly :: "string option"
  pt_max_retry_budget :: "string option"
  pt_approval_required_above :: "string option"
  pt_allowed_capabilities :: "string list option"
  pt_blocked_capabilities :: "string list option"
  pt_approved_providers :: "string list option"
  pt_blocked_providers :: "string list option"
  pt_approved_payment_rails :: "rail list option"
  pt_required_verification_methods :: "string list option"
  pt_has_provider_requirements :: bool

definition policyToPublic :: "buyer_policy \<Rightarrow> policy_text" where
  "policyToPublic p = \<lparr>
     pt_max_per_execution = map_option format_cents (bp_max_per_execution p),
     pt_max_daily = map_option format_cents (bp_max_daily p),
     pt_max_monthly = map_option format_cents (bp_max_monthly p),
     pt_max_retry_budget = map_option format_cents (bp_max_retry_budget p),
     pt_approval_required_above = map_option format_cents (bp_approval_required_above p),
     pt_allowed_capabilities = bp_allowed_capabilities p, pt_blocked_capabilities = bp_blocked_capabilities p,
     pt_approved_providers = bp_approved_providers p, pt_blocked_providers = bp_blocked_providers p,
     pt_approved_payment_rails = bp_approved_payment_rails p,
     pt_required_verification_methods = bp_required_verification_methods p,
     pt_has_provider_requirements = bp_has_provider_requirements p\<rparr>"

text \<open>A field that is absent stays absent; one that is present must pass.\<close>

definition opt_parse :: "('a \<Rightarrow> 'b option) \<Rightarrow> 'a option \<Rightarrow> 'b option option" where
  "opt_parse f v = (case v of None \<Rightarrow> Some None | Some x \<Rightarrow> map_option Some (f x))"

fun parse_list :: "('a \<Rightarrow> 'b option) \<Rightarrow> 'a list \<Rightarrow> 'b list option" where
  "parse_list f [] = Some []"
| "parse_list f (x # xs) = (case f x of None \<Rightarrow> None | Some y \<Rightarrow> map_option (Cons y) (parse_list f xs))"

definition check_list :: "nat \<Rightarrow> nat \<Rightarrow> 'a list \<Rightarrow> 'a list option" where
  "check_list lo hi xs = (if lo \<le> length xs \<and> length xs \<le> hi \<and> distinct xs then Some xs else None)"

definition capability_input :: "string \<Rightarrow> string option" where
  "capability_input v = (if 1 \<le> length v \<and> length v \<le> 80 then normalizeCapability v else None)"

definition provider_input :: "string \<Rightarrow> string option" where
  "provider_input v = (if 1 \<le> length v \<and> length v \<le> 200 then Some v else None)"

definition method_input :: "string \<Rightarrow> string option" where
  "method_input v = (if v \<in> {''buyer_review'', ''schema'', ''source_urls'', ''assertions'', ''source_evidence'',
     ''isolated_checks''} then Some v else None)"

definition list_input :: "('a \<Rightarrow> 'b option) \<Rightarrow> nat \<Rightarrow> nat \<Rightarrow> 'a list option \<Rightarrow> 'b list option option" where
  "list_input f lo hi = opt_parse (\<lambda>xs. Option.bind (parse_list f xs) (check_list lo hi))"

definition buyerSpendPolicyInput :: "policy_text \<Rightarrow> buyer_policy option" where
  "buyerSpendPolicyInput t =
     Option.bind (opt_parse (parse_cents 10) (pt_max_per_execution t)) (\<lambda>per.
     Option.bind (opt_parse (parse_cents 10) (pt_max_daily t)) (\<lambda>daily.
     Option.bind (opt_parse (parse_cents 10) (pt_max_monthly t)) (\<lambda>monthly.
     Option.bind (opt_parse (parse_cents 10) (pt_max_retry_budget t)) (\<lambda>retry.
     Option.bind (opt_parse (parse_cents 10) (pt_approval_required_above t)) (\<lambda>approval.
     Option.bind (list_input capability_input 0 30 (pt_allowed_capabilities t)) (\<lambda>allowed.
     Option.bind (list_input capability_input 0 30 (pt_blocked_capabilities t)) (\<lambda>blocked.
     Option.bind (list_input provider_input 0 100 (pt_approved_providers t)) (\<lambda>providers.
     Option.bind (list_input provider_input 0 100 (pt_blocked_providers t)) (\<lambda>excluded.
     Option.bind (list_input Some 1 4 (pt_approved_payment_rails t)) (\<lambda>rails.
     Option.bind (list_input method_input 1 6 (pt_required_verification_methods t)) (\<lambda>methods.
       Some \<lparr>bp_max_per_execution = per, bp_max_daily = daily, bp_max_monthly = monthly,
         bp_max_retry_budget = retry, bp_approval_required_above = approval,
         bp_allowed_capabilities = allowed, bp_blocked_capabilities = blocked,
         bp_approved_providers = providers, bp_blocked_providers = excluded,
         bp_approved_payment_rails = rails, bp_required_verification_methods = methods,
         bp_has_provider_requirements = pt_has_provider_requirements t\<rparr>)))))))))))"

definition loadBuyerSpendPolicy :: "id \<Rightarrow> buyer_policy option dbtx" where
  "loadBuyerSpendPolicy buyerId =
     bnd (select_one buyer_spend_policies (\<lambda>r. bs_buyer_id r = buyerId)) (\<lambda>row.
       case row of None \<Rightarrow> ret None
       | Some r \<Rightarrow> bnd (some_or (PlainError ''ZodError'') (buyerSpendPolicyInput (policyToPublic (bs_policy r))))
                     (\<lambda>p. ret (Some p)))"

section \<open>What a policy permits\<close>

record verified_purchase =
  vp_issued :: bool
  vp_buyerId :: id
  vp_totalMinor :: int
  vp_sellerId :: id
  vp_paymentRail :: rail

text \<open>Only \<open>issuePurchaseEvidence\<close> puts an object into the set of validated ones.\<close>

definition issuePurchaseEvidence :: "verified_purchase \<Rightarrow> verified_purchase" where
  "issuePurchaseEvidence v = v\<lparr>vp_issued := True\<rparr>"

record spend_context =
  sc_purchaseEvidence :: "verified_purchase option"
  sc_totalMinor :: int
  sc_sellerId :: "id option"
  sc_capabilities :: "string list option"
  sc_paymentRail :: "rail option"
  sc_verificationMethods :: "string list option"
  sc_retrySpendMinor :: "int option"

definition purchaseThresholdSatisfied :: "verified_purchase option \<Rightarrow> spend_context \<Rightarrow> bool" where
  "purchaseThresholdSatisfied evidence context = (case evidence of None \<Rightarrow> False
     | Some e \<Rightarrow> vp_issued e \<and> vp_totalMinor e = sc_totalMinor context
         \<and> Some (vp_sellerId e) = sc_sellerId context \<and> Some (vp_paymentRail e) = sc_paymentRail context)"

definition agent_prefix :: string where
  "agent_prefix = ''user_agent_''"

definition providerMatches :: "string list \<Rightarrow> string \<Rightarrow> bool" where
  "providerMatches items sellerId \<longleftrightarrow> sellerId \<in> set items
     \<or> take 11 sellerId = agent_prefix \<and> drop 11 sellerId \<in> set items"

definition above :: "int \<Rightarrow> int option \<Rightarrow> bool" where
  "above x limit = (case limit of None \<Rightarrow> False | Some l \<Rightarrow> l < x)"

text \<open>A seller id that is missing or empty is falsy in JavaScript.\<close>

definition truthy :: "string option \<Rightarrow> bool" where
  "truthy v = (case v of None \<Rightarrow> False | Some x \<Rightarrow> x \<noteq> [])"

definition checkBuyerPolicyConstraints :: "buyer_policy \<Rightarrow> spend_context \<Rightarrow> string option" where
  "checkBuyerPolicyConstraints p c =
    (if above (sc_totalMinor c) (bp_max_per_execution p) then Some ''BUYER_PER_EXECUTION_LIMIT''
     else if above (sc_totalMinor c) (bp_approval_required_above p)
        \<and> \<not> purchaseThresholdSatisfied (sc_purchaseEvidence c) c then Some ''BUYER_APPROVAL_REQUIRED''
     else if (case sc_retrySpendMinor c of None \<Rightarrow> False | Some r \<Rightarrow> above r (bp_max_retry_budget p))
       then Some ''BUYER_RETRY_BUDGET_EXCEEDED''
     else if (case bp_approved_payment_rails p of None \<Rightarrow> False
        | Some rails \<Rightarrow> (case sc_paymentRail c of None \<Rightarrow> True | Some r \<Rightarrow> r \<notin> set rails))
       then Some ''BUYER_PAYMENT_RAIL_BLOCKED''
     else if (case bp_approved_providers p of None \<Rightarrow> False
        | Some ps \<Rightarrow> \<not> truthy (sc_sellerId c) \<or> \<not> providerMatches ps (the (sc_sellerId c)))
       then Some ''BUYER_PROVIDER_BLOCKED''
     else if (case bp_blocked_providers p of None \<Rightarrow> False
        | Some ps \<Rightarrow> truthy (sc_sellerId c) \<and> providerMatches ps (the (sc_sellerId c)))
       then Some ''BUYER_PROVIDER_BLOCKED''
     else if (case bp_allowed_capabilities p of None \<Rightarrow> False
        | Some cs \<Rightarrow> (case sc_capabilities c of None \<Rightarrow> True | Some xs \<Rightarrow> \<not> list_all (\<lambda>x. x \<in> set cs) xs))
       then Some ''BUYER_CAPABILITY_BLOCKED''
     else if (case bp_blocked_capabilities p of None \<Rightarrow> False
        | Some cs \<Rightarrow> (case sc_capabilities c of None \<Rightarrow> False | Some xs \<Rightarrow> list_ex (\<lambda>x. x \<in> set cs) xs))
       then Some ''BUYER_CAPABILITY_BLOCKED''
     else if (case bp_required_verification_methods p of None \<Rightarrow> False
        | Some ms \<Rightarrow> (case sc_verificationMethods c of None \<Rightarrow> True | Some vs \<Rightarrow> \<not> list_all (\<lambda>m. m \<in> set vs) ms))
       then Some ''BUYER_VERIFICATION_REQUIRED''
     else None)"

section \<open>What counts as spent\<close>

text \<open>
  SQLite's \<open>CAST(ROUND(x) AS INTEGER)\<close>: half away from zero, computed by adding one
  half and cutting off; beyond 2 ^ 52 a double has no fraction.
\<close>

definition cut_off :: "num \<Rightarrow> int" where
  "cut_off x = (if x < 0 then \<lceil>x\<rceil> else \<lfloor>x\<rfloor>)"

definition sql_round :: "num \<Rightarrow> int" where
  "sql_round x = (if 2 ^ 52 < \<bar>x\<bar> then cut_off x else cut_off (jadd x (if x < 0 then - (1 / 2) else 1 / 2)))"

definition sql_cents :: "num \<Rightarrow> int" where
  "sql_cents x = sql_round (jmul x 100)"

definition trade_cost :: "trade \<Rightarrow> num" where
  "trade_cost t = (if 0 < t_total_cost t then t_total_cost t else jadd (t_amount t) (t_fee t))"

text \<open>A trade counts unless it was cancelled and nothing external is still out.\<close>

definition trade_counts :: "trade \<Rightarrow> bool" where
  "trade_counts t \<longleftrightarrow> t_status t \<noteq> T_cancelled \<or> t_payment_rail t \<noteq> Ledger \<and> t_payout_status t \<noteq> Payout_refunded"

definition not_before :: "seconds \<Rightarrow> seconds option \<Rightarrow> bool" where
  "not_before since v = (case v of None \<Rightarrow> False | Some x \<Rightarrow> since \<le> x)"

definition session_counts :: "id \<Rightarrow> seconds \<Rightarrow> instant_session \<Rightarrow> bool" where
  "session_counts b since i \<longleftrightarrow> in_buyer_id i = b
     \<and> (in_status i \<noteq> I_closed \<or> not_before since (in_closed_at i))"

definition contract_counts :: "id \<Rightarrow> seconds \<Rightarrow> contract \<Rightarrow> bool" where
  "contract_counts b since c \<longleftrightarrow> c_buyer_id c = b \<and> c_payment_rail c = Credit \<and> not_before since (c_funded_at c)"

definition reservedMinorSince :: "db \<Rightarrow> id \<Rightarrow> millis \<Rightarrow> int" where
  "reservedMinorSince s b since =
     sum_rows (\<lambda>t. t_buyer_id t = b \<and> to_seconds since \<le> t_created_at t \<and> trade_counts t)
       (\<lambda>t. sql_cents (trade_cost t)) (trades s)
   + sum_rows (session_counts b (to_seconds since)) (\<lambda>i. in_budget_minor i - in_refunded_minor i) (instant_sessions s)
   + sum_rows (contract_counts b (to_seconds since)) (\<lambda>c. sql_cents (c_escrow_amount c)) (contracts s)"

text \<open>Today and this month.\<close>

definition buyerPolicyUsage :: "db \<Rightarrow> id \<Rightarrow> millis \<Rightarrow> int \<times> int" where
  "buyerPolicyUsage s b now =
     (reservedMinorSince s b (utc_day_start now), reservedMinorSince s b (utc_month_start now))"

definition enforceBuyerSpendPolicy :: "id \<Rightarrow> spend_context \<Rightarrow> millis \<Rightarrow> unit dbtx" where
  "enforceBuyerSpendPolicy buyerId context now =
     andthen (require (\<not> (case sc_purchaseEvidence context of None \<Rightarrow> False | Some e \<Rightarrow> vp_buyerId e \<noteq> buyerId))
                (BuyerSpendPolicyError ''PURCHASING_BUYER_MISMATCH''))
    (bnd (loadBuyerSpendPolicy buyerId) (\<lambda>loaded. case loaded of None \<Rightarrow> ret ()
       | Some policy \<Rightarrow>
         andthen (case checkBuyerPolicyConstraints policy context of None \<Rightarrow> ret ()
                    | Some reason \<Rightarrow> throw (BuyerSpendPolicyError reason))
        (bnd (asks (\<lambda>s. buyerPolicyUsage s buyerId now)) (\<lambda>usage.
         andthen (require (\<not> above (fst usage + sc_totalMinor context) (bp_max_daily policy))
                    (BuyerSpendPolicyError ''BUYER_DAILY_LIMIT''))
           (require (\<not> above (snd usage + sc_totalMinor context) (bp_max_monthly policy))
                    (BuyerSpendPolicyError ''BUYER_MONTHLY_LIMIT''))))))"

section \<open>Ceilings on agents\<close>

text \<open>
  The deployment: \<open>Number(process.env[...])\<close> of the four limits, \<open>None\<close> where that is
  not finite, and the database's \<open>SUM\<close> over a REAL column, whose rounding is the
  engine's own.
\<close>

record deployment =
  dp_trade_usd :: "num option"
  dp_trade_credits :: "num option"
  dp_daily_usd :: "num option"
  dp_daily_credits :: "num option"
  dp_sum :: "num list \<Rightarrow> num"

definition positiveEnv :: "num option \<Rightarrow> num \<Rightarrow> num" where
  "positiveEnv v fallback = (case v of None \<Rightarrow> fallback | Some x \<Rightarrow> if 0 < x then x else fallback)"

definition perTrade :: "deployment \<Rightarrow> num" where
  "perTrade env = positiveEnv (dp_trade_usd env) (positiveEnv (dp_trade_credits env) 50)"

definition dailyLimit :: "deployment \<Rightarrow> num" where
  "dailyLimit env = positiveEnv (dp_daily_usd env) (positiveEnv (dp_daily_credits env) 200)"

definition spentSince :: "deployment \<Rightarrow> db \<Rightarrow> id \<Rightarrow> millis \<Rightarrow> num" where
  "spentSince env s b since =
     (let spent = dp_sum env (map trade_cost
            (filter (\<lambda>t. t_buyer_id t = b \<and> to_seconds since \<le> t_created_at t \<and> trade_counts t) (trades s)));
          instant = sum_rows (session_counts b (to_seconds since))
            (\<lambda>i. in_budget_minor i - in_refunded_minor i) (instant_sessions s);
          contract = dp_sum env (map c_escrow_amount (filter (contract_counts b (to_seconds since)) (contracts s)))
      in round2 (jadd (jadd spent (of_minor instant)) contract))"

record spend_snapshot =
  ss_agent_id :: id
  ss_per_trade_limit :: num
  ss_daily_limit :: num
  ss_spent_today :: num
  ss_remaining_today :: num
  ss_resets_at :: millis

definition getAgentSpendSnapshot :: "deployment \<Rightarrow> id \<Rightarrow> id \<Rightarrow> millis \<Rightarrow> db \<Rightarrow> spend_snapshot" where
  "getAgentSpendSnapshot env agentId buyerId now s =
     (let spent = spentSince env s buyerId (utc_day_start now) in
      \<lparr>ss_agent_id = agentId, ss_per_trade_limit = perTrade env, ss_daily_limit = dailyLimit env,
       ss_spent_today = spent, ss_remaining_today = round2 (max 0 (jsub (dailyLimit env) spent)),
       ss_resets_at = utc_day_start now + 86400000\<rparr>)"

definition agentFundingPolicyFailure :: "deployment \<Rightarrow> trade \<Rightarrow> millis \<Rightarrow> db \<Rightarrow> string option" where
  "agentFundingPolicyFailure env t now s =
    (if take 11 (t_buyer_id t) \<noteq> agent_prefix then None
     else if perTrade env < t_total_cost t then Some ''AGENT_PER_TRADE_LIMIT''
     else if dailyLimit env < spentSince env s (t_buyer_id t) (utc_day_start now) then Some ''AGENT_DAILY_SPEND_LIMIT''
     else None)"

definition enforceAgentSpendPolicy ::
  "deployment \<Rightarrow> id \<Rightarrow> id \<Rightarrow> num \<Rightarrow> spend_context \<Rightarrow> millis \<Rightarrow> spend_snapshot dbtx" where
  "enforceAgentSpendPolicy env agentId buyerId totalCost context now =
     bnd (asks (getAgentSpendSnapshot env agentId buyerId now)) (\<lambda>policy.
       andthen (require (\<not> perTrade env < totalCost) (AgentSpendPolicyError ''AGENT_PER_TRADE_LIMIT''))
      (andthen (require (\<not> dailyLimit env < round2 (jadd (ss_spent_today policy) totalCost))
                  (AgentSpendPolicyError ''AGENT_DAILY_SPEND_LIMIT''))
      (andthen (enforceBuyerSpendPolicy buyerId (context\<lparr>sc_totalMinor := to_minor totalCost\<rparr>) now)
         (ret policy))))"

section \<open>The database rounds amounts of cents as JavaScript does\<close>

lemma fl_pos: "0 < x \<Longrightarrow> 0 < fl x"
proof -
  assume x: "0 < x"
  then have "\<bar>fl x - x\<bar> \<le> x / 2 ^ 53" using fl_error [of x] by simp
  moreover have "x / 2 ^ 53 < x" using x by (simp add: divide_less_eq)
  ultimately show ?thesis by linarith
qed

lemma of_minor_pos: "0 < n \<Longrightarrow> 0 < of_minor n"
  by (simp add: of_minor_def jdiv_def fl_pos)

lemma minor_error_small:
  assumes "\<bar>n\<bar> \<le> 2 ^ 46"
  shows "\<bar>jmul (of_minor n) 100 - of_int n\<bar> \<le> 1 / 16"
proof -
  define N where "N = (of_int n :: rat)"
  have N: "\<bar>N\<bar> \<le> 2 ^ 46" using assms unfolding N_def by (metis of_int_abs of_int_le_iff of_int_numeral of_int_power)
  have "\<bar>N / 100\<bar> \<le> 2 ^ 46 / 100" using N by simp
  from fl_error_abs [OF this] have e1: "\<bar>fl (N / 100) - N / 100\<bar> \<le> 1 / 12800" by simp
  define y where "y = fl (N / 100) * 100"
  have "y - N = (fl (N / 100) - N / 100) * 100" by (simp add: y_def algebra_simps)
  then have "\<bar>y - N\<bar> = \<bar>fl (N / 100) - N / 100\<bar> * 100" by (simp only: abs_mult abs_numeral)
  also have "\<dots> \<le> 1 / 12800 * 100" using e1 by (rule mult_right_mono) simp
  finally have y: "\<bar>y - N\<bar> \<le> 1 / 128" by simp
  then have "\<bar>y\<bar> \<le> 2 ^ 46 + 1" using N by linarith
  from fl_error_abs [OF this] have "\<bar>fl y - y\<bar> \<le> 1 / 64" by simp
  with y have "\<bar>fl y - N\<bar> \<le> 1 / 16" by linarith
  then show ?thesis by (simp add: jmul_def of_minor_def jdiv_def N_def y_def)
qed

lemma sql_cents_of_minor:
  assumes "0 \<le> n" and "n \<le> 2 ^ 46"
  shows "sql_cents (of_minor n) = n"
proof (cases "n = 0")
  case True
  have "\<bar>fl (1 / 2) - 1 / 2\<bar> \<le> 2 ^ 50 / 2 ^ 53" by (rule fl_error_abs) simp
  then have "\<bar>fl (1 / 2) - 1 / 2\<bar> \<le> 1 / 8" by simp
  then have "0 \<le> fl (1 / 2)" "fl (1 / 2) < 1" by linarith+
  then have "\<not> fl (1 / 2) < 0" "\<lfloor>fl (1 / 2)\<rfloor> = 0" by (auto intro: floor_unique)
  moreover have "fl 0 = 0" by (simp add: fl_def)
  ultimately show ?thesis using True
    by (simp add: sql_cents_def sql_round_def cut_off_def of_minor_def jmul_def jdiv_def jadd_def)
next
  case False
  with assms have n: "1 \<le> n" "\<bar>n\<bar> \<le> 2 ^ 46" by auto
  define y where "y = jmul (of_minor n) 100"
  have N: "1 \<le> (of_int n :: rat)" "(of_int n :: rat) \<le> 2 ^ 46"
    using n(1) assms(2) by (metis of_int_1 of_int_le_iff, metis of_int_le_iff of_int_numeral of_int_power)
  have y: "\<bar>y - of_int n\<bar> \<le> 1 / 16" unfolding y_def by (rule minor_error_small [OF n(2)])
  moreover have "(2 :: rat) ^ 46 + 1 \<le> 2 ^ 52" by simp
  ultimately have small: "0 < y" "\<bar>y\<bar> \<le> 2 ^ 52" "\<bar>y + 1 / 2\<bar> \<le> 2 ^ 46 + 1" using N by linarith+
  from fl_error_abs [OF small(3)] have "\<bar>fl (y + 1 / 2) - (y + 1 / 2)\<bar> \<le> 1 / 64" by simp
  then have "of_int n \<le> fl (y + 1 / 2)" "fl (y + 1 / 2) < of_int n + 1" using y by linarith+
  then have "\<lfloor>fl (y + 1 / 2)\<rfloor> = n" "\<not> fl (y + 1 / 2) < 0" using N by (auto intro: floor_unique)
  then show ?thesis using small by (simp add: sql_cents_def sql_round_def cut_off_def jadd_def flip: y_def)
qed

section \<open>What the checks establish\<close>

text \<open>The policy as a specification: each rule it states, in any order.\<close>

definition in_limit :: "int \<Rightarrow> int option \<Rightarrow> bool" where
  "in_limit x limit \<longleftrightarrow> (\<forall>l \<in> set_option limit. x \<le> l)"

definition permitted :: "buyer_policy \<Rightarrow> spend_context \<Rightarrow> bool" where
  "permitted p c \<longleftrightarrow>
     in_limit (sc_totalMinor c) (bp_max_per_execution p)
   \<and> (in_limit (sc_totalMinor c) (bp_approval_required_above p) \<or> purchaseThresholdSatisfied (sc_purchaseEvidence c) c)
   \<and> (\<forall>r \<in> set_option (sc_retrySpendMinor c). in_limit r (bp_max_retry_budget p))
   \<and> (\<forall>rails \<in> set_option (bp_approved_payment_rails p). \<exists>r \<in> set rails. sc_paymentRail c = Some r)
   \<and> (\<forall>ps \<in> set_option (bp_approved_providers p). \<exists>v. sc_sellerId c = Some v \<and> v \<noteq> [] \<and> providerMatches ps v)
   \<and> (\<forall>ps \<in> set_option (bp_blocked_providers p). \<forall>v. sc_sellerId c = Some v \<and> v \<noteq> [] \<longrightarrow> \<not> providerMatches ps v)
   \<and> (\<forall>cs \<in> set_option (bp_allowed_capabilities p). \<exists>xs. sc_capabilities c = Some xs \<and> set xs \<subseteq> set cs)
   \<and> (\<forall>cs \<in> set_option (bp_blocked_capabilities p). \<forall>xs \<in> set_option (sc_capabilities c). set xs \<inter> set cs = {})
   \<and> (\<forall>ms \<in> set_option (bp_required_verification_methods p).
        \<exists>vs. sc_verificationMethods c = Some vs \<and> set ms \<subseteq> set vs)"

lemma in_limit_mono: "x \<le> y \<Longrightarrow> in_limit y l \<Longrightarrow> in_limit x l"
  by (auto simp: in_limit_def)

lemma not_above: "\<not> above x l \<longleftrightarrow> in_limit x l"
  by (cases l) (auto simp: above_def in_limit_def)

lemma policy_check_is_the_policy_fact:
  "checkBuyerPolicyConstraints p c = None \<longleftrightarrow> permitted p c"
proof -
  have rails: "(case bp_approved_payment_rails p of None \<Rightarrow> False
        | Some rails \<Rightarrow> (case sc_paymentRail c of None \<Rightarrow> True | Some r \<Rightarrow> r \<notin> set rails))
     \<longleftrightarrow> \<not> (\<forall>rails \<in> set_option (bp_approved_payment_rails p). \<exists>r \<in> set rails. sc_paymentRail c = Some r)"
    by (auto split: option.splits)
  have approved: "(case bp_approved_providers p of None \<Rightarrow> False
        | Some ps \<Rightarrow> \<not> truthy (sc_sellerId c) \<or> \<not> providerMatches ps (the (sc_sellerId c)))
     \<longleftrightarrow> \<not> (\<forall>ps \<in> set_option (bp_approved_providers p). \<exists>v. sc_sellerId c = Some v \<and> v \<noteq> [] \<and> providerMatches ps v)"
    by (auto simp: truthy_def split: option.splits)
  have blocked: "(case bp_blocked_providers p of None \<Rightarrow> False
        | Some ps \<Rightarrow> truthy (sc_sellerId c) \<and> providerMatches ps (the (sc_sellerId c)))
     \<longleftrightarrow> \<not> (\<forall>ps \<in> set_option (bp_blocked_providers p). \<forall>v. sc_sellerId c = Some v \<and> v \<noteq> [] \<longrightarrow> \<not> providerMatches ps v)"
    by (auto simp: truthy_def split: option.splits)
  have caps: "(case bp_allowed_capabilities p of None \<Rightarrow> False
        | Some cs \<Rightarrow> (case sc_capabilities c of None \<Rightarrow> True | Some xs \<Rightarrow> \<not> list_all (\<lambda>x. x \<in> set cs) xs))
     \<longleftrightarrow> \<not> (\<forall>cs \<in> set_option (bp_allowed_capabilities p). \<exists>xs. sc_capabilities c = Some xs \<and> set xs \<subseteq> set cs)"
    by (auto simp: list_all_iff split: option.splits)
  have no_caps: "(case bp_blocked_capabilities p of None \<Rightarrow> False
        | Some cs \<Rightarrow> (case sc_capabilities c of None \<Rightarrow> False | Some xs \<Rightarrow> list_ex (\<lambda>x. x \<in> set cs) xs))
     \<longleftrightarrow> \<not> (\<forall>cs \<in> set_option (bp_blocked_capabilities p). \<forall>xs \<in> set_option (sc_capabilities c). set xs \<inter> set cs = {})"
    by (auto simp: list_ex_iff split: option.splits)
  have methods: "(case bp_required_verification_methods p of None \<Rightarrow> False
        | Some ms \<Rightarrow> (case sc_verificationMethods c of None \<Rightarrow> True | Some vs \<Rightarrow> \<not> list_all (\<lambda>m. m \<in> set vs) ms))
     \<longleftrightarrow> \<not> (\<forall>ms \<in> set_option (bp_required_verification_methods p).
        \<exists>vs. sc_verificationMethods c = Some vs \<and> set ms \<subseteq> set vs)"
    by (auto simp: list_all_iff split: option.splits)
  have retry: "(case sc_retrySpendMinor c of None \<Rightarrow> False | Some r \<Rightarrow> above r (bp_max_retry_budget p))
     \<longleftrightarrow> \<not> (\<forall>r \<in> set_option (sc_retrySpendMinor c). in_limit r (bp_max_retry_budget p))"
    by (auto simp: not_above [symmetric] split: option.splits)
  show ?thesis
    unfolding checkBuyerPolicyConstraints_def permitted_def rails approved blocked caps no_caps methods retry
      not_above [symmetric]
    by (simp split: if_split) blast
qed


text \<open>What a check that passed must have found.\<close>

lemma loadBuyerSpendPolicy_run:
  "loadBuyerSpendPolicy b s = Inr (l, s') \<longleftrightarrow> s' = s \<and>
     (case find (\<lambda>r. bs_buyer_id r = b) (buyer_spend_policies s) of
        None \<Rightarrow> l = None
      | Some r \<Rightarrow> \<exists>p. buyerSpendPolicyInput (policyToPublic (bs_policy r)) = Some p \<and> l = Some p)"
  by (auto simp: loadBuyerSpendPolicy_def bnd_run split: option.splits)

lemma enforceBuyer_run:
  "enforceBuyerSpendPolicy b c now s = Inr (x, s') \<longleftrightarrow> s' = s
     \<and> (\<forall>e \<in> set_option (sc_purchaseEvidence c). vp_buyerId e = b)
     \<and> (\<exists>l. loadBuyerSpendPolicy b s = Inr (l, s) \<and> (\<forall>p \<in> set_option l. permitted p c
           \<and> in_limit (reservedMinorSince s b (utc_day_start now) + sc_totalMinor c) (bp_max_daily p)
           \<and> in_limit (reservedMinorSince s b (utc_month_start now) + sc_totalMinor c) (bp_max_monthly p)))"
proof -
  have check: "(case checkBuyerPolicyConstraints p c of None \<Rightarrow> ret () | Some reason \<Rightarrow> throw (BuyerSpendPolicyError reason)) s
      = Inr q \<longleftrightarrow> permitted p c \<and> q = ((), s)" for p s and q :: "unit \<times> db"
    using policy_check_is_the_policy_fact [of p c] by (auto split: option.splits)
  show ?thesis
    unfolding enforceBuyerSpendPolicy_def
    by (auto simp: bnd_run andthen_run loadBuyerSpendPolicy_run check buyerPolicyUsage_def not_above
        split: option.splits)
qed

text \<open>Nothing below zero: costs are amounts, and no session returned more than its budget.\<close>

definition exposures_ok :: "db \<Rightarrow> bool" where
  "exposures_ok s \<longleftrightarrow> (\<forall>t \<in> set (trades s). 0 \<le> sql_cents (trade_cost t))
     \<and> (\<forall>i \<in> set (instant_sessions s). in_refunded_minor i \<le> in_budget_minor i)
     \<and> (\<forall>c \<in> set (contracts s). 0 \<le> sql_cents (c_escrow_amount c))"

lemma sum_rows_mono:
  fixes v :: "'r \<Rightarrow> int"
  assumes "\<And>r. r \<in> set rs \<Longrightarrow> p r \<Longrightarrow> q r" and "\<And>r. r \<in> set rs \<Longrightarrow> q r \<Longrightarrow> 0 \<le> v r"
  shows "sum_rows p v rs \<le> sum_rows q v rs"
  using assms by (induction rs) fastforce+

lemma reservedMinorSince_mono:
  assumes "exposures_ok s" and "since \<le> later"
  shows "reservedMinorSince s b later \<le> reservedMinorSince s b since"
proof -
  have le: "to_seconds since \<le> to_seconds later" by (rule to_seconds_mono [OF assms(2)])
  then have nb: "not_before (to_seconds later) v \<Longrightarrow> not_before (to_seconds since) v" for v
    by (auto simp: not_before_def split: option.splits)
  show ?thesis unfolding reservedMinorSince_def
    by (intro add_mono sum_rows_mono)
       (use assms(1) le nb in \<open>auto simp: exposures_ok_def session_counts_def contract_counts_def\<close>)
qed

definition policy_of :: "db \<Rightarrow> id \<Rightarrow> buyer_policy option" where
  "policy_of s b = (case find (\<lambda>r. bs_buyer_id r = b) (buyer_spend_policies s) of
     None \<Rightarrow> None | Some r \<Rightarrow> buyerSpendPolicyInput (policyToPublic (bs_policy r)))"

lemma enforceBuyer_limits:
  assumes "enforceBuyerSpendPolicy b c now s = Inr (x, s')" and "policy_of s b = Some p"
  shows "s' = s" and "permitted p c"
    and "in_limit (reservedMinorSince s b (utc_day_start now) + sc_totalMinor c) (bp_max_daily p)"
    and "in_limit (reservedMinorSince s b (utc_month_start now) + sc_totalMinor c) (bp_max_monthly p)"
  using assms by (auto simp: enforceBuyer_run policy_of_def loadBuyerSpendPolicy_run split: option.splits)

text \<open>
  C35. A buyer never reserves past a limit: once the policy check let a purchase
  through and the purchase is recorded, everything reserved since midnight is
  within the daily limit, everything since the first of the month within the
  monthly one, and today's usage never exceeds the month's.
\<close>

theorem buyer_limits_hold_after_purchase:
  assumes "exposures_ok s" and "enforceBuyerSpendPolicy b c now s = Inr (x, s1)" and "policy_of s b = Some p"
    and "t_buyer_id t = b" and "sql_cents (trade_cost t) = sc_totalMinor c" and "0 \<le> sc_totalMinor c"
  shows "let after = s1\<lparr>trades := trades s1 @ [t]\<rparr> in
      in_limit (reservedMinorSince after b (utc_day_start now)) (bp_max_daily p)
    \<and> in_limit (reservedMinorSince after b (utc_month_start now)) (bp_max_monthly p)
    \<and> fst (buyerPolicyUsage s b now) \<le> snd (buyerPolicyUsage s b now)
    \<and> in_limit (sc_totalMinor c) (bp_max_per_execution p)"
proof -
  note q = enforceBuyer_limits [OF assms(2,3)]
  have new: "reservedMinorSince (s\<lparr>trades := trades s @ [t]\<rparr>) b since \<le> reservedMinorSince s b since + sc_totalMinor c"
    for since using assms(4-6) by (simp add: reservedMinorSince_def)
  have "reservedMinorSince s b (utc_day_start now) \<le> reservedMinorSince s b (utc_month_start now)"
    by (rule reservedMinorSince_mono [OF assms(1) utc_month_le_day])
  moreover have "in_limit (sc_totalMinor c) (bp_max_per_execution p)" using q(2) by (simp add: permitted_def)
  ultimately show ?thesis
    using in_limit_mono [OF new q(3)] in_limit_mono [OF new q(4)] q(1) by (simp add: buyerPolicyUsage_def Let_def)
qed

lemma absent_field [simp]: "opt_parse f None = Some None" "list_input g lo hi None = Some None"
  by (simp_all add: opt_parse_def list_input_def)

lemma opt_parse_cents: "opt_parse (parse_cents 10) (map_option format_cents v) = Some v"
  if "\<forall>n \<in> set_option v. 0 \<le> n \<and> n < 10 ^ 12"
  using that parse_format_cents_fact [of 10] by (cases v) (simp_all add: opt_parse_def)

definition cautious_policy :: buyer_policy where
  "cautious_policy = \<lparr>bp_max_per_execution = Some 5000, bp_max_daily = Some 8000, bp_max_monthly = Some 20000,
     bp_max_retry_budget = None, bp_approval_required_above = None, bp_allowed_capabilities = None,
     bp_blocked_capabilities = None, bp_approved_providers = Some [''a1''], bp_blocked_providers = None,
     bp_approved_payment_rails = Some [Credit], bp_required_verification_methods = None,
     bp_has_provider_requirements = False\<rparr>"

lemma cautious_policy_text: "buyerSpendPolicyInput (policyToPublic cautious_policy) = Some cautious_policy"
proof -
  have "list_input provider_input 0 100 (Some [''a1'']) = Some (Some [''a1''])"
    "list_input Some 1 4 (Some [Credit]) = Some (Some [Credit])"
    by (simp_all add: list_input_def opt_parse_def provider_input_def check_list_def)
  moreover have "opt_parse (parse_cents 10) (Some (format_cents n)) = Some (Some n)" if "0 \<le> n" "n < 10 ^ 12" for n
    using opt_parse_cents [of "Some n"] that by simp
  ultimately show ?thesis
    by (simp add: buyerSpendPolicyInput_def policyToPublic_def cautious_policy_def)
qed

definition spend_context_1 :: spend_context where
  "spend_context_1 = \<lparr>sc_purchaseEvidence = None, sc_totalMinor = 4000, sc_sellerId = Some ''user_agent_a1'',
     sc_capabilities = None, sc_paymentRail = Some Credit, sc_verificationMethods = None,
     sc_retrySpendMinor = None\<rparr>"

lemma enforce_cautious:
  assumes "trades s = []" "instant_sessions s = []" "contracts s = []"
    and "buyer_spend_policies s = [\<lparr>bs_buyer_id = ''b'', bs_policy = cautious_policy\<rparr>]"
  shows "enforceBuyerSpendPolicy ''b'' spend_context_1 0 s = Inr ((), s)" and "policy_of s ''b'' = Some cautious_policy"
proof -
  have "permitted cautious_policy spend_context_1"
    by (simp add: permitted_def in_limit_def cautious_policy_def spend_context_1_def providerMatches_def agent_prefix_def)
  then show "enforceBuyerSpendPolicy ''b'' spend_context_1 0 s = Inr ((), s)"
    by (simp add: enforceBuyer_run loadBuyerSpendPolicy_run assms cautious_policy_text)
       (simp add: reservedMinorSince_def assms in_limit_def cautious_policy_def spend_context_1_def)
  show "policy_of s ''b'' = Some cautious_policy" by (simp add: policy_of_def assms cautious_policy_text)
qed


lemma buyer_limits_hold_after_purchase_witness:
  "\<exists>s t x. enforceBuyerSpendPolicy ''b'' spend_context_1 0 s = Inr (x, s)
     \<and> in_limit (reservedMinorSince (s\<lparr>trades := trades s @ [t]\<rparr>) ''b'' (utc_day_start 0)) (Some 8000)"
proof -
  define s where "s = empty_db\<lparr>buyer_spend_policies := [\<lparr>bs_buyer_id = ''b'', bs_policy = cautious_policy\<rparr>]\<rparr>"
  have e: "trades s = []" "instant_sessions s = []" "contracts s = []"
    "buyer_spend_policies s = [\<lparr>bs_buyer_id = ''b'', bs_policy = cautious_policy\<rparr>]"
    by (simp_all add: s_def empty_db_def)
  obtain t :: trade where t: "t_buyer_id t = ''b''" "t_total_cost t = of_minor 4000"
    by (metis trade.select_convs(3) trade.select_convs(9))
  have "0 < of_minor 4000" by (rule of_minor_pos) simp
  then have "sql_cents (trade_cost t) = sc_totalMinor spend_context_1"
    using sql_cents_of_minor [of 4000] by (simp add: trade_cost_def t spend_context_1_def)
  moreover have "exposures_ok s" by (simp add: exposures_ok_def e)
  moreover have "0 \<le> sc_totalMinor spend_context_1" by (simp add: spend_context_1_def)
  ultimately show ?thesis
    using buyer_limits_hold_after_purchase [OF _ enforce_cautious(1) [OF e] enforce_cautious(2) [OF e] t(1)]
      enforce_cautious(1) [OF e]
    by (intro exI [of _ s] exI [of _ t] exI [of _ "()"]) (simp add: Let_def cautious_policy_def)
qed








lemma same_enforceBuyer: "same (\<lambda>s. s) (enforceBuyerSpendPolicy b c now)"
  by (rule sameI) (simp add: enforceBuyer_run)

lemma enforceAgent_run:
  "enforceAgentSpendPolicy env a b cost c now s = Inr (x, s') \<longleftrightarrow>
     s' = s \<and> x = getAgentSpendSnapshot env a b now s \<and> cost \<le> perTrade env
   \<and> round2 (jadd (spentSince env s b (utc_day_start now)) cost) \<le> dailyLimit env
   \<and> enforceBuyerSpendPolicy b (c\<lparr>sc_totalMinor := to_minor cost\<rparr>) now s = Inr ((), s)"
  by (auto simp: enforceAgentSpendPolicy_def bnd_run andthen_run getAgentSpendSnapshot_def Let_def
      dest: sameD [OF same_enforceBuyer])

text \<open>
  An agent never spends past the deployment's ceilings: they are positive
  whatever the environment says, a purchase is let through only when it is
  within the ceiling per trade, today's total with it is within the daily one
  and the owner's policy permits it, and the check itself changes nothing.
\<close>

theorem agent_ceilings_enforced:
  assumes "enforceAgentSpendPolicy env a b cost c now s = Inr (snapshot, s')"
  shows "s' = s \<and> 0 < ss_per_trade_limit snapshot \<and> 0 < ss_daily_limit snapshot
    \<and> cost \<le> ss_per_trade_limit snapshot
    \<and> round2 (jadd (ss_spent_today snapshot) cost) \<le> ss_daily_limit snapshot
    \<and> (\<forall>p \<in> set_option (policy_of s b). permitted p (c\<lparr>sc_totalMinor := to_minor cost\<rparr>)
         \<and> in_limit (reservedMinorSince s b (utc_day_start now) + to_minor cost) (bp_max_daily p))
    \<and> now < ss_resets_at snapshot \<and> ss_resets_at snapshot \<le> now + 86400000"
proof -
  from assms have r: "s' = s" "snapshot = getAgentSpendSnapshot env a b now s" "cost \<le> perTrade env"
    "round2 (jadd (spentSince env s b (utc_day_start now)) cost) \<le> dailyLimit env"
    and e: "enforceBuyerSpendPolicy b (c\<lparr>sc_totalMinor := to_minor cost\<rparr>) now s = Inr ((), s)"
    by (auto simp: enforceAgent_run)
  have pos: "0 < perTrade env" "0 < dailyLimit env"
    by (auto simp: perTrade_def dailyLimit_def positiveEnv_def split: option.splits)
  have pol: "permitted p (c\<lparr>sc_totalMinor := to_minor cost\<rparr>)
      \<and> in_limit (reservedMinorSince s b (utc_day_start now) + to_minor cost) (bp_max_daily p)"
    if "policy_of s b = Some p" for p
    using enforceBuyer_limits(2,3) [OF e that] by simp
  show ?thesis using r pos pol utc_day_bounds [of now]
    by (auto simp: getAgentSpendSnapshot_def Let_def)
qed

text \<open>A deployment with the default ceilings and a database that adds exactly.\<close>

definition plain_deployment :: deployment where
  "plain_deployment = \<lparr>dp_trade_usd = None, dp_trade_credits = None, dp_daily_usd = None, dp_daily_credits = None,
     dp_sum = sum_list\<rparr>"

lemma agent_ceilings_enforced_witness:
  "\<exists>x. enforceAgentSpendPolicy plain_deployment ''a1'' ''user_agent_a1'' 20 spend_context_1 0 empty_db = Inr (x, empty_db)
     \<and> ss_per_trade_limit x = 50 \<and> 20 \<le> ss_per_trade_limit x"
proof -
  have z: "fl 0 = 0" "\<lfloor>1 / 2 :: rat\<rfloor> = 0" by (simp_all add: fl_def floor_unique)
  have spent: "spentSince plain_deployment empty_db ''user_agent_a1'' d = 0" for d
    by (simp add: spentSince_def empty_db_def plain_deployment_def jadd_def of_minor_def jdiv_def z
        round2_def jmul_def jround_def)
  have limits: "perTrade plain_deployment = 50" "dailyLimit plain_deployment = 200" "buyer_spend_policies empty_db = []"
    by (simp_all add: perTrade_def dailyLimit_def positiveEnv_def plain_deployment_def empty_db_def)
  have "fl 20 = 20" using fl_of_int [of 20] by simp
  then have "round2 (jadd 0 20) \<le> 200"
    using to_minor_numeral [of "num.Bit0 (num.Bit0 (num.Bit1 (num.Bit0 num.One)))"]
    by (simp add: jadd_def round2_minor of_minor_def jdiv_def)
  then have "enforceAgentSpendPolicy plain_deployment ''a1'' ''user_agent_a1'' 20 spend_context_1 0 empty_db
      = Inr (getAgentSpendSnapshot plain_deployment ''a1'' ''user_agent_a1'' 0 empty_db, empty_db)"
    by (simp add: enforceAgent_run spent limits enforceBuyer_run loadBuyerSpendPolicy_run spend_context_1_def)
  with agent_ceilings_enforced [OF this] show ?thesis
    by (simp add: getAgentSpendSnapshot_def Let_def perTrade_def positiveEnv_def plain_deployment_def)
qed

end
