(* ===== verification/OrgBudgets.thy ===== *)
theory OrgBudgets
  imports SpendPolicy
begin

text \<open>
  Budgets of organizations and of their teams (\<open>lib/organization-budgets.ts\<close>,
  \<open>lib/organization-team-budgets.ts\<close>): forms, versioned updates with their audit
  trail, the exposure that counts against a budget, and the checks at purchase
  and at funding.  A write lock in the worker and the retry after a busy database
  do not change what a transaction does and are not modelled.

  Both budgets are cells with a version that a writer must name; the locale
  \<open>versioned_budget\<close> states that contract and is interpreted for both.
\<close>

section \<open>Forms\<close>

definition dollars :: "string \<Rightarrow> int option" where
  "dollars v = (case parse_cents 9 v of None \<Rightarrow> None
     | Some n \<Rightarrow> if 0 < n \<and> safe_int n then Some n else None)"

definition organizationBudgetInput ::
  "int \<times> string option \<times> string option \<times> string option \<Rightarrow> (int \<times> limits) option" where
  "organizationBudgetInput form = (case form of (expected, per, daily, monthly) \<Rightarrow>
     if 0 \<le> expected \<and> safe_int expected
     then Option.bind (opt_parse dollars per) (\<lambda>p. Option.bind (opt_parse dollars daily) (\<lambda>d.
            Option.bind (opt_parse dollars monthly) (\<lambda>m. Some (expected, p, d, m))))
     else None)"

definition organizationBudgetDto :: "spend_budget \<Rightarrow> int \<times> string option \<times> string option \<times> string option" where
  "organizationBudgetDto b = (sb_version b, map_option format_cents (sb_max_per_execution_minor b),
     map_option format_cents (sb_max_daily_minor b), map_option format_cents (sb_max_monthly_minor b))"

section \<open>Updating an organization's budget\<close>


definition sb_limits :: "spend_budget \<Rightarrow> limits" where
  "sb_limits b = (sb_max_per_execution_minor b, sb_max_daily_minor b, sb_max_monthly_minor b)"

definition set_sb_limits :: "limits \<Rightarrow> int \<Rightarrow> seconds \<Rightarrow> spend_budget \<Rightarrow> spend_budget" where
  "set_sb_limits l v now b = b\<lparr>sb_max_per_execution_minor := fst l, sb_max_daily_minor := fst (snd l),
     sb_max_monthly_minor := snd (snd l), sb_version := v, sb_updated_at := now\<rparr>"

definition budget_of :: "db \<Rightarrow> id \<Rightarrow> spend_budget option" where
  "budget_of s org = find (\<lambda>b. sb_organization_id b = org) (organization_spend_budgets s)"



section \<open>Updating a team's budget\<close>

definition tb_limits :: "team_budget \<Rightarrow> limits" where
  "tb_limits b = (tb_max_per_execution_minor b, tb_max_daily_minor b, tb_max_monthly_minor b)"

definition set_tb_limits :: "limits \<Rightarrow> int \<Rightarrow> seconds \<Rightarrow> team_budget \<Rightarrow> team_budget" where
  "set_tb_limits l v now b = b\<lparr>tb_max_per_execution_minor := fst l, tb_max_daily_minor := fst (snd l),
     tb_max_monthly_minor := snd (snd l), tb_version := v, tb_updated_at := now\<rparr>"

definition validTeamBudget :: "team_budget \<Rightarrow> id \<Rightarrow> bool" where
  "validTeamBudget b org \<longleftrightarrow> \<not> (tb_organization_id b \<noteq> org \<or> \<not> safe_int (tb_version b) \<or> tb_version b < 1
     \<or> list_ex (\<lambda>v. case v of None \<Rightarrow> False | Some n \<Rightarrow> \<not> safe_int n \<or> n \<le> 0)
         [tb_max_per_execution_minor b, tb_max_daily_minor b, tb_max_monthly_minor b])"

definition ownedBudgetTeam :: "db \<Rightarrow> id \<Rightarrow> id \<Rightarrow> id \<Rightarrow> team option" where
  "ownedBudgetTeam s org teamId owner = find (\<lambda>t. te_id t = teamId \<and> te_organization_id t = org
     \<and> (\<exists>x \<in> set (organizations s). o_id x = org \<and> o_owner_account_id x = owner)) (organization_teams s)"

definition team_budget_of :: "db \<Rightarrow> id \<Rightarrow> team_budget option" where
  "team_budget_of s teamId = find (\<lambda>b. tb_team_id b = teamId) (organization_team_budgets s)"

definition updateTeamBudget :: "seconds \<Rightarrow> id \<Rightarrow> id \<Rightarrow> id \<Rightarrow> int \<Rightarrow> limits \<Rightarrow> (team_budget \<times> bool) dbtx" where
  "updateTeamBudget now org teamId owner expected lims =
    bnd (asks (\<lambda>s. ownedBudgetTeam s org teamId owner)) (\<lambda>found.
    bnd (some_or (TeamBudgetError ''TEAM_NOT_FOUND'' 404) found) (\<lambda>team.
    andthen (require (te_active team) (TeamBudgetError ''TEAM_ARCHIVED'' 409))
   (bnd (asks (\<lambda>s. team_budget_of s teamId)) (\<lambda>current.
    andthen (case current of None \<Rightarrow> ret ()
               | Some b \<Rightarrow> require (validTeamBudget b org) (TeamBudgetError ''TEAM_BUDGET_INVALID'' 409))
   (if map_option tb_limits current = Some lims then ret (the current, True) else
    andthen (require ((case current of None \<Rightarrow> 0 | Some b \<Rightarrow> tb_version b) = expected)
               (TeamBudgetError ''TEAM_BUDGET_VERSION_CONFLICT'' 409))
   (bnd (case current of
        Some _ \<Rightarrow> update_where organization_team_budgets organization_team_budgets_update
          (\<lambda>b. tb_team_id b = teamId \<and> tb_version b = expected) (set_tb_limits lims (expected + 1) now)
      | None \<Rightarrow>
          (let row = \<lparr>tb_team_id = teamId, tb_organization_id = org, tb_max_per_execution_minor = fst lims,
             tb_max_daily_minor = fst (snd lims), tb_max_monthly_minor = snd (snd lims),
             tb_version = expected + 1, tb_created_at = now, tb_updated_at = now\<rparr> in
           andthen (insert_row organization_team_budgets organization_team_budgets_update
             (\<lambda>b. tb_team_id b = teamId) (SqlError ''UNIQUE organization_team_budgets'') row) (ret [row])))
    (\<lambda>rows. bnd (first_or (TeamBudgetError ''TEAM_BUDGET_VERSION_CONFLICT'' 409) rows) (\<lambda>row.
     andthen (append_row organization_budget_events organization_budget_events_update \<lparr>be_organization_id = org, be_team_id = Some teamId, be_actor_account_id = owner,
         be_version = tb_version row, be_old = map_option tb_limits current, be_new = tb_limits row,
         be_created_at = now\<rparr>)
    (andthen (append_row organization_audit_events organization_audit_events_update \<lparr>ae_organization_id = org, ae_actor_account_id = owner,
         ae_action = ''team_budget_updated'', ae_team_id = Some teamId, ae_created_at = now\<rparr>)
       (ret (row, False)))))))))))"

section \<open>Versioned cells\<close>

text \<open>
  A budget as its writers see it: the version and limits that are current, and a
  write that names the version it read.  The answer of a write that went through
  is the version that is now current and whether it was a replay.
\<close>

locale versioned_budget =
  fixes current :: "'s \<Rightarrow> (int \<times> 'l) option"
    and may_write :: "'s \<Rightarrow> bool"
    and form_ok :: "int \<Rightarrow> 'l \<Rightarrow> bool"
    and put :: "'n \<Rightarrow> int \<Rightarrow> 'l \<Rightarrow> 's \<Rightarrow> (int \<times> bool \<times> 's) option"
  assumes replay_law: "put n expected l s = Some (v, True, s') \<Longrightarrow> s' = s \<and> current s = Some (v, l)"
    and fresh_law: "put n expected l s = Some (v, False, s') \<Longrightarrow>
          (case current s of None \<Rightarrow> expected = 0 | Some c \<Rightarrow> fst c = expected \<and> snd c \<noteq> l)
          \<and> v = expected + 1 \<and> current s' = Some (v, l)"
    and may_law: "put n expected l s = Some (v, False, s') \<Longrightarrow> form_ok expected l \<Longrightarrow> may_write s'"
    and same_law: "may_write s \<Longrightarrow> current s = Some (v, l) \<Longrightarrow> put n expected l s = Some (v, True, s)"
begin

text \<open>No update is lost: a second writer who read the same version cannot overwrite the first.\<close>

lemma no_lost_update:
  assumes "put n expected l s = Some (v, False, s1)" and "put n' expected l' s1 = Some (v', replay, s2)"
  shows "replay \<and> l' = l \<and> s2 = s1 \<and> v' = v"
proof -
  note f = fresh_law [OF assms(1)]
  show ?thesis
  proof (cases replay)
    case True
    with replay_law [of n' expected l' s1 v' s2] assms(2) f show ?thesis by simp
  next
    case False
    with fresh_law [of n' expected l' s1 v' s2] assms(2) f show ?thesis by simp
  qed
qed

text \<open>Repeating a write that went through is answered and changes nothing.\<close>

lemma repeat_is_replay:
  assumes "put n expected l s = Some (v, False, s1)" and "form_ok expected l"
  shows "put n' e' l s1 = Some (v, True, s1)"
  using fresh_law [OF assms(1)] may_law [OF assms] by (simp add: same_law)

end




lemma sb_limits_set [simp]: "sb_limits (set_sb_limits l v now b) = l" "sb_version (set_sb_limits l v now b) = v"
  "sb_organization_id (set_sb_limits l v now b) = sb_organization_id b"
  by (simp_all add: sb_limits_def set_sb_limits_def)







definition team_current :: "id \<Rightarrow> db \<Rightarrow> (int \<times> limits) option" where
  "team_current teamId s = map_option (\<lambda>b. (tb_version b, tb_limits b)) (team_budget_of s teamId)"

definition team_write :: "id \<Rightarrow> id \<Rightarrow> id \<Rightarrow> seconds \<Rightarrow> int \<Rightarrow> limits \<Rightarrow> db \<Rightarrow> (int \<times> bool \<times> db) option" where
  "team_write org teamId owner now expected l s = (case updateTeamBudget now org teamId owner expected l s of
     Inr ((b, replay), s') \<Rightarrow> Some (tb_version b, replay, s') | Inl _ \<Rightarrow> None)"

definition team_writable :: "id \<Rightarrow> id \<Rightarrow> id \<Rightarrow> db \<Rightarrow> bool" where
  "team_writable org teamId owner s \<longleftrightarrow> (\<exists>t. ownedBudgetTeam s org teamId owner = Some t \<and> te_active t)
     \<and> (\<forall>b. team_budget_of s teamId = Some b \<longrightarrow> validTeamBudget b org)"

text \<open>What the form lets through: positive whole cents, and a version that can still grow.\<close>

definition limits_ok :: "int \<Rightarrow> limits \<Rightarrow> bool" where
  "limits_ok expected l \<longleftrightarrow> 0 \<le> expected \<and> safe_int (expected + 1)
     \<and> list_all (\<lambda>v. case v of None \<Rightarrow> True | Some n \<Rightarrow> safe_int n \<and> 0 < n) [fst l, fst (snd l), snd (snd l)]"

lemma tb_limits_set [simp]: "tb_limits (set_tb_limits l v now b) = l" "tb_version (set_tb_limits l v now b) = v"
  "tb_team_id (set_tb_limits l v now b) = tb_team_id b"
  "tb_organization_id (set_tb_limits l v now b) = tb_organization_id b"
  by (simp_all add: tb_limits_def set_tb_limits_def)

lemma validTeamBudget_new:
  assumes "limits_ok expected (tb_limits b)" and "tb_version b = expected + 1" and "tb_organization_id b = org"
  shows "validTeamBudget b org"
  using assms by (auto simp: limits_ok_def validTeamBudget_def tb_limits_def split: option.splits)

lemma updateTeamBudget_run:
  assumes "updateTeamBudget now org teamId owner expected l s = Inr ((b, replay), s')"
  shows "team_writable org teamId owner s \<and>
    (if map_option tb_limits (team_budget_of s teamId) = Some l
     then replay \<and> s' = s \<and> team_budget_of s teamId = Some b
     else \<not> replay \<and> expected = (case team_budget_of s teamId of None \<Rightarrow> 0 | Some c \<Rightarrow> tb_version c)
       \<and> team_budget_of s' teamId = Some b \<and> tb_version b = expected + 1 \<and> tb_limits b = l
       \<and> tb_organization_id b = org
       \<and> organizations s' = organizations s \<and> organization_teams s' = organization_teams s)"
proof (cases "team_budget_of s teamId")
  case None
  then show ?thesis
    using assms
    by (auto simp: updateTeamBudget_def run_simps team_budget_of_def find_append tb_limits_def Let_def
        team_writable_def split: if_splits)
next
  case (Some c)
  let ?p = "\<lambda>b. tb_team_id b = teamId" and ?q = "\<lambda>b. tb_team_id b = teamId \<and> tb_version b = tb_version c"
  have c: "find ?p (organization_team_budgets s) = Some c" using Some by (simp add: team_budget_of_def)
  have "?q c" using find_Some_in [OF c] by simp
  note f = found_set [where p = ?p and q = ?q and f = "set_tb_limits l (tb_version c + 1) now", OF c this, simplified]
  have "validTeamBudget c org \<Longrightarrow> tb_organization_id c = org" by (simp add: validTeamBudget_def)
  then show ?thesis
    using assms Some f
    by (auto simp: updateTeamBudget_def run_simps team_budget_of_def team_writable_def split: if_splits)
qed

lemma updateTeamBudget_replay:
  assumes "team_writable org teamId owner s" and "team_budget_of s teamId = Some b" and "tb_limits b = l"
  shows "updateTeamBudget now org teamId owner expected l s = Inr ((b, True), s)"
  using assms by (auto simp: updateTeamBudget_def eval_tx team_writable_def)

lemma team_write_run: "team_write org teamId owner n expected l s = Some (v, r, s') \<longleftrightarrow>
  (\<exists>b. updateTeamBudget n org teamId owner expected l s = Inr ((b, r), s') \<and> v = tb_version b)"
  by (auto simp: team_write_def split: sum.splits prod.splits)

interpretation tb: versioned_budget "team_current teamId" "team_writable org teamId owner" limits_ok
  "team_write org teamId owner" for org teamId owner
proof unfold_locales
  fix n expected l s v s'
  assume "team_write org teamId owner n expected l s = Some (v, True, s')"
  then show "s' = s \<and> team_current teamId s = Some (v, l)"
    by (auto simp: team_write_run team_current_def dest!: updateTeamBudget_run split: if_splits)
next
  fix n expected l s v s'
  assume "team_write org teamId owner n expected l s = Some (v, False, s')"
  then show "(case team_current teamId s of None \<Rightarrow> expected = 0
        | Some c \<Rightarrow> fst c = expected \<and> snd c \<noteq> l) \<and> v = expected + 1 \<and> team_current teamId s' = Some (v, l)"
    by (auto simp: team_write_run team_current_def dest!: updateTeamBudget_run split: if_splits option.splits)
next
  fix n expected l s v s'
  assume "team_write org teamId owner n expected l s = Some (v, False, s')" and "limits_ok expected l"
  then show "team_writable org teamId owner s'"
    by (auto simp: team_write_run team_writable_def ownedBudgetTeam_def dest!: updateTeamBudget_run
        intro: validTeamBudget_new split: if_splits)
next
  fix n expected l s v
  assume "team_writable org teamId owner s" and "team_current teamId s = Some (v, l)"
  then show "team_write org teamId owner n expected l s = Some (v, True, s)"
    by (auto simp: team_current_def team_write_run updateTeamBudget_replay)
qed




text \<open>
  The same holds of a team's budget, whose stored row is checked before it is
  used: an update that passed the form leaves a valid row of the organization.
\<close>

theorem team_budget_updates_not_lost:
  assumes "updateTeamBudget now org teamId owner expected l s = Inr ((b, False), s1)" and "limits_ok expected l"
  shows "expected = (case team_budget_of s teamId of None \<Rightarrow> 0 | Some c \<Rightarrow> tb_version c)
    \<and> team_budget_of s1 teamId = Some b \<and> tb_version b = expected + 1 \<and> tb_limits b = l \<and> validTeamBudget b org
    \<and> (\<forall>later l' c r s2. updateTeamBudget later org teamId owner expected l' s1 = Inr ((c, r), s2)
          \<longrightarrow> r \<and> l' = l \<and> s2 = s1)
    \<and> (\<forall>later e'. updateTeamBudget later org teamId owner e' l s1 = Inr ((b, True), s1))"
proof -
  have w: "team_write org teamId owner now expected l s = Some (tb_version b, False, s1)"
    using assms by (auto simp: team_write_run)
  note run = updateTeamBudget_run [OF assms(1)]
  have lost: "r \<and> l' = l \<and> s2 = s1"
    if "updateTeamBudget later org teamId owner expected l' s1 = Inr ((c, r), s2)" for later l' c r s2
    using tb.no_lost_update [OF w, of later l' "tb_version c" r s2] that by (auto simp: team_write_run)
  have valid: "validTeamBudget b org"
    using run assms(2) by (auto intro: validTeamBudget_new split: if_splits)
  have facts: "expected = (case team_budget_of s teamId of None \<Rightarrow> 0 | Some c \<Rightarrow> tb_version c)"
    "team_budget_of s1 teamId = Some b" "tb_version b = expected + 1" "tb_limits b = l"
    using run by (simp_all split: if_splits)
  have "updateTeamBudget later org teamId owner e' l s1 = Inr ((b, True), s1)" for later e'
    by (rule updateTeamBudget_replay [OF tb.may_law [OF w assms(2)] facts(2,4)])
  with lost valid facts show ?thesis by blast
qed

lemma team_budget_updates_not_lost_witness:
  "\<exists>b s1. updateTeamBudget 5 ''o'' ''t'' ''ann'' 0 (Some 100, None, None)
      (empty_db\<lparr>organizations := [\<lparr>o_id = ''o'', o_owner_account_id = ''ann''\<rparr>],
         organization_teams := [\<lparr>te_id = ''t'', te_organization_id = ''o'', te_active = True\<rparr>]\<rparr>) = Inr ((b, False), s1)
    \<and> validTeamBudget b ''o''"
proof -
  let ?s = "empty_db\<lparr>organizations := [\<lparr>o_id = ''o'', o_owner_account_id = ''ann''\<rparr>],
         organization_teams := [\<lparr>te_id = ''t'', te_organization_id = ''o'', te_active = True\<rparr>]\<rparr>"
  obtain b s1 where r: "updateTeamBudget 5 ''o'' ''t'' ''ann'' 0 (Some 100, None, None) ?s = Inr ((b, False), s1)"
    by (simp add: updateTeamBudget_def eval_tx eval_table ownedBudgetTeam_def team_budget_of_def Let_def)
  moreover have "limits_ok 0 (Some 100, None, None)" by (simp add: limits_ok_def safe_int_def)
  ultimately show ?thesis using team_budget_updates_not_lost [OF r] by blast
qed

section \<open>Exposure\<close>

text \<open>\<open>SUM\<close> over an inner join of two tables.\<close>

definition joined_sum :: "'r list \<Rightarrow> 'q list \<Rightarrow> ('r \<Rightarrow> 'q \<Rightarrow> bool) \<Rightarrow> ('r \<Rightarrow> 'q \<Rightarrow> int) \<Rightarrow> int" where
  "joined_sum rs qs p v = sum_rows (\<lambda>(r, q). p r q) (\<lambda>(r, q). v r q) (List.product rs qs)"

definition no_attribution :: "db \<Rightarrow> trade \<Rightarrow> bool" where
  "no_attribution s t \<longleftrightarrow> \<not> list_ex (\<lambda>a. ta_trade_id a = t_id t) (organization_trade_attributions s)"

definition organizationUsageSince :: "db \<Rightarrow> id \<Rightarrow> millis \<Rightarrow> int" where
  "organizationUsageSince s org since =
     joined_sum (organization_trade_attributions s) (trades s)
       (\<lambda>a t. t_id t = ta_trade_id a \<and> ta_organization_id a = org \<and> to_seconds since \<le> ta_created_at a \<and> trade_counts t)
       (\<lambda>a t. ta_total_minor a)
   + joined_sum (trades s) (organization_agent_assignments s)
       (\<lambda>t g. t_buyer_id t = agent_prefix @ aa_agent_id g \<and> aa_organization_id g = org
          \<and> to_seconds since \<le> t_created_at t \<and> trade_counts t \<and> no_attribution s t)
       (\<lambda>t g. sql_cents (trade_cost t))
   + sum_rows (\<lambda>c. c_organization_id c = Some org \<and> not_before (to_seconds since) (c_funded_at c))
       (\<lambda>c. sql_cents (c_escrow_amount c)) (contracts s)"

definition organizationBudgetUsage :: "db \<Rightarrow> id \<Rightarrow> millis \<Rightarrow> int \<times> int" where
  "organizationBudgetUsage s org now =
     (organizationUsageSince s org (utc_day_start now), organizationUsageSince s org (utc_month_start now))"

definition teamUsageSince :: "db \<Rightarrow> id \<Rightarrow> id \<Rightarrow> millis \<Rightarrow> int" where
  "teamUsageSince s org teamId since =
     joined_sum (organization_trade_attributions s) (trades s)
       (\<lambda>a t. t_id t = ta_trade_id a \<and> ta_organization_id a = org \<and> ta_team_id a = Some teamId
          \<and> to_seconds since \<le> ta_created_at a \<and> trade_counts t)
       (\<lambda>a t. ta_total_minor a)
   + joined_sum (trades s) (organization_agent_assignments s)
       (\<lambda>t g. t_buyer_id t = agent_prefix @ aa_agent_id g \<and> aa_organization_id g = org \<and> aa_team_id g = Some teamId
          \<and> to_seconds since \<le> t_created_at t \<and> trade_counts t \<and> no_attribution s t)
       (\<lambda>t g. sql_cents (trade_cost t))
   + sum_rows (\<lambda>a. cx_organization_id a = org \<and> cx_team_id a = Some teamId \<and> to_seconds since \<le> cx_created_at a)
       cx_total_minor (organization_contract_attributions s)
   + joined_sum (contracts s) (organization_agent_assignments s)
       (\<lambda>c g. c_buyer_id c = agent_prefix @ aa_agent_id g \<and> c_organization_id c = Some org
          \<and> aa_organization_id g = org \<and> aa_team_id g = Some teamId
          \<and> not_before (to_seconds since) (c_funded_at c)
          \<and> \<not> list_ex (\<lambda>a. cx_contract_id a = c_id c) (organization_contract_attributions s))
       (\<lambda>c g. sql_cents (c_escrow_amount c))"

definition teamBudgetUsage :: "db \<Rightarrow> id \<Rightarrow> id \<Rightarrow> millis \<Rightarrow> int \<times> int" where
  "teamBudgetUsage s org teamId now =
     (teamUsageSince s org teamId (utc_day_start now), teamUsageSince s org teamId (utc_month_start now))"

section \<open>Checks\<close>

definition teamBudgetFailure :: "id \<Rightarrow> id option \<Rightarrow> int \<Rightarrow> millis \<Rightarrow> db \<Rightarrow> string option" where
  "teamBudgetFailure org teamId total_minor now s = (case teamId of None \<Rightarrow> None | Some tid \<Rightarrow>
     if tid = [] then None else
     (case team_budget_of s tid of None \<Rightarrow> None | Some b \<Rightarrow>
        let usage = teamBudgetUsage s org tid now in
        if \<not> validTeamBudget b org then Some ''TEAM_BUDGET_INVALID''
        else if above total_minor (tb_max_per_execution_minor b) then Some ''TEAM_PER_EXECUTION_LIMIT''
        else if above (fst usage) (tb_max_daily_minor b) then Some ''TEAM_DAILY_LIMIT''
        else if above (snd usage) (tb_max_monthly_minor b) then Some ''TEAM_MONTHLY_LIMIT''
        else None))"

definition organizationLimitFailure :: "id \<Rightarrow> int \<Rightarrow> millis \<Rightarrow> db \<Rightarrow> string option" where
  "organizationLimitFailure org total_minor now s = (case budget_of s org of None \<Rightarrow> None | Some b \<Rightarrow>
     let usage = organizationBudgetUsage s org now in
     if above total_minor (sb_max_per_execution_minor b) then Some ''ORGANIZATION_PER_EXECUTION_LIMIT''
     else if above (fst usage) (sb_max_daily_minor b) then Some ''ORGANIZATION_DAILY_LIMIT''
     else if above (snd usage) (sb_max_monthly_minor b) then Some ''ORGANIZATION_MONTHLY_LIMIT''
     else None)"

text \<open>\<open>if (failure) throw new BuyerSpendPolicyError(failure)\<close>.\<close>

definition refuse :: "string option \<Rightarrow> unit dbtx" where
  "refuse failure = (case failure of None \<Rightarrow> ret () | Some code \<Rightarrow> throw (BuyerSpendPolicyError code))"

definition assignment_of :: "db \<Rightarrow> id \<Rightarrow> agent_assignment option" where
  "assignment_of s agentId = find (\<lambda>g. aa_agent_id g = agentId
     \<and> list_ex (\<lambda>o'. o_id o' = aa_organization_id g
         \<and> list_ex (\<lambda>w. ao_agent_id w = agentId \<and> ao_user_id w = o_owner_account_id o') (agent_owners s)) (organizations s))
     (organization_agent_assignments s)"

definition organizationBudgetForAgent :: "db \<Rightarrow> id \<Rightarrow> (id \<times> spend_budget) option" where
  "organizationBudgetForAgent s agentId = (case assignment_of s agentId of None \<Rightarrow> None
     | Some g \<Rightarrow> map_option (\<lambda>b. (aa_organization_id g, b)) (budget_of s (aa_organization_id g)))"

definition attributeOrganizationTrade :: "id option \<Rightarrow> trade \<Rightarrow> int \<Rightarrow> millis \<Rightarrow> unit dbtx" where
  "attributeOrganizationTrade agent t total_minor now =
    (if \<not> truthy agent then ret () else
     let agentId = the agent in
     bnd (select_one organization_trade_attributions (\<lambda>a. ta_trade_id a = t_id t)) (\<lambda>existing. case existing of
       Some e \<Rightarrow> require (\<not> (ta_agent_id e \<noteq> agentId \<or> ta_total_minor e \<noteq> total_minor))
                   (BuyerSpendPolicyError ''ORGANIZATION_ATTRIBUTION_CONFLICT'')
     | None \<Rightarrow>
       bnd (asks (\<lambda>s. assignment_of s agentId)) (\<lambda>assignment. case assignment of None \<Rightarrow> ret ()
       | Some g \<Rightarrow>
         andthen (insert_row organization_trade_attributions organization_trade_attributions_update
           (\<lambda>a. ta_trade_id a = t_id t) (SqlError ''UNIQUE organization_trade_attributions'')
           \<lparr>ta_trade_id = t_id t, ta_organization_id = aa_organization_id g, ta_agent_id = agentId,
            ta_team_id = aa_team_id g, ta_cost_center = aa_cost_center g, ta_total_minor = total_minor,
            ta_created_at = to_seconds now\<rparr>)
        (andthen (bnd (asks (teamBudgetFailure (aa_organization_id g) (aa_team_id g) total_minor now)) refuse)
           (bnd (asks (organizationLimitFailure (aa_organization_id g) total_minor now)) refuse)))))"

definition attributeOrganizationContract :: "id option \<Rightarrow> id \<Rightarrow> int \<Rightarrow> millis \<Rightarrow> unit dbtx" where
  "attributeOrganizationContract agent contractId total_minor now =
    (if \<not> truthy agent then ret () else
     let agentId = the agent in
     bnd (select_one organization_contract_attributions (\<lambda>a. cx_contract_id a = contractId)) (\<lambda>existing.
     andthen (require (\<not> (case existing of None \<Rightarrow> False
           | Some e \<Rightarrow> cx_agent_id e \<noteq> agentId \<or> cx_total_minor e \<noteq> total_minor))
         (BuyerSpendPolicyError ''ORGANIZATION_ATTRIBUTION_CONFLICT''))
    (bnd (asks (\<lambda>s. case existing of
         Some e \<Rightarrow> Some (cx_organization_id e, cx_team_id e, cx_cost_center e)
       | None \<Rightarrow> map_option (\<lambda>g. (aa_organization_id g, aa_team_id g, aa_cost_center g)) (assignment_of s agentId)))
     (\<lambda>attribution. case attribution of None \<Rightarrow> ret ()
       | Some (org, teamId, cost) \<Rightarrow>
         andthen (onlyif (existing = None) (insert_row organization_contract_attributions
             organization_contract_attributions_update (\<lambda>a. cx_contract_id a = contractId)
             (SqlError ''UNIQUE organization_contract_attributions'')
             \<lparr>cx_contract_id = contractId, cx_organization_id = org, cx_agent_id = agentId, cx_team_id = teamId,
              cx_cost_center = cost, cx_total_minor = total_minor, cx_created_at = to_seconds now\<rparr>))
        (bnd (update_where contracts contracts_update (\<lambda>c. c_id c = contractId)
            (\<lambda>c. c\<lparr>c_organization_id := Some org\<rparr>)) (\<lambda>_.
         andthen (bnd (asks (teamBudgetFailure org teamId total_minor now)) refuse)
           (bnd (asks (organizationLimitFailure org total_minor now)) refuse)))))))"

definition organizationFundingBudgetFailure :: "trade \<Rightarrow> millis \<Rightarrow> db \<Rightarrow> string option" where
  "organizationFundingBudgetFailure t now s =
     (case find (\<lambda>a. ta_trade_id a = t_id t) (organization_trade_attributions s) of None \<Rightarrow> None
      | Some a \<Rightarrow>
        (case teamBudgetFailure (ta_organization_id a) (ta_team_id a) (ta_total_minor a) now s of
           Some e \<Rightarrow> Some e
         | None \<Rightarrow> organizationLimitFailure (ta_organization_id a) (ta_total_minor a) now s))"

section \<open>What the checks establish\<close>

lemma above_limit: "above x l \<longleftrightarrow> \<not> in_limit x l"
  using not_above by blast

definition within_organization :: "id \<Rightarrow> int \<Rightarrow> millis \<Rightarrow> db \<Rightarrow> bool" where
  "within_organization org m now s \<longleftrightarrow> (\<forall>b \<in> set_option (budget_of s org).
     in_limit m (sb_max_per_execution_minor b)
   \<and> in_limit (organizationUsageSince s org (utc_day_start now)) (sb_max_daily_minor b)
   \<and> in_limit (organizationUsageSince s org (utc_month_start now)) (sb_max_monthly_minor b))"

definition within_team :: "id \<Rightarrow> id option \<Rightarrow> int \<Rightarrow> millis \<Rightarrow> db \<Rightarrow> bool" where
  "within_team org teamId m now s \<longleftrightarrow> (\<forall>t \<in> set_option teamId. t \<noteq> [] \<longrightarrow>
     (\<forall>b \<in> set_option (team_budget_of s t). validTeamBudget b org
      \<and> in_limit m (tb_max_per_execution_minor b)
      \<and> in_limit (teamUsageSince s org t (utc_day_start now)) (tb_max_daily_minor b)
      \<and> in_limit (teamUsageSince s org t (utc_month_start now)) (tb_max_monthly_minor b)))"

lemma organizationLimitFailure_None:
  "organizationLimitFailure org m now s = None \<longleftrightarrow> within_organization org m now s"
  by (cases "budget_of s org")
     (auto simp: organizationLimitFailure_def within_organization_def Let_def organizationBudgetUsage_def above_limit)

lemma teamBudgetFailure_None:
  "teamBudgetFailure org teamId m now s = None \<longleftrightarrow> within_team org teamId m now s"
  by (cases teamId; cases "team_budget_of s (the teamId)")
     (auto simp: teamBudgetFailure_def within_team_def Let_def teamBudgetUsage_def above_limit)

lemma refuse_run [simp]: "refuse f s = Inr p \<longleftrightarrow> f = None \<and> p = ((), s)"
  by (auto simp: refuse_def split: option.splits)

lemma attributeTrade_run:
  "attributeOrganizationTrade agent t m now s = Inr (u, s') \<longleftrightarrow>
    (if \<not> truthy agent then s' = s else
     (case find (\<lambda>a. ta_trade_id a = t_id t) (organization_trade_attributions s) of
       Some e \<Rightarrow> s' = s \<and> Some (ta_agent_id e) = agent \<and> ta_total_minor e = m
     | None \<Rightarrow> (case assignment_of s (the agent) of None \<Rightarrow> s' = s
       | Some g \<Rightarrow> s' = s\<lparr>organization_trade_attributions := organization_trade_attributions s @
            [\<lparr>ta_trade_id = t_id t, ta_organization_id = aa_organization_id g, ta_agent_id = the agent,
              ta_team_id = aa_team_id g, ta_cost_center = aa_cost_center g, ta_total_minor = m,
              ta_created_at = to_seconds now\<rparr>]\<rparr>
          \<and> within_team (aa_organization_id g) (aa_team_id g) m now s'
          \<and> within_organization (aa_organization_id g) m now s')))"
proof (cases "find (\<lambda>a. ta_trade_id a = t_id t) (organization_trade_attributions s)")
  case None
  then have "\<not> list_ex (\<lambda>a. ta_trade_id a = t_id t) (organization_trade_attributions s)"
    by (simp add: find_None_list_ex)
  with None show ?thesis
    by (auto simp: attributeOrganizationTrade_def bnd_run andthen_run Let_def organizationLimitFailure_None
        teamBudgetFailure_None split: option.splits)
next
  case (Some e)
  then show ?thesis
    by (cases agent) (auto simp: attributeOrganizationTrade_def bnd_run Let_def truthy_def)
qed

text \<open>Sums over a join.\<close>

lemma joined_sum_member_le:
  assumes "r \<in> set rs" and "q \<in> set qs" and "p r q" and "\<And>r q. r \<in> set rs \<Longrightarrow> q \<in> set qs \<Longrightarrow> p r q \<Longrightarrow> 0 \<le> v r q"
  shows "v r q \<le> joined_sum rs qs p v"
  using sum_rows_member_le [of "(r, q)" "List.product rs qs" "\<lambda>(r, q). p r q" "\<lambda>(r, q). v r q"] assms
  by (auto simp: joined_sum_def)

lemma joined_sum_nonneg:
  assumes "\<And>r q. r \<in> set rs \<Longrightarrow> q \<in> set qs \<Longrightarrow> p r q \<Longrightarrow> 0 \<le> v r q"
  shows "0 \<le> joined_sum rs qs p v"
  unfolding joined_sum_def by (rule sum_rows_nonneg) (use assms in auto)

lemma attributed_counts:
  assumes "exposures_ok s" and "\<forall>a \<in> set (organization_trade_attributions s). 0 \<le> ta_total_minor a"
    and "a \<in> set (organization_trade_attributions s)" and "t \<in> set (trades s)" and "ta_trade_id a = t_id t"
    and "trade_counts t" and "to_seconds since \<le> ta_created_at a"
  shows "ta_total_minor a \<le> organizationUsageSince s (ta_organization_id a) since"
proof -
  let ?p = "\<lambda>b t. t_id t = ta_trade_id b \<and> ta_organization_id b = ta_organization_id a
     \<and> to_seconds since \<le> ta_created_at b \<and> trade_counts t"
  have "ta_total_minor a \<le> joined_sum (organization_trade_attributions s) (trades s) ?p (\<lambda>b t. ta_total_minor b)"
    by (rule joined_sum_member_le [of a _ t _ ?p "\<lambda>b t. ta_total_minor b"]) (use assms in auto)
  moreover have "0 \<le> joined_sum (trades s) (organization_agent_assignments s) p (\<lambda>t g. sql_cents (trade_cost t))" for p
    by (rule joined_sum_nonneg) (use assms(1) in \<open>auto simp: exposures_ok_def\<close>)
  moreover have "0 \<le> sum_rows p (\<lambda>c. sql_cents (c_escrow_amount c)) (contracts s)" for p
    by (rule sum_rows_nonneg) (use assms(1) in \<open>auto simp: exposures_ok_def\<close>)
  ultimately show ?thesis unfolding organizationUsageSince_def by (smt (verit))
qed

text \<open>
  C36. A purchase by an organization's agent is charged to the organization before
  it is allowed.  When the reservation of a recorded trade is attributed, the
  charge names the agent's organization and team, today's usage already contains
  it, and that usage, the month's and the trade itself are within the budgets of
  both; charges recorded before are kept as they were.
\<close>

theorem trade_attribution_within_budget:
  assumes "attributeOrganizationTrade (Some agentId) t m now s = Inr (u, s')" and "agentId \<noteq> []"
    and "find (\<lambda>a. ta_trade_id a = t_id t) (organization_trade_attributions s) = None"
    and "assignment_of s agentId = Some g" and "t \<in> set (trades s)" and "trade_counts t"
    and "exposures_ok s" and "0 \<le> m" and "\<forall>a \<in> set (organization_trade_attributions s). 0 \<le> ta_total_minor a"
  shows "within_organization (aa_organization_id g) m now s' \<and> within_team (aa_organization_id g) (aa_team_id g) m now s'
    \<and> m \<le> organizationUsageSince s' (aa_organization_id g) (utc_day_start now)
    \<and> (\<exists>a. organization_trade_attributions s' = organization_trade_attributions s @ [a] \<and> ta_trade_id a = t_id t
         \<and> ta_agent_id a = agentId \<and> ta_organization_id a = aa_organization_id g \<and> ta_team_id a = aa_team_id g
         \<and> ta_total_minor a = m)
    \<and> attributeOrganizationTrade (Some agentId) t m later s' = Inr ((), s')"
proof -
  define a where "a = \<lparr>ta_trade_id = t_id t, ta_organization_id = aa_organization_id g, ta_agent_id = agentId,
              ta_team_id = aa_team_id g, ta_cost_center = aa_cost_center g, ta_total_minor = m,
              ta_created_at = to_seconds now\<rparr>"
  from assms(1-4) have s': "s' = s\<lparr>organization_trade_attributions := organization_trade_attributions s @ [a]\<rparr>"
    and w: "within_organization (aa_organization_id g) m now s'" "within_team (aa_organization_id g) (aa_team_id g) m now s'"
    by (auto simp: attributeTrade_run truthy_def a_def)
  have "to_seconds (utc_day_start now) \<le> to_seconds now" by (rule to_seconds_mono [OF utc_day_bounds(1)])
  then have "ta_total_minor a \<le> organizationUsageSince s' (ta_organization_id a) (utc_day_start now)"
    using assms(5-9) by (intro attributed_counts [of s' a t]) (auto simp: s' a_def exposures_ok_def)
  moreover have "attributeOrganizationTrade (Some agentId) t m later s' = Inr ((), s')"
    using assms(2,3) by (simp add: attributeTrade_run truthy_def s' find_append a_def)
  moreover have "ta_organization_id a = aa_organization_id g" "ta_total_minor a = m" "ta_trade_id a = t_id t"
    "ta_agent_id a = agentId" "ta_team_id a = aa_team_id g" by (simp_all add: a_def)
  ultimately show ?thesis using w s' by auto
qed

definition department_db :: db where
  "department_db = empty_db\<lparr>
     organizations := [\<lparr>o_id = ''o'', o_owner_account_id = ''ann''\<rparr>],
     agent_owners := [\<lparr>ao_agent_id = ''a1'', ao_user_id = ''ann''\<rparr>],
     organization_agent_assignments := [\<lparr>aa_agent_id = ''a1'', aa_organization_id = ''o'', aa_team_id = None,
       aa_cost_center = ''lab''\<rparr>],
     trades := [sample_trade]\<rparr>"

lemma trade_attribution_within_budget_witness:
  "\<exists>s'. attributeOrganizationTrade (Some ''a1'') sample_trade 2000 0 department_db = Inr ((), s')
     \<and> 2000 \<le> organizationUsageSince s' ''o'' (utc_day_start 0)"
proof -
  let ?g = "\<lparr>aa_agent_id = ''a1'', aa_organization_id = ''o'', aa_team_id = None, aa_cost_center = ''lab''\<rparr>"
  have g: "assignment_of department_db ''a1'' = Some ?g"
    by (simp add: assignment_of_def department_db_def)
  have f: "find (\<lambda>a. ta_trade_id a = t_id sample_trade) (organization_trade_attributions department_db) = None"
    by (simp add: department_db_def)
  obtain s' where r: "attributeOrganizationTrade (Some ''a1'') sample_trade 2000 0 department_db = Inr ((), s')"
    using g f by (auto simp: attributeTrade_run truthy_def within_team_def within_organization_def budget_of_def
        department_db_def)
  have "fl 20 = 20" using fl_of_int [of 20] by simp
  then have "of_minor 2000 = 20" by (simp add: of_minor_def jdiv_def)
  with sql_cents_of_minor [of 2000] have "0 \<le> sql_cents 20" by simp
  then have "exposures_ok department_db"
    by (simp add: exposures_ok_def department_db_def sample_trade_def trade_cost_def)
  moreover have "trade_counts sample_trade" by (simp add: trade_counts_def sample_trade_def)
  moreover have "sample_trade \<in> set (trades department_db)" by (simp add: department_db_def)
  moreover have "organization_trade_attributions department_db = []" by (simp add: department_db_def)
  ultimately show ?thesis
    using trade_attribution_within_budget [OF r _ f g] r by auto
qed

end
