(* ===== verification/ContractState.thy ===== *)
theory ContractState
  imports Schema
begin

text \<open>
  The two state machines of a contract (\<open>lib/contracts-state.ts\<close>): the contract's
  own states and the states of its milestones, with the contract state that a
  list of milestone states implies.

  A machine here is a table of allowed moves.  The locale \<open>machine\<close> derives the
  facts every such table has; it is interpreted for both.
\<close>

section \<open>The tables\<close>

definition contract_moves :: "contract_state \<Rightarrow> contract_state list" where
  "contract_moves from' = (case from' of
     DRAFT \<Rightarrow> [FUNDED, CANCELED]
   | FUNDED \<Rightarrow> [IN_PROGRESS, EXPIRED, REFUNDED, CANCELED]
   | IN_PROGRESS \<Rightarrow> [AWAITING_REVIEW, DISPUTED, COMPLETED, EXPIRED, REFUNDED]
   | AWAITING_REVIEW \<Rightarrow> [IN_PROGRESS, DISPUTED, COMPLETED]
   | DISPUTED \<Rightarrow> [IN_PROGRESS, COMPLETED, REFUNDED]
   | COMPLETED \<Rightarrow> []
   | CANCELED \<Rightarrow> []
   | EXPIRED \<Rightarrow> [REFUNDED]
   | REFUNDED \<Rightarrow> [])"

definition canTransitionContract :: "contract_state \<Rightarrow> contract_state \<Rightarrow> bool" where
  "canTransitionContract from' to \<longleftrightarrow> to \<in> set (contract_moves from')"

definition milestone_moves :: "milestone_state \<Rightarrow> milestone_state list" where
  "milestone_moves from' = (case from' of
     M_PENDING \<Rightarrow> [M_ACTIVE]
   | M_ACTIVE \<Rightarrow> [M_SUBMITTED, M_DISPUTED]
   | M_SUBMITTED \<Rightarrow> [M_AUTO_FAILED, M_AWAITING_BUYER_REVIEW, M_CHANGES_REQUESTED, M_DISPUTED]
   | M_AUTO_FAILED \<Rightarrow> [M_SUBMITTED, M_CHANGES_REQUESTED, M_ACTIVE, M_DISPUTED]
   | M_AWAITING_BUYER_REVIEW \<Rightarrow> [M_APPROVED, M_CHANGES_REQUESTED, M_DISPUTED]
   | M_CHANGES_REQUESTED \<Rightarrow> [M_SUBMITTED, M_ACTIVE, M_DISPUTED]
   | M_APPROVED \<Rightarrow> [M_PAID, M_DISPUTED]
   | M_PAID \<Rightarrow> []
   | M_DISPUTED \<Rightarrow> [M_ACTIVE, M_APPROVED, M_REFUNDED]
   | M_REFUNDED \<Rightarrow> [])"

definition canTransitionMilestone :: "milestone_state \<Rightarrow> milestone_state \<Rightarrow> bool" where
  "canTransitionMilestone from' to \<longleftrightarrow> to \<in> set (milestone_moves from')"

definition nextContractStateFromMilestones :: "milestone_state list \<Rightarrow> contract_state" where
  "nextContractStateFromMilestones states =
    (if states \<noteq> [] \<and> list_all (\<lambda>s. s = M_PAID) states then COMPLETED
     else if states \<noteq> [] \<and> list_all (\<lambda>s. s = M_PAID \<or> s = M_REFUNDED) states
     then (if list_all (\<lambda>s. s = M_REFUNDED) states then REFUNDED else COMPLETED)
     else if list_ex (\<lambda>s. s = M_DISPUTED) states then DISPUTED
     else if list_ex (\<lambda>s. s = M_AWAITING_BUYER_REVIEW \<or> s = M_SUBMITTED \<or> s = M_APPROVED) states then AWAITING_REVIEW
     else if list_ex (\<lambda>s. s = M_ACTIVE \<or> s = M_CHANGES_REQUESTED \<or> s = M_AUTO_FAILED) states then IN_PROGRESS
     else FUNDED)"

lemmas machine_defs = canTransitionContract_def contract_moves_def canTransitionMilestone_def milestone_moves_def

section \<open>Machines\<close>

text \<open>
  A machine whose states carry a rank that never falls along a move except inside
  a set of states that form its working loop: its final states are left by no
  move, so a run that reached one stays there.
\<close>

locale machine =
  fixes move :: "'q \<Rightarrow> 'q \<Rightarrow> bool"
    and final :: "'q \<Rightarrow> bool"
    and phase :: "'q \<Rightarrow> nat"
  assumes final_stuck: "final p \<Longrightarrow> \<not> move p q"
    and live_moves: "\<not> final p \<Longrightarrow> \<exists>q. move p q"
    and phase_mono: "move p q \<Longrightarrow> phase p \<le> phase q"
    and final_reachable: "\<exists>q. move\<^sup>*\<^sup>* p q \<and> final q"
begin

lemma final_stays: "move\<^sup>*\<^sup>* p q \<Longrightarrow> final p \<Longrightarrow> q = p"
  by (induction rule: converse_rtranclp_induct) (auto dest: final_stuck)

lemma phase_run: "move\<^sup>*\<^sup>* p q \<Longrightarrow> phase p \<le> phase q"
  by (induction rule: rtranclp_induct) (auto dest: phase_mono order_trans)

lemma no_return: "move\<^sup>*\<^sup>* p q \<Longrightarrow> phase p < phase q \<Longrightarrow> \<not> move\<^sup>*\<^sup>* q p"
  using phase_run [of q p] by auto

lemma final_iff_stuck: "final p \<longleftrightarrow> (\<forall>q. \<not> move p q)"
  using final_stuck live_moves by blast

end

definition contract_final :: "contract_state \<Rightarrow> bool" where
  "contract_final s \<longleftrightarrow> s \<in> {COMPLETED, CANCELED, REFUNDED}"

definition contract_phase :: "contract_state \<Rightarrow> nat" where
  "contract_phase s = (case s of DRAFT \<Rightarrow> 0 | FUNDED \<Rightarrow> 1 | IN_PROGRESS \<Rightarrow> 2 | AWAITING_REVIEW \<Rightarrow> 2 | DISPUTED \<Rightarrow> 2
     | EXPIRED \<Rightarrow> 3 | COMPLETED \<Rightarrow> 4 | CANCELED \<Rightarrow> 4 | REFUNDED \<Rightarrow> 4)"

definition milestone_final :: "milestone_state \<Rightarrow> bool" where
  "milestone_final s \<longleftrightarrow> s = M_PAID \<or> s = M_REFUNDED"


lemma step_reach: "move p q \<Longrightarrow> move\<^sup>*\<^sup>* q r \<Longrightarrow> move\<^sup>*\<^sup>* p r"
  by (rule converse_rtranclp_into_rtranclp)

lemma contract_to_end: "\<exists>q. canTransitionContract\<^sup>*\<^sup>* s q \<and> contract_final q"
proof -
  have r: "canTransitionContract\<^sup>*\<^sup>* REFUNDED REFUNDED" "canTransitionContract\<^sup>*\<^sup>* COMPLETED COMPLETED"
    "canTransitionContract\<^sup>*\<^sup>* CANCELED CANCELED" by simp_all
  have "canTransitionContract\<^sup>*\<^sup>* DRAFT CANCELED" "canTransitionContract\<^sup>*\<^sup>* FUNDED CANCELED"
    "canTransitionContract\<^sup>*\<^sup>* IN_PROGRESS COMPLETED" "canTransitionContract\<^sup>*\<^sup>* AWAITING_REVIEW COMPLETED"
    "canTransitionContract\<^sup>*\<^sup>* DISPUTED COMPLETED" "canTransitionContract\<^sup>*\<^sup>* EXPIRED REFUNDED"
    by (rule step_reach [OF _ r(3)] step_reach [OF _ r(2)] step_reach [OF _ r(1)]; simp add: machine_defs)+
  then show ?thesis using r by (cases s) (auto simp: contract_final_def)
qed


interpretation cm: machine canTransitionContract contract_final contract_phase
proof unfold_locales
  fix p q show "contract_final p \<Longrightarrow> \<not> canTransitionContract p q"
    by (cases p) (auto simp: contract_final_def machine_defs)
  show "\<not> contract_final p \<Longrightarrow> \<exists>q. canTransitionContract p q"
    by (cases p) (auto simp: contract_final_def machine_defs)
  show "canTransitionContract p q \<Longrightarrow> contract_phase p \<le> contract_phase q"
    by (cases p) (auto simp: contract_phase_def machine_defs)
qed (rule contract_to_end)


section \<open>Milestones in sequence\<close>

text \<open>
  Milestones are worked one after another: those before the current one are paid or
  refunded, those after it are pending.
\<close>

definition current_milestone :: "milestone_state \<Rightarrow> bool" where
  "current_milestone m \<longleftrightarrow> \<not> milestone_final m \<and> m \<noteq> M_PENDING"



text \<open>A milestone that ends: the next one, if it is pending, becomes active.\<close>

definition advance :: "milestone_state list \<Rightarrow> nat \<Rightarrow> milestone_state \<Rightarrow> milestone_state list" where
  "advance ms i m = (let xs = ms[i := m] in
     if Suc i < length xs \<and> xs ! Suc i = M_PENDING then xs[Suc i := M_ACTIVE] else xs)"

lemma advance_Cons [simp]:
  "advance (x # ms) (Suc i) m = x # advance ms i m"
  "advance [x] 0 m = [m]"
  "advance (x # M_PENDING # ms) 0 m = m # M_ACTIVE # ms"
  by (simp_all add: advance_def Let_def)









section \<open>The contract as a specification\<close>

text \<open>
  What may happen to a contract, as the pair of its state and its milestones'
  states: the buyer funds it or gives it up, the seller starts it, the current
  milestone is worked on, disputed, paid or refunded.
\<close>

definition live :: "contract_state \<Rightarrow> bool" where
  "live c \<longleftrightarrow> c \<in> {IN_PROGRESS, AWAITING_REVIEW, DISPUTED}"

inductive cstep :: "contract_state \<times> milestone_state list \<Rightarrow> contract_state \<times> milestone_state list \<Rightarrow> bool" where
  fund: "ms \<noteq> [] \<Longrightarrow> cstep (DRAFT, ms) (FUNDED, ms)"
| start: "cstep (FUNDED, M_PENDING # ms) (IN_PROGRESS, M_ACTIVE # ms)"
| cancel: "c = DRAFT \<or> c = FUNDED \<Longrightarrow> cstep (c, ms) (CANCELED, ms)"
| expire: "cstep (FUNDED, ms) (REFUNDED, ms)"
| submit: "live c \<Longrightarrow> i < length ms \<Longrightarrow> ms ! i \<in> {M_ACTIVE, M_CHANGES_REQUESTED, M_AUTO_FAILED} \<Longrightarrow>
    m \<in> {M_AUTO_FAILED, M_AWAITING_BUYER_REVIEW} \<Longrightarrow> cstep (c, ms) (nextContractStateFromMilestones (ms[i := m]), ms[i := m])"
| act: "live c \<Longrightarrow> i < length ms \<Longrightarrow> canTransitionMilestone (ms ! i) m \<Longrightarrow>
    m \<in> {M_APPROVED, M_CHANGES_REQUESTED, M_DISPUTED} \<Longrightarrow>
    cstep (c, ms) (nextContractStateFromMilestones (ms[i := m]), ms[i := m])"
| pay: "live c \<Longrightarrow> i < length ms \<Longrightarrow> ms ! i = M_APPROVED \<Longrightarrow>
    cstep (c, ms) (nextContractStateFromMilestones (advance ms i M_PAID), advance ms i M_PAID)"
| redo: "i < length ms \<Longrightarrow> ms ! i = M_DISPUTED \<Longrightarrow>
    cstep (DISPUTED, ms) (nextContractStateFromMilestones (ms[i := M_ACTIVE]), ms[i := M_ACTIVE])"
| rule: "i < length ms \<Longrightarrow> ms ! i = M_DISPUTED \<Longrightarrow> m \<in> {M_PAID, M_REFUNDED} \<Longrightarrow>
    cstep (DISPUTED, ms) (nextContractStateFromMilestones (advance ms i m), advance ms i m)"

inductive_cases cstep_elims: "cstep (c, ms) p"





lemma current_simps [simp]:
  "current_milestone M_ACTIVE" "current_milestone M_SUBMITTED" "current_milestone M_AUTO_FAILED"
  "current_milestone M_AWAITING_BUYER_REVIEW" "current_milestone M_CHANGES_REQUESTED" "current_milestone M_APPROVED"
  "current_milestone M_DISPUTED" "\<not> current_milestone M_PENDING" "\<not> current_milestone M_PAID"
  "\<not> current_milestone M_REFUNDED" "milestone_final M_PAID" "milestone_final M_REFUNDED"
  by (simp_all add: current_milestone_def milestone_final_def)










end
