(* ===== verification/ContractSettlement.thy ===== *)
theory ContractSettlement
  imports AccountCredit SpendPolicy
begin

text \<open>
  Money in and out of a contract's escrow (\<open>lib/contract-settlement.ts\<close>, with the
  amount guards of \<open>lib/wallet-guards.ts\<close> and \<open>lib/wallet.ts\<close>): new contracts are
  funded from deposited credit, through the journal of \<open>AccountCredit\<close>; contracts
  from before that hold a wallet escrow and can still finish.
\<close>

section \<open>Guards and wallets\<close>

definition validateTransferAmount :: "num \<Rightarrow> unit dbtx" where
  "validateTransferAmount amount =
     andthen (require (\<not> amount \<le> 0) (WalletGuardError ''INVALID_AMOUNT''))
       (require (\<not> 1000000 < amount) (WalletGuardError ''AMOUNT_EXCEEDS_CAP''))"

definition validateEscrowAmount :: "num \<Rightarrow> unit dbtx" where
  "validateEscrowAmount amount =
     andthen (require (\<not> amount \<le> 0) (WalletGuardError ''INVALID_AMOUNT''))
       (require (\<not> 1000000 < amount) (WalletGuardError ''AMOUNT_EXCEEDS_CAP''))"

definition getOrCreateWallet :: "id \<Rightarrow> wallet dbtx" where
  "getOrCreateWallet userId =
     bnd (select_one wallets (\<lambda>w. w_user_id w = userId)) (\<lambda>existing. case existing of
       Some w \<Rightarrow> ret w
     | None \<Rightarrow>
       (let w = \<lparr>w_user_id = userId, w_balance = 0, w_escrow = 0\<rparr> in
        andthen (insert_row wallets wallets_update (\<lambda>v. w_user_id v = userId) (SqlError ''UNIQUE wallets'') w) (ret w)))"

definition getBalance :: "db \<Rightarrow> id \<Rightarrow> num \<times> num \<times> num" where
  "getBalance s userId = (let c = creditBalance s userId in (of_minor (fst c), of_minor (snd c), of_minor (fst c)))"

definition ensureContractWallets :: "id \<Rightarrow> id \<Rightarrow> unit dbtx" where
  "ensureContractWallets buyerId sellerId =
     andthen (getOrCreateWallet buyerId) (andthen (getOrCreateWallet sellerId) (ret ()))"

section \<open>Escrow of a contract\<close>

definition usesCredit :: "id \<Rightarrow> bool dbtx" where
  "usesCredit contractId =
     bnd (select_one contracts (\<lambda>c. c_id c = contractId)) (\<lambda>found.
     bnd (some_or (ContractSettlementError ''CONTRACT_NOT_FOUND'') found) (\<lambda>c. ret (c_payment_rail c = Credit)))"

text \<open>What identifies the operation in the journal: the milestone, or the refund of the whole.\<close>

definition operation :: "id option \<Rightarrow> string" where
  "operation milestoneId = (if truthy milestoneId then the milestoneId else ''refund'')"

definition distributeCredit :: "seconds \<Rightarrow> id \<Rightarrow> id \<Rightarrow> id option \<Rightarrow> num \<Rightarrow> id option \<Rightarrow> num \<Rightarrow> unit dbtx" where
  "distributeCredit now contractId buyerId sellerId amount milestoneId buyerAmount =
    (let minor = to_minor amount; refund = to_minor buyerAmount in
     bnd (select_all credit_entries (\<lambda>e. ce_reference e = contractId \<and> ce_user_id e = buyerId)) (\<lambda>entries.
     let reservation = find (\<lambda>e. ce_kind e = ''purchase'') entries;
         remaining = sum_list (map ce_escrow_delta entries) in
     andthen (require (\<not> (reservation = None \<or> \<not> safe_int minor \<or> minor \<le> 0 \<or> refund < 0 \<or> minor < refund \<or> remaining < minor))
                (ContractSettlementError ''ESCROW_BALANCE_MISMATCH''))
    (andthen (changeCredit now buyerId contractId (''contract_settlement:'' @ operation milestoneId) refund (- minor))
       (onlyif (refund < minor)
         (bnd (some_or (ContractSettlementError ''SELLER_REQUIRED'') sellerId) (\<lambda>seller.
            changeCredit now seller contractId (''contract_sale:'' @ operation milestoneId) (minor - refund) 0))))))"

definition lockContractFunds :: "seconds \<Rightarrow> id \<Rightarrow> id \<Rightarrow> num \<Rightarrow> num \<Rightarrow> id option \<Rightarrow> unit dbtx" where
  "lockContractFunds now contractId buyerId sellerAmount feeAmount feeRecipientId =
    (let totalDebit = jadd sellerAmount feeAmount in
     andthen (validateEscrowAmount totalDebit)
    (bnd (usesCredit contractId) (\<lambda>credit.
       if credit then
         bnd (some_or (ContractSettlementError ''FEE_RECIPIENT_REQUIRED'') feeRecipientId) (\<lambda>recipient.
           reserveCredit now contractId buyerId recipient (to_minor totalDebit) (to_minor sellerAmount) (to_minor feeAmount))
       else throw (ContractSettlementError ''CONTRACT_FUNDING_UNAVAILABLE''))))"

text \<open>The wallet escrow of contracts from before deposited credit.\<close>

definition takeEscrow :: "id \<Rightarrow> num \<Rightarrow> num \<Rightarrow> unit dbtx" where
  "takeEscrow buyerId amount back =
     bnd (update_where wallets wallets_update (\<lambda>w. w_user_id w = buyerId \<and> amount \<le> w_escrow w)
        (\<lambda>w. w\<lparr>w_balance := (if back = 0 then w_balance w else jadd (w_balance w) back),
                w_escrow := jsub (w_escrow w) amount\<rparr>)) (\<lambda>rows.
       require (rows \<noteq> []) (ContractSettlementError ''ESCROW_BALANCE_MISMATCH''))"

definition payWallet :: "id \<Rightarrow> num \<Rightarrow> unit dbtx" where
  "payWallet userId amount =
     bnd (update_where wallets wallets_update (\<lambda>w. w_user_id w = userId)
        (\<lambda>w. w\<lparr>w_balance := jadd (w_balance w) amount\<rparr>)) (\<lambda>_. ret ())"

definition journal :: "id option \<Rightarrow> id \<Rightarrow> num \<Rightarrow> transaction_type \<Rightarrow> id \<Rightarrow> unit dbtx" where
  "journal from' to amount type ref = append_row transactions transactions_update
     \<lparr>tr_from_user_id = from', tr_to_user_id = Some to, tr_amount = amount, tr_type = type, tr_reference_id = Some ref\<rparr>"

definition refundContractFunds :: "seconds \<Rightarrow> id \<Rightarrow> id \<Rightarrow> num \<Rightarrow> id option \<Rightarrow> unit dbtx" where
  "refundContractFunds now contractId buyerId amount milestoneId =
     andthen (validateEscrowAmount amount)
    (bnd (usesCredit contractId) (\<lambda>credit.
       if credit then distributeCredit now contractId buyerId None amount milestoneId amount
       else andthen (takeEscrow buyerId amount amount)
              (journal None buyerId amount Escrow_refund contractId)))"

definition releaseContractFunds :: "seconds \<Rightarrow> id \<Rightarrow> id \<Rightarrow> id \<Rightarrow> id \<Rightarrow> num \<Rightarrow> unit dbtx" where
  "releaseContractFunds now contractId milestoneId buyerId sellerId amount =
     andthen (validateEscrowAmount amount)
    (bnd (usesCredit contractId) (\<lambda>credit.
       if credit then distributeCredit now contractId buyerId (Some sellerId) amount (Some milestoneId) 0
       else andthen (takeEscrow buyerId amount 0)
           (andthen (payWallet sellerId amount)
              (journal (Some buyerId) sellerId amount Escrow_release contractId))))"

definition seller_share :: "num \<Rightarrow> num \<Rightarrow> num" where
  "seller_share amount percent = of_minor (jround (jmul amount percent))"

definition buyer_share :: "num \<Rightarrow> num \<Rightarrow> num" where
  "buyer_share amount percent = of_minor (jround (jmul (jsub amount (seller_share amount percent)) 100))"

definition splitContractFunds :: "seconds \<Rightarrow> id \<Rightarrow> id \<Rightarrow> id \<Rightarrow> id \<Rightarrow> num \<Rightarrow> num \<Rightarrow> unit dbtx" where
  "splitContractFunds now contractId milestoneId buyerId sellerId amount percent =
     andthen (validateEscrowAmount amount)
    (let sellerAmount = seller_share amount percent; buyerAmount = buyer_share amount percent in
     andthen (require (\<not> (percent < 0 \<or> 100 < percent)) (ContractSettlementError ''INVALID_AMOUNT''))
    (bnd (usesCredit contractId) (\<lambda>credit.
       if credit then distributeCredit now contractId buyerId (Some sellerId) amount (Some milestoneId) buyerAmount
       else andthen (takeEscrow buyerId amount 0)
           (andthen (onlyif (0 < sellerAmount) (andthen (payWallet sellerId sellerAmount)
               (journal (Some buyerId) sellerId sellerAmount Escrow_release contractId)))
             (onlyif (0 < buyerAmount) (andthen (payWallet buyerId buyerAmount)
               (journal None buyerId buyerAmount Escrow_refund contractId)))))))"

section \<open>Credit contracts\<close>

text \<open>A distribution is a payment out of the buyer's escrow.\<close>

lemma sum_list_filter_rows: "sum_list (map v (filter p rs)) = sum_rows p v rs"
  by (simp add: sum_rows_def)

lemma find_filter: "find p (filter q xs) = find (\<lambda>x. q x \<and> p x) xs"
  by (induction xs) auto

lemma distributeCredit_run:
  "distributeCredit now cid buyer seller amount mid back s = Inr (x, s') \<longleftrightarrow>
     posted s buyer cid ''purchase'' \<noteq> None \<and> safe_int (to_minor amount) \<and> 0 < to_minor amount
   \<and> 0 \<le> to_minor back \<and> to_minor back \<le> to_minor amount \<and> to_minor amount \<le> held s buyer cid
   \<and> (to_minor back < to_minor amount \<longrightarrow> seller \<noteq> None)
   \<and> pay_out (changeCredit now) buyer (the seller) cid (''contract_settlement:'' @ operation mid)
       (''contract_sale:'' @ operation mid) (to_minor back) (to_minor amount) s = Inr (x, s')"
proof -
  have c: "(\<lambda>e. ce_reference e = cid \<and> ce_user_id e = buyer) = (\<lambda>e. ce_user_id e = buyer \<and> ce_reference e = cid)"
    by (auto simp: fun_eq_iff)
  have h: "sum_list (map ce_escrow_delta (filter (\<lambda>e. ce_user_id e = buyer \<and> ce_reference e = cid) (credit_entries s)))
      = held s buyer cid"
    by (simp add: held_def sum_list_filter_rows)
  have p: "(find (\<lambda>e. ce_kind e = ''purchase'') (filter (\<lambda>e. ce_user_id e = buyer \<and> ce_reference e = cid) (credit_entries s)) = None)
      \<longleftrightarrow> posted s buyer cid ''purchase'' = None"
    by (simp add: find_filter posted_def conj_assoc)
  show ?thesis
    unfolding distributeCredit_def pay_out_def Let_def
    by (simp add: bnd_run andthen_run onlyif_run c h p if_bool_eq_conj linorder_not_le linorder_not_less del: not_None_eq)
      (auto simp del: not_None_eq)
qed

lemma pay_out_held:
  assumes "pay_out (changeCredit now) payer payee r k k' back amount s = Inr (x, s')" and "back \<le> amount"
  shows "held s' v r' = held s v r' - (if v = payer \<and> r' = r then amount else 0)"
  using assms by (auto simp: pay_out_def andthen_run onlyif_run held_change split: if_splits)

section \<open>Shares of a disputed milestone\<close>

text \<open>
  The cents of a split.  Amounts are at most a million dollars
  (\<open>validateEscrowAmount\<close>), so every rounding error stays far below half a cent.
\<close>

lemma of_minor_error:
  assumes "0 \<le> n" and "n \<le> 100000000"
  shows "\<bar>of_minor n - of_int n / 100\<bar> \<le> 1 / 1000000000"
proof -
  have "\<bar>of_int n / 100 :: rat\<bar> \<le> 1000000" using assms by simp
  from fl_error_abs [OF this] show ?thesis by (simp add: of_minor_def jdiv_def)
qed

lemma share_error:
  assumes "0 \<le> n" and "n \<le> 100000000" and "0 \<le> p" and "p \<le> 100"
  shows "\<bar>jmul (of_minor n) p - of_int n * p / 100\<bar> \<le> 1 / 1000000"
proof -
  define a where "a = of_minor n"
  have e: "\<bar>a - of_int n / 100\<bar> \<le> 1 / 1000000000" unfolding a_def by (rule of_minor_error [OF assms(1,2)])
  have N: "0 \<le> (of_int n :: rat)" "(of_int n :: rat) \<le> 100000000" using assms(1,2) by simp_all
  have "\<bar>(a - of_int n / 100) * p\<bar> = \<bar>a - of_int n / 100\<bar> * p" using assms(3) by (simp only: abs_mult abs_of_nonneg)
  also have "\<dots> \<le> 1 / 1000000000 * 100" using e assms(3,4) by (intro mult_mono) simp_all
  finally have d: "\<bar>(a - of_int n / 100) * p\<bar> \<le> 1 / 10000000" by simp
  have "\<bar>a\<bar> \<le> 1000000 + 1" using e N by linarith
  then have "\<bar>a\<bar> * p \<le> (1000000 + 1) * 100" using assms(3,4) by (intro mult_mono) simp_all
  then have "\<bar>a * p\<bar> \<le> (1000000 + 1) * 100" using assms(3) by (simp only: abs_mult abs_of_nonneg)
  from fl_error_abs [OF this] have f: "\<bar>fl (a * p) - a * p\<bar> \<le> 1 / 10000000" by simp
  have "(a - of_int n / 100) * p = a * p - of_int n * p / 100" by (simp add: algebra_simps)
  with d have "\<bar>a * p - of_int n * p / 100\<bar> \<le> 1 / 10000000" by simp
  with f have "\<bar>fl (a * p) - of_int n * p / 100\<bar> \<le> 1 / 1000000" by linarith
  then show ?thesis by (simp add: jmul_def a_def)
qed

definition seller_cents :: "num \<Rightarrow> num \<Rightarrow> int" where
  "seller_cents amount percent = jround (jmul amount percent)"

lemma seller_share_cents: "seller_share amount percent = of_minor (seller_cents amount percent)"
  by (simp add: seller_share_def seller_cents_def)

lemma jround_error: "\<bar>of_int (jround x) - x\<bar> \<le> 1 / 2"
  unfolding jround_def by linarith

lemma seller_cents_bounds:
  assumes "0 \<le> n" and "n \<le> 100000000" and "0 \<le> p" and "p \<le> 100"
  shows "0 \<le> seller_cents (of_minor n) p" and "seller_cents (of_minor n) p \<le> n"
    and "\<bar>of_int (seller_cents (of_minor n) p) - of_int n * p / 100\<bar> \<le> 1 / 2 + 1 / 1000000"
proof -
  let ?x = "jmul (of_minor n) p"
  have e: "\<bar>?x - of_int n * p / 100\<bar> \<le> 1 / 1000000" by (rule share_error [OF assms])
  then show "\<bar>of_int (seller_cents (of_minor n) p) - of_int n * p / 100\<bar> \<le> 1 / 2 + 1 / 1000000"
    unfolding seller_cents_def using jround_error [of ?x] by linarith
  have N: "0 \<le> (of_int n :: rat)" using assms(1) by simp
  have lo: "0 \<le> of_int n * p / 100" using N assms(3) by simp
  have "of_int n * p \<le> of_int n * 100" by (rule mult_left_mono [OF assms(4) N])
  then have hi: "of_int n * p / 100 \<le> of_int n" by simp
  have "- 1 / 2 \<le> ?x" "?x < of_int n + 1 / 2" using e lo hi by linarith+
  then show "0 \<le> seller_cents (of_minor n) p" "seller_cents (of_minor n) p \<le> n"
    unfolding seller_cents_def jround_def by (simp_all add: le_floor_iff floor_le_iff)
qed

lemma buyer_share_cents:
  assumes "0 \<le> k" and "k \<le> n" and "n \<le> 100000000"
  shows "jround (jmul (jsub (of_minor n) (of_minor k)) 100) = n - k"
proof -
  define d where "d = of_minor n - of_minor k"
  have n: "\<bar>of_minor n - of_int n / 100\<bar> \<le> 1 / 1000000000" by (rule of_minor_error) (use assms in simp_all)
  have k: "\<bar>of_minor k - of_int k / 100\<bar> \<le> 1 / 1000000000" by (rule of_minor_error) (use assms in simp_all)
  define D where "D = (of_int (n - k) :: rat)"
  have N: "0 \<le> D" "D \<le> 100000000" using assms by (simp_all add: D_def del: of_int_diff)
  have "D / 100 = of_int n / 100 - of_int k / 100" by (simp add: D_def diff_divide_distrib)
  then have e: "\<bar>d - D / 100\<bar> \<le> 2 / 1000000000" using n k unfolding d_def by linarith
  then have "\<bar>d\<bar> \<le> 1000000 + 1" using N by linarith
  from fl_error_abs [OF this] have "\<bar>fl d - d\<bar> \<le> 1 / 100000000" by simp
  with e have g: "\<bar>fl d - D / 100\<bar> \<le> 2 / 100000000" by linarith
  then have "\<bar>fl d\<bar> \<le> 1000000 + 1" using N by linarith
  then have "\<bar>fl d * 100\<bar> \<le> 1000000000" by (simp add: abs_mult)
  from fl_error_abs [OF this] have "\<bar>fl (fl d * 100) - fl d * 100\<bar> \<le> 1 / 100000" by simp
  moreover have "\<bar>fl d * 100 - D\<bar> \<le> 2 / 1000000" using g by linarith
  ultimately have "\<bar>fl (fl d * 100) - D\<bar> < 1 / 2" by linarith
  then show ?thesis unfolding jmul_def jsub_def d_def [symmetric] D_def by (rule jround_near)
qed

lemma buyer_share_minor:
  assumes "0 \<le> n" and "n \<le> 100000000" and "0 \<le> p" and "p \<le> 100"
  shows "to_minor (buyer_share (of_minor n) p) = n - seller_cents (of_minor n) p"
proof -
  note b = seller_cents_bounds [OF assms]
  have "\<bar>n - seller_cents (of_minor n) p\<bar> \<le> 2 ^ 50" using b(1,2) assms(2) by simp
  then show ?thesis
    by (simp add: buyer_share_def seller_share_cents buyer_share_cents [OF b(1,2) assms(2)] to_minor_of_minor)
qed

section \<open>What a distribution does\<close>

definition credit_contract :: "db \<Rightarrow> id \<Rightarrow> bool" where
  "credit_contract s cid \<longleftrightarrow>
     (\<exists>c. find (\<lambda>c. c_id c = cid) (contracts s) = Some c \<and> c_payment_rail c = Credit)"

lemma usesCredit_run [run_simps]:
  "usesCredit cid s = Inr p \<longleftrightarrow>
     (\<exists>c. find (\<lambda>c. c_id c = cid) (contracts s) = Some c \<and> p = (c_payment_rail c = Credit, s))"
  by (auto simp: usesCredit_def run_simps)

lemma validateEscrowAmount_run [run_simps]:
  "validateEscrowAmount a s = Inr p \<longleftrightarrow> 0 < a \<and> a \<le> 1000000 \<and> p = ((), s)"
  by (auto simp: validateEscrowAmount_def run_simps)

lemma refund_credit_run:
  "credit_contract s cid \<Longrightarrow> refundContractFunds now cid buyer amount mid s = Inr p \<longleftrightarrow>
     0 < amount \<and> amount \<le> 1000000 \<and> distributeCredit now cid buyer None amount mid amount s = Inr p"
  by (auto simp: refundContractFunds_def credit_contract_def run_simps)

lemma release_credit_run:
  "credit_contract s cid \<Longrightarrow> releaseContractFunds now cid mid buyer seller amount s = Inr p \<longleftrightarrow>
     0 < amount \<and> amount \<le> 1000000 \<and> distributeCredit now cid buyer (Some seller) amount (Some mid) 0 s = Inr p"
  by (auto simp: releaseContractFunds_def credit_contract_def run_simps)

lemma split_credit_run:
  "credit_contract s cid \<Longrightarrow> splitContractFunds now cid mid buyer seller amount p s = Inr q \<longleftrightarrow>
     0 < amount \<and> amount \<le> 1000000 \<and> 0 \<le> p \<and> p \<le> 100
     \<and> distributeCredit now cid buyer (Some seller) amount (Some mid) (buyer_share amount p) s = Inr q"
  by (auto simp: splitContractFunds_def credit_contract_def run_simps Let_def)

lemma distributeCredit_laws:
  assumes "books s" and "distributeCredit now cid buyer seller amount mid back s = Inr (x, s')"
  shows "books s'" and "total_credit s' = total_credit s"
    and "held s' v r = held s v r - (if v = buyer \<and> r = cid then to_minor amount else 0)"
    and "escrowed s' v = escrowed s v - (if v = buyer then to_minor amount else 0)"
    and "to_minor back < to_minor amount \<Longrightarrow> avail s' v = avail s v + (if v = buyer then to_minor back else 0)
           + (if Some v = seller then to_minor amount - to_minor back else 0)"
    and "to_minor back = to_minor amount \<Longrightarrow> avail s' v = avail s v + (if v = buyer then to_minor amount else 0)"
    and "posted s buyer cid (''contract_settlement:'' @ operation mid) = None"
    and "posted s' buyer cid (''contract_settlement:'' @ operation mid) \<noteq> None"
    and "posted s buyer cid ''purchase'' \<noteq> None" and "0 < to_minor amount" and "to_minor amount \<le> held s buyer cid"
    and "0 \<le> to_minor back \<and> to_minor back \<le> to_minor amount"
proof -
  from assms(2) have g: "posted s buyer cid ''purchase'' \<noteq> None" "0 < to_minor amount" "to_minor amount \<le> held s buyer cid"
      "0 \<le> to_minor back" "to_minor back \<le> to_minor amount" "to_minor back < to_minor amount \<longrightarrow> seller \<noteq> None"
    and pay: "pay_out (changeCredit now) buyer (the seller) cid (''contract_settlement:'' @ operation mid)
       (''contract_sale:'' @ operation mid) (to_minor back) (to_minor amount) s = Inr (x, s')"
    unfolding distributeCredit_run by blast+
  note laws = cj.pay_out_laws [OF assms(1) pay g(5)]
  show "books s'" "total_credit s' = total_credit s" "escrowed s' v = escrowed s v - (if v = buyer then to_minor amount else 0)"
    "posted s buyer cid (''contract_settlement:'' @ operation mid) = None"
    "posted s' buyer cid (''contract_settlement:'' @ operation mid) \<noteq> None" using laws by blast+
  show "held s' v r = held s v r - (if v = buyer \<and> r = cid then to_minor amount else 0)"
    by (rule pay_out_held [OF pay g(5)])
  show "to_minor back < to_minor amount \<Longrightarrow> avail s' v = avail s v + (if v = buyer then to_minor back else 0)
           + (if Some v = seller then to_minor amount - to_minor back else 0)"
    using laws(5) [of v] g(6) by auto
  show "to_minor back = to_minor amount \<Longrightarrow> avail s' v = avail s v + (if v = buyer then to_minor amount else 0)"
    using laws(5) [of v] by auto
qed (use assms(2) in \<open>simp_all add: distributeCredit_run\<close>)

text \<open>The part of the database that no distribution for a credit contract touches.\<close>

lemma same_distributeCredit: "same beside_credit (distributeCredit now cid buyer seller amount mid back)"
  unfolding distributeCredit_def Let_def by (intro same_intros same_changeCredit)

text \<open>A milestone's distribution, in any of its three forms.\<close>

definition distributed :: "seconds \<Rightarrow> id \<Rightarrow> id \<Rightarrow> id \<Rightarrow> id \<Rightarrow> num \<Rightarrow> db \<Rightarrow> db \<Rightarrow> bool" where
  "distributed now cid mid buyer seller amount s s' \<longleftrightarrow>
     releaseContractFunds now cid mid buyer seller amount s = Inr ((), s')
   \<or> refundContractFunds now cid buyer amount (Some mid) s = Inr ((), s')
   \<or> (\<exists>p. splitContractFunds now cid mid buyer seller amount p s = Inr ((), s'))"

lemma distributed_run:
  assumes "credit_contract s cid" and "distributed now cid mid buyer seller amount s s'"
  obtains sel bk where "distributeCredit now cid buyer sel amount (Some mid) bk s = Inr ((), s')"
  using assms unfolding distributed_def
  by (auto simp: refund_credit_run release_credit_run split_credit_run)

lemma credit_contract_beside: "beside_credit s' = beside_credit s \<Longrightarrow> credit_contract s' cid = credit_contract s cid"
  by (metis beside_credit_def credit_contract_def db.select_convs(8) db.surjective db.update_convs(1,2))

text \<open>
  C4. Each milestone of a credit contract is paid out of the buyer's escrow at most
  once: whether it is released, refunded or split, the contract's hold falls by
  exactly the amount, never below zero, no credit is created or destroyed, the
  books stay balanced, and no second distribution of any form succeeds for it.
\<close>

theorem milestone_distributed_once:
  assumes "books s" and "credit_contract s cid" and "distributed now cid mid buyer seller amount s s'"
  shows "held s' buyer cid = held s buyer cid - to_minor amount \<and> 0 \<le> held s' buyer cid \<and> 0 < to_minor amount
    \<and> total_credit s' = total_credit s \<and> books s'
    \<and> (\<forall>r. r \<noteq> cid \<longrightarrow> held s' buyer r = held s buyer r)
    \<and> (\<forall>later seller' amount' s''. \<not> distributed later cid mid buyer seller' amount' s' s'')"
proof -
  obtain sel bk where d: "distributeCredit now cid buyer sel amount (Some mid) bk s = Inr ((), s')"
    by (rule distributed_run [OF assms(2,3)])
  note l = distributeCredit_laws [OF assms(1) d]
  have c': "credit_contract s' cid"
    using credit_contract_beside [OF sameD [OF same_distributeCredit d]] assms(2) by simp
  have "\<not> distributed later cid mid buyer seller' amount' s' s''" for later seller' amount' s''
  proof
    assume "distributed later cid mid buyer seller' amount' s' s''"
    then obtain sel' bk where "distributeCredit later cid buyer sel' amount' (Some mid) bk s' = Inr ((), s'')"
      by (rule distributed_run [OF c'])
    from distributeCredit_laws(7) [OF l(1) this] l(8) show False by simp
  qed
  with l(1,2,10,11) l(3) [of buyer] show ?thesis by simp
qed

text \<open>
  C6. A dispute split of \<open>n\<close> cents is exact to the cent: the seller receives the
  nearest whole number of cents to the given percentage (within half a cent and a
  millionth), the buyer gets back all the rest, both parts are between zero and
  the milestone, and together they are the milestone.
\<close>

theorem split_distributes_exactly:
  assumes "books s" and "credit_contract s cid" and "buyer \<noteq> seller" and "0 < n"
    and "splitContractFunds now cid mid buyer seller (of_minor n) p s = Inr (x, s')"
  shows "\<exists>k. 0 \<le> k \<and> k \<le> n \<and> \<bar>of_int k - of_int n * p / 100\<bar> \<le> 1 / 2 + 1 / 1000000
    \<and> avail s' seller = avail s seller + k \<and> avail s' buyer = avail s buyer + (n - k)
    \<and> escrowed s' buyer = escrowed s buyer - n
    \<and> (\<forall>v. v \<noteq> buyer \<and> v \<noteq> seller \<longrightarrow> avail s' v = avail s v)"
proof -
  from assms(5) have g: "of_minor n \<le> 1000000" "0 \<le> p" "p \<le> 100"
    and d: "distributeCredit now cid buyer (Some seller) (of_minor n) (Some mid) (buyer_share (of_minor n) p) s = Inr (x, s')"
    unfolding split_credit_run [OF assms(2)] by blast+
  note l = distributeCredit_laws [OF assms(1) d]
  have small: "n \<le> 100000000"
  proof (rule ccontr)
    assume "\<not> n \<le> 100000000"
    define q :: rat where "q = of_int n / 100"
    have N: "1000000 + 1 / 100 \<le> q"
      using \<open>\<not> n \<le> 100000000\<close> of_int_le_iff [of "100000001" n, where 'a = rat] by (simp add: q_def)
    then have "\<bar>q\<bar> \<le> q" by simp
    from fl_error_abs [OF this] have "\<bar>of_minor n - q\<bar> \<le> q / 9007199254740992"
      by (simp add: of_minor_def jdiv_def q_def)
    with N g(1) show False by linarith
  qed
  let ?k = "seller_cents (of_minor n) p"
  have b: "0 \<le> ?k" "?k \<le> n" "\<bar>of_int ?k - of_int n * p / 100\<bar> \<le> 1 / 2 + 1 / 1000000"
    using seller_cents_bounds [of n p] assms(4) small g(2,3) by simp_all
  have am: "to_minor (of_minor n) = n" by (rule to_minor_of_minor) (use small assms(4) in simp)
  have bm: "to_minor (buyer_share (of_minor n) p) = n - ?k" by (rule buyer_share_minor) (use small assms(4) g in simp_all)
  have "avail s' v = avail s v + (if v = buyer then n - ?k else 0) + (if v = seller then ?k else 0)" for v
    using l(5) [of v] l(6) [of v] assms(3) b(1) by (cases "?k = 0") (auto simp: am bm)
  then show ?thesis using b assms(3) l(4) [of buyer] by (intro exI [of _ ?k]) (simp add: am)
qed

section \<open>An example\<close>

text \<open>A credit contract of ten dollars, funded with a fee of fifty cents.\<close>

definition sample_contract :: contract where
  "sample_contract = \<lparr>c_id = ''c1'', c_buyer_id = ''buyer'', c_seller_id = ''seller'', c_listing_id = None,
     c_total_amount = 10, c_fee_amount = 1 / 2, c_escrow_amount = 21 / 2, c_payment_rail = Credit,
     c_funded_at = Some 0, c_organization_id = None, c_state = FUNDED, c_expires_at = None,
     c_current_milestone_index = 0, c_dispute_id = None, c_created_at = 0, c_updated_at = 0\<rparr>"

definition escrow_db :: db where
  "escrow_db = empty_db\<lparr>
     contracts := [sample_contract],
     credit_accounts := [\<lparr>ca_user_id = ''buyer'', ca_available_minor = 0, ca_escrow_minor = 1000\<rparr>,
       \<lparr>ca_user_id = ''fees'', ca_available_minor = 50, ca_escrow_minor = 0\<rparr>],
     credit_entries := [
       \<lparr>ce_user_id = ''buyer'', ce_reference = ''d1'', ce_kind = ''deposit'', ce_available_delta = 1050, ce_escrow_delta = 0, ce_created_at = 0\<rparr>,
       \<lparr>ce_user_id = ''buyer'', ce_reference = ''c1'', ce_kind = ''purchase'', ce_available_delta = - 1050, ce_escrow_delta = 1000, ce_created_at = 0\<rparr>,
       \<lparr>ce_user_id = ''fees'', ce_reference = ''c1'', ce_kind = ''fee'', ce_available_delta = 50, ce_escrow_delta = 0, ce_created_at = 0\<rparr>]\<rparr>"

lemma books_escrow: "books escrow_db"
  by (auto simp: books_def escrow_db_def avail_def escrowed_def creditBalance_def)

lemma credit_contract_escrow: "credit_contract escrow_db ''c1''"
  by (simp add: credit_contract_def escrow_db_def sample_contract_def)

lemma split_ten_dollars:
  "\<exists>s'. splitContractFunds 5 ''c1'' ''m1'' ''buyer'' ''seller'' 10 50 escrow_db = Inr ((), s')"
proof -
  have m: "to_minor 10 = 1000" "to_minor 5 = 500" using to_minor_numeral by simp_all
  have five: "of_minor 500 = 5" by (simp add: of_minor_def jdiv_def fl_numeral)
  have b: "buyer_share 10 50 = 5"
    by (simp add: buyer_share_def seller_share_def jmul_def jsub_def fl_numeral five)
  have "\<exists>s'. distributeCredit 5 ''c1'' ''buyer'' (Some ''seller'') 10 (Some ''m1'') 5 escrow_db = Inr ((), s')"
    by (simp add: distributeCredit_def Let_def m eval_credit escrow_db_def operation_def truthy_def)
  then show ?thesis by (simp add: split_credit_run credit_contract_escrow b)
qed

lemma milestone_distributed_once_witness:
  "\<exists>s'. held s' ''buyer'' ''c1'' = 0 \<and> total_credit s' = total_credit escrow_db
     \<and> \<not> distributed 9 ''c1'' ''m1'' ''buyer'' ''seller'' 10 s' escrow_db"
proof -
  obtain s' where s': "splitContractFunds 5 ''c1'' ''m1'' ''buyer'' ''seller'' 10 50 escrow_db = Inr ((), s')"
    using split_ten_dollars by blast
  then have d: "distributed 5 ''c1'' ''m1'' ''buyer'' ''seller'' 10 escrow_db s'" by (auto simp: distributed_def)
  have "to_minor 10 = 1000" using to_minor_numeral by simp
  moreover have "held escrow_db ''buyer'' ''c1'' = 1000" by (simp add: held_def escrow_db_def)
  ultimately show ?thesis using milestone_distributed_once [OF books_escrow credit_contract_escrow d] by auto
qed

lemma split_distributes_exactly_witness:
  "\<exists>s' k. avail s' ''seller'' = k \<and> avail s' ''buyer'' = 1000 - k \<and> \<bar>of_int k - 500\<bar> \<le> (1 / 2 + 1 / 1000000 :: rat)"
proof -
  have ten: "of_minor 1000 = 10" by (simp add: of_minor_def jdiv_def fl_numeral)
  obtain s' where s': "splitContractFunds 5 ''c1'' ''m1'' ''buyer'' ''seller'' (of_minor 1000) 50 escrow_db = Inr ((), s')"
    using split_ten_dollars by (auto simp: ten)
  have "avail escrow_db ''seller'' = 0" "avail escrow_db ''buyer'' = 0"
    by (simp_all add: avail_def creditBalance_def escrow_db_def)
  then show ?thesis
    using split_distributes_exactly [OF books_escrow credit_contract_escrow _ _ s'] by (auto intro!: exI [of _ s'])
qed

end
