(* ===== verification/MarketGuards.thy ===== *)
theory MarketGuards
  imports SpendPolicy
begin

text \<open>
  The guards every new obligation passes: which payment rails a seller accepts
  (\<open>lib/seller-payment-rails.ts\<close>), which sellers and listings are on the market
  (\<open>lib/listing-visibility.ts\<close>, \<open>lib/contract-listing-scope.ts\<close>), the operator's
  pause (\<open>lib/payment-control.ts\<close>) and the account that takes the fees
  (\<open>lib/settlement.ts\<close>).
\<close>

section \<open>Payment rails\<close>

definition MARKETPLACE_RAILS :: "rail list" where
  "MARKETPLACE_RAILS = [Credit, Ledger, Mpp, Evm]"

text \<open>
  The rails a seller takes, and whether the seller chose them.  The stored JSON is a
  list of rails by its type, so the check against \<open>MARKETPLACE_RAILS\<close> cannot fail.
\<close>

definition sellerPaymentRails :: "db \<Rightarrow> id \<Rightarrow> rail list \<times> bool" where
  "sellerPaymentRails s sellerId =
     (case find (\<lambda>p. sp_seller_id p = sellerId) (seller_payment_preferences s) of
        Some row \<Rightarrow> (sp_supported_rails row, True)
      | None \<Rightarrow> ([Ledger, Mpp, Evm], False))"

definition requireSellerPaymentRail :: "id \<Rightarrow> rail \<Rightarrow> unit dbtx" where
  "requireSellerPaymentRail sellerId r =
     bnd (asks (\<lambda>s. fst (sellerPaymentRails s sellerId))) (\<lambda>supported. require (r \<in> set supported) SellerRailError)"

section \<open>Listings on the market\<close>

definition starts_with :: "string \<Rightarrow> string \<Rightarrow> bool" where
  "starts_with p s \<longleftrightarrow> take (length p) s = p"

definition public_agent :: "agent \<Rightarrow> bool" where
  "public_agent a \<longleftrightarrow> ag_active a \<and> ag_public a \<and> ag_archived_at a = None"

definition isPublicMarketplaceSeller :: "db \<Rightarrow> id \<Rightarrow> bool" where
  "isPublicMarketplaceSeller s sellerId =
     (if \<not> starts_with agent_prefix sellerId then True
      else (case find (\<lambda>a. ag_id a = drop (length agent_prefix) sellerId) (agents s) of
              None \<Rightarrow> False
            | Some a \<Rightarrow> public_agent a))"

definition originalPrivateServiceListing :: "db \<Rightarrow> id \<Rightarrow> bool" where
  "originalPrivateServiceListing s listingId \<longleftrightarrow>
     list_ex (\<lambda>o'. so_listing_id o' = listingId \<and>
        list_ex (\<lambda>d. sd_id d = so_service_id o' \<and> (so_private_provider_share_id o' \<noteq> None \<or> sd_organization_only d))
          (service_definitions s)) (service_orders s)"

definition originalReviewedTaskListing :: "db \<Rightarrow> id \<Rightarrow> bool" where
  "originalReviewedTaskListing s listingId \<longleftrightarrow>
     list_ex (\<lambda>u. list_ex (\<lambda>t. t_id t = tu_trade_id u \<and> t_listing_id t = listingId) (trades s)) (organization_task_uses s)"

definition originalReviewedListing :: "db \<Rightarrow> id \<Rightarrow> bool" where
  "originalReviewedListing s listingId \<longleftrightarrow> list_ex (\<lambda>u. lu_listing_id u = listingId) (organization_listing_uses s)"

definition originalReviewedContractListing :: "db \<Rightarrow> id \<Rightarrow> bool" where
  "originalReviewedContractListing s listingId \<longleftrightarrow>
     list_ex (\<lambda>u. list_ex (\<lambda>g. ga_id g = gu_authorization_id u \<and> ga_terms_listing_id g = Some listingId)
        (organization_contract_authorizations s)) (organization_contract_uses s)"

text \<open>\<open>PUBLIC_LISTING_SELLER_WHERE_SQL\<close>, the same rule as the catalogue's query states it.\<close>

definition PUBLIC_LISTING_SELLER_WHERE_SQL :: "db \<Rightarrow> listing \<Rightarrow> bool" where
  "PUBLIC_LISTING_SELLER_WHERE_SQL s l \<longleftrightarrow>
     \<not> list_ex (\<lambda>(u, g). ga_id g = gu_authorization_id u \<and> ga_terms_listing_id g = Some (l_id l))
         (List.product (organization_contract_uses s) (organization_contract_authorizations s))
   \<and> \<not> list_ex (\<lambda>u. lu_listing_id u = l_id l) (organization_listing_uses s)
   \<and> \<not> list_ex (\<lambda>(u, t). t_id t = tu_trade_id u \<and> t_listing_id t = l_id l)
         (List.product (organization_task_uses s) (trades s))
   \<and> \<not> list_ex (\<lambda>(o', d). sd_id d = so_service_id o' \<and> so_listing_id o' = l_id l
           \<and> (so_private_provider_share_id o' \<noteq> None \<or> sd_organization_only d))
         (List.product (service_orders s) (service_definitions s))
   \<and> (\<not> starts_with agent_prefix (l_seller_id l)
      \<or> list_ex (\<lambda>a. agent_prefix @ ag_id a = l_seller_id l \<and> ag_active a \<and> ag_public a \<and> ag_archived_at a = None) (agents s))"

definition genericListingFundingGuard :: "id \<Rightarrow> id \<Rightarrow> unit dbtx" where
  "genericListingFundingGuard listingId buyerId =
     bnd (select_one organization_listing_uses (\<lambda>u. lu_listing_id u = listingId)) (\<lambda>used.
     andthen (require (used = None) (PurchasingError ''LISTING_ORIGINAL_CHECKOUT_REQUIRED'' 409))
    (bnd (select_one organization_listing_authorizations (\<lambda>g. la_listing_id g = listingId \<and> la_buyer_id g = buyerId)) (\<lambda>row.
       require (row = None) (PurchasingError ''LISTING_REVIEWED_CHECKOUT_REQUIRED'' 409))))"

definition genericContractFundingGuard :: "id \<Rightarrow> unit dbtx" where
  "genericContractFundingGuard contractId =
     bnd (select_one organization_contract_authorizations (\<lambda>g. ga_contract_id g = contractId)) (\<lambda>row.
       require (row = None) (PurchasingError ''CONTRACT_REVIEWED_FUNDING_REQUIRED'' 409))"

text \<open>A listing some task's workspace was opened for.\<close>

definition task_listing :: "db \<Rightarrow> id \<Rightarrow> bool" where
  "task_listing s listingId \<longleftrightarrow>
     list_ex (\<lambda>w. list_ex (\<lambda>t. tw_trade_id w = Some (t_id t) \<and> t_listing_id t = listingId) (trades s)) (task_workspaces s)"

definition requireContractListingScope :: "id \<Rightarrow> id option \<Rightarrow> id option \<Rightarrow> listing dbtx" where
  "requireContractListingScope listingId expectedSeller fundingBuyer =
     bnd (select_one listings (\<lambda>l. l_id l = listingId)) (\<lambda>found.
     bnd (some_or (PurchasingError ''CONTRACT_LISTING_NOT_FOUND'' 404) found) (\<lambda>l.
     bnd (asks (\<lambda>s. l_status l \<noteq> L_active \<or> truthy expectedSeller \<and> Some (l_seller_id l) \<noteq> expectedSeller
           \<or> \<not> isPublicMarketplaceSeller s (l_seller_id l) \<or> originalPrivateServiceListing s listingId
           \<or> originalReviewedTaskListing s listingId \<or> originalReviewedListing s listingId
           \<or> originalReviewedContractListing s listingId)) (\<lambda>unavailable.
     andthen (require (\<not> unavailable) (PurchasingError ''CONTRACT_LISTING_UNAVAILABLE'' 409))
    (bnd (asks (\<lambda>s. task_listing s listingId)) (\<lambda>task.
     andthen (require (\<not> task) (PurchasingError ''CONTRACT_LISTING_UNAVAILABLE'' 409))
    (andthen (case fundingBuyer of None \<Rightarrow> ret ()
        | Some b \<Rightarrow> onlyif (b \<noteq> []) (genericListingFundingGuard listingId b)) (ret l)))))))"

section \<open>The pause and the fee account\<close>

definition NEW_PAYMENTS_CONTROL_KEY :: string where
  "NEW_PAYMENTS_CONTROL_KEY = ''new_payments''"

text \<open>\<open>paused_env\<close> is whether the deployment's environment pauses new payments.\<close>

definition getNewPaymentControl :: "bool \<Rightarrow> db \<Rightarrow> bool" where
  "getNewPaymentControl paused_env s =
     (if paused_env then True
      else (case find (\<lambda>r. pc_key r = NEW_PAYMENTS_CONTROL_KEY) (payment_controls s) of
              None \<Rightarrow> False | Some r \<Rightarrow> pc_paused r))"

definition requireNewPaymentsOpen :: "bool \<Rightarrow> unit dbtx" where
  "requireNewPaymentsOpen paused_env =
     bnd (asks (getNewPaymentControl paused_env)) (\<lambda>paused. require (\<not> paused) NewPaymentsPausedError)"

definition setNewPaymentControl :: "bool \<Rightarrow> unit dbtx" where
  "setNewPaymentControl paused =
     (\<lambda>s. Inr ((), s\<lparr>payment_controls :=
        (if list_ex (\<lambda>r. pc_key r = NEW_PAYMENTS_CONTROL_KEY) (payment_controls s)
         then set_rows (\<lambda>r. pc_key r = NEW_PAYMENTS_CONTROL_KEY) (\<lambda>r. r\<lparr>pc_paused := paused\<rparr>) (payment_controls s)
         else payment_controls s @ [\<lparr>pc_key = NEW_PAYMENTS_CONTROL_KEY, pc_paused = paused\<rparr>])\<rparr>))"

definition fee_account :: id where
  "fee_account = ''system_marketplace_fees''"

definition fee_email :: string where
  "fee_email = ''fees@system.clawdmarket.local''"

definition ensureAdminFeeRecipient :: "id dbtx" where
  "ensureAdminFeeRecipient =
     andthen (insert_ignore users users_update (\<lambda>u. u_id u = fee_account \<or> u_email u = fee_email)
        \<lparr>u_id = fee_account, u_email = fee_email, u_is_agent = False\<rparr>)
    (andthen (insert_ignore wallets wallets_update (\<lambda>w. w_user_id w = fee_account)
        \<lparr>w_user_id = fee_account, w_balance = 0, w_escrow = 0\<rparr>)
       (ret fee_account))"

section \<open>The catalogue shows what checkout sells\<close>

lemma starts_with_append: "starts_with p s \<Longrightarrow> s = p @ drop (length p) s"
  unfolding starts_with_def by (metis append_take_drop_id)

lemma starts_with_prefix [simp]: "starts_with p (p @ s)"
  by (simp add: starts_with_def)

lemma list_ex_product: "list_ex (\<lambda>(x, y). P x y) (List.product xs ys) \<longleftrightarrow> list_ex (\<lambda>x. list_ex (P x) ys) xs"
  by (auto simp: list_ex_iff)

lemma public_seller_sql:
  assumes "distinct (map ag_id (agents s))"
  shows "isPublicMarketplaceSeller s u \<longleftrightarrow> \<not> starts_with agent_prefix u \<or>
    list_ex (\<lambda>a. agent_prefix @ ag_id a = u \<and> public_agent a) (agents s)"
proof (cases "starts_with agent_prefix u")
  case True
  define w where "w = drop (length agent_prefix) u"
  have u: "u = agent_prefix @ w" unfolding w_def by (rule starts_with_append [OF True])
  have "(case find (\<lambda>a. ag_id a = w) (agents s) of None \<Rightarrow> False | Some a \<Rightarrow> public_agent a)
      \<longleftrightarrow> list_ex (\<lambda>a. ag_id a = w \<and> public_agent a) (agents s)"
  proof (cases "find (\<lambda>a. ag_id a = w) (agents s)")
    case None
    then have "\<forall>a \<in> set (agents s). ag_id a \<noteq> w" by (simp add: find_None_iff)
    with None show ?thesis by (auto simp: list_ex_iff)
  next
    case (Some a)
    then have "a \<in> set (agents s)" "ag_id a = w" by (auto dest: find_Some_in)
    with Some unique_key_eq [OF assms] show ?thesis by (auto simp: list_ex_iff)
  qed
  then show ?thesis unfolding isPublicMarketplaceSeller_def w_def [symmetric] using True by (simp add: u)
qed (simp add: isPublicMarketplaceSeller_def)

text \<open>
  C7. The catalogue and the checkout agree: with one row per agent, a listing passes
  the query that the public catalogue and the statistics use exactly when its
  seller passes the seller check and none of the four checks for listings bound
  to an earlier private or reviewed purchase forbids it.
\<close>

theorem catalogue_matches_checkout:
  assumes "distinct (map ag_id (agents s))"
  shows "PUBLIC_LISTING_SELLER_WHERE_SQL s l \<longleftrightarrow>
     isPublicMarketplaceSeller s (l_seller_id l) \<and> \<not> originalPrivateServiceListing s (l_id l)
   \<and> \<not> originalReviewedTaskListing s (l_id l) \<and> \<not> originalReviewedListing s (l_id l)
   \<and> \<not> originalReviewedContractListing s (l_id l)"
proof -
  have p: "list_ex (\<lambda>a. agent_prefix @ ag_id a = u \<and> ag_active a \<and> ag_public a \<and> ag_archived_at a = None) (agents s)
     \<longleftrightarrow> list_ex (\<lambda>a. agent_prefix @ ag_id a = u \<and> public_agent a) (agents s)" for u
    by (simp add: public_agent_def)
  have o: "list_ex (\<lambda>o'. list_ex (\<lambda>d. sd_id d = so_service_id o' \<and> so_listing_id o' = l_id l \<and> Q o' d) ds) os
      \<longleftrightarrow> list_ex (\<lambda>o'. so_listing_id o' = l_id l \<and> list_ex (\<lambda>d. sd_id d = so_service_id o' \<and> Q o' d) ds) os" for Q ds os
    by (auto simp: list_ex_iff)
  show ?thesis
    unfolding PUBLIC_LISTING_SELLER_WHERE_SQL_def list_ex_product p public_seller_sql [OF assms]
      originalPrivateServiceListing_def originalReviewedTaskListing_def originalReviewedListing_def
      originalReviewedContractListing_def o
    by blast
qed

definition market_db :: db where
  "market_db = empty_db\<lparr>
     agents := [\<lparr>ag_id = ''a1'', ag_owner_address = None, ag_active = True, ag_public = True, ag_archived_at = None\<rparr>,
       \<lparr>ag_id = ''a2'', ag_owner_address = None, ag_active = True, ag_public = False, ag_archived_at = None\<rparr>],
     organization_listing_uses := [\<lparr>lu_authorization_id = ''g1'', lu_listing_id = ''l2''\<rparr>]\<rparr>"

lemma catalogue_matches_checkout_witness:
  "let l = \<lambda>i a. \<lparr>l_id = i, l_seller_id = agent_prefix @ a, l_price = 5, l_status = L_active, l_created_at = 0\<rparr> in
   PUBLIC_LISTING_SELLER_WHERE_SQL market_db (l ''l1'' ''a1'') \<and> \<not> PUBLIC_LISTING_SELLER_WHERE_SQL market_db (l ''l1'' ''a2'')
   \<and> \<not> PUBLIC_LISTING_SELLER_WHERE_SQL market_db (l ''l2'' ''a1'')"
proof -
  have d: "distinct (map ag_id (agents market_db))" by (simp add: market_db_def)
  show ?thesis unfolding Let_def catalogue_matches_checkout [OF d]
    by (simp add: isPublicMarketplaceSeller_def public_agent_def originalPrivateServiceListing_def
        originalReviewedTaskListing_def originalReviewedListing_def originalReviewedContractListing_def market_db_def)
qed

section \<open>What the guards let through\<close>

lemma requireSellerPaymentRail_run [run_simps]:
  "requireSellerPaymentRail u r s = Inr p \<longleftrightarrow> r \<in> set (fst (sellerPaymentRails s u)) \<and> p = ((), s)"
  by (auto simp: requireSellerPaymentRail_def run_simps)

lemma genericListingFundingGuard_run [run_simps]:
  "genericListingFundingGuard i b s = Inr p \<longleftrightarrow> find (\<lambda>u. lu_listing_id u = i) (organization_listing_uses s) = None
   \<and> find (\<lambda>g. la_listing_id g = i \<and> la_buyer_id g = b) (organization_listing_authorizations s) = None \<and> p = ((), s)"
  by (auto simp: genericListingFundingGuard_def run_simps)

lemma genericContractFundingGuard_run [run_simps]:
  "genericContractFundingGuard cid s = Inr p \<longleftrightarrow>
     find (\<lambda>g. ga_contract_id g = cid) (organization_contract_authorizations s) = None \<and> p = ((), s)"
  by (auto simp: genericContractFundingGuard_def run_simps)

lemma same_requireContractListingScope: "same v (requireContractListingScope i e b)"
  unfolding requireContractListingScope_def genericListingFundingGuard_def by (intro same_intros)

lemma same_requireSellerPaymentRail: "same v (requireSellerPaymentRail u r)"
  unfolding requireSellerPaymentRail_def by (intro same_intros)

lemma same_genericContractFundingGuard: "same v (genericContractFundingGuard cid)"
  unfolding genericContractFundingGuard_def by (intro same_intros)

end
