(* ===== verification/JsJson.thy ===== *)
theory JsJson
  imports Schema JsString "HOL-Library.Char_ord" "HOL-Library.List_Lexorder"
begin

text \<open>
  JSON values as JavaScript holds them: property lookup on a parsed object,
  \<open>JSON.stringify\<close> and the canonical text of \<open>scripts/verifier-contract.mjs\<close>.  The
  text of a number is the language's own and a parameter, \<open>show\<close>.
\<close>

section \<open>Objects\<close>

definition own_entry :: "string \<Rightarrow> (string \<times> json) list \<Rightarrow> json option" where
  "own_entry k o' = map_of o' k"

text \<open>What every plain object inherits from \<open>Object.prototype\<close>: no entry, but not \<open>undefined\<close>.\<close>

definition inherited_names :: "string list" where
  "inherited_names = [''constructor'', ''__defineGetter__'', ''__defineSetter__'', ''hasOwnProperty'',
     ''__lookupGetter__'', ''__lookupSetter__'', ''isPrototypeOf'', ''propertyIsEnumerable'', ''toString'',
     ''valueOf'', ''__proto__'', ''toLocaleString'']"

text \<open>\<open>o[k] === undefined || o[k] === null || o[k] === ''\<close>.\<close>

definition blank_property :: "string \<Rightarrow> (string \<times> json) list \<Rightarrow> bool" where
  "blank_property k o' = (case own_entry k o' of
     Some v \<Rightarrow> v = J_null \<or> v = J_str []
   | None \<Rightarrow> k \<notin> set inherited_names)"

section \<open>Text\<close>

definition hex_digit :: "nat \<Rightarrow> char" where
  "hex_digit n = char_of (if n < 10 then 48 + n else 87 + n)"

definition escape_char :: "char \<Rightarrow> string" where
  "escape_char c = (let n = of_char c :: nat in
     if n = 34 then [CHR 0x5C, CHR 0x22]
     else if n = 92 then [CHR 0x5C, CHR 0x5C]
     else if n = 8 then [CHR 0x5C, CHR ''b'']
     else if n = 9 then [CHR 0x5C, CHR ''t'']
     else if n = 10 then [CHR 0x5C, CHR ''n'']
     else if n = 12 then [CHR 0x5C, CHR ''f'']
     else if n = 13 then [CHR 0x5C, CHR ''r'']
     else if n < 32 then [CHR 0x5C, CHR ''u'', CHR ''0'', CHR ''0'', hex_digit (n div 16), hex_digit (n mod 16)]
     else [c])"

text \<open>\<open>Buffer.byteLength(s, 'utf8')\<close>, for characters up to U+00FF.\<close>

definition utf8_length :: "string \<Rightarrow> nat" where
  "utf8_length s = sum_list (map (\<lambda>c. if (of_char c :: nat) < 128 then 1 else 2) s)"

definition json_string :: "string \<Rightarrow> string" where
  "json_string s = [CHR 0x22] @ concat (map escape_char s) @ [CHR 0x22]"

fun separated :: "string list \<Rightarrow> string" where
  "separated [] = []"
| "separated [x] = x"
| "separated (x # xs) = x @ [CHR '',''] @ separated xs"

fun json_text :: "(num \<Rightarrow> string) \<Rightarrow> json \<Rightarrow> string" where
  "json_text show J_null = ''null''"
| "json_text show (J_bool b) = (if b then ''true'' else ''false'')"
| "json_text show (J_num n) = show n"
| "json_text show (J_str s) = json_string s"
| "json_text show (J_arr xs) = ''['' @ separated (map (json_text show) xs) @ '']''"
| "json_text show (J_obj es) =
     ''{'' @ separated (map (\<lambda>(k, v). json_string k @ '':'' @ json_text show v) es) @ ''}''"

text \<open>The same with the entries of every object in the order of their keys.\<close>

fun canonicalJSON :: "(num \<Rightarrow> string) \<Rightarrow> json \<Rightarrow> string" where
  "canonicalJSON show (J_arr xs) = ''['' @ separated (map (canonicalJSON show) xs) @ '']''"
| "canonicalJSON show (J_obj es) = ''{'' @ separated (map snd (sort_key fst
     (map (\<lambda>(k, v). (k, json_string k @ '':'' @ canonicalJSON show v)) es))) @ ''}''"
| "canonicalJSON show v = json_text show v"

end
