(* ===== verification/ContractLifecycle.thy ===== *)
theory ContractLifecycle
  imports ContractState ContractSettlement MarketGuards OrgBudgets JsJson
begin

text \<open>
  The requests that move a contract: funding, starting, cancelling and expiring it
  (\<open>app/api/contracts/[id]/route.ts\<close>), the work on its milestones
  (\<open>app/api/contracts/[id]/milestones/[milestoneId]/route.ts\<close>), the ruling on a
  dispute (\<open>app/api/admin/contracts/disputes/[id]/resolve/route.ts\<close>) and the
  periodic maintenance (\<open>app/api/contracts/maintenance/route.ts\<close>).  A draft is made in
  \<open>ContractCreation\<close>.

  A handler reads the contract and the milestone before its transaction begins, so
  the transaction takes both as arguments and may run in a later state, in which
  the rows have changed: its guards, which repeat the state that was read, decide.
  \<open>now\<close> is the clock of the request, read once.
\<close>

section \<open>The environment of a request\<close>

text \<open>
  What the handlers read that this theory does not define: the deployment's
  settings; the validation of a reviewed use (the part of
  \<open>originalReviewedContractUse\<close> behind an existing use row) with the terms it
  returns; acceptance, adjudication and creation in the reviewed flow; and the
  text of numbers in JSON.
\<close>

record reviewed_use =
  ru_total_minor :: int
  ru_expires_at :: "millis option"
  ru_milestones :: "(id \<times> int) list"
  ru_contract_state :: contract_state

record contract_env =
  ce_deployment :: deployment
  ce_contracts_v1 :: bool
  ce_credit_enabled :: bool
  ce_paused :: bool
  ce_validated_use :: "contract_use \<Rightarrow> id \<Rightarrow> reviewed_use dbtx"
  ce_accept_reviewed :: "id \<Rightarrow> id \<Rightarrow> id \<Rightarrow> db \<Rightarrow> nat \<times> db"
  ce_adjudicated :: "id \<Rightarrow> id \<Rightarrow> num option \<Rightarrow> unit dbtx"
  ce_show_num :: "num \<Rightarrow> string"

text \<open>The authenticated caller (\<open>RequestPrincipal\<close>), and whether its CSRF token was valid.\<close>

record principal =
  au_user_id :: id
  au_agent_id :: "id option"
  au_cookie_auth :: bool
  au_csrf_valid :: bool

text \<open>\<open>isValidUUID\<close>: groups of 8, 4, 4, 4 and 12 hexadecimal digits.\<close>

definition is_hex :: "char \<Rightarrow> bool" where
  "is_hex c \<longleftrightarrow> is_digit c \<or> lower_char c \<in> set ''abcdef''"

fun groups_of :: "nat list \<Rightarrow> string \<Rightarrow> bool" where
  "groups_of [] s \<longleftrightarrow> s = []"
| "groups_of [n] s \<longleftrightarrow> length s = n \<and> list_all is_hex s"
| "groups_of (n # ns) s \<longleftrightarrow> list_all is_hex (take n s) \<and> length (take n s) = n
     \<and> (case drop n s of [] \<Rightarrow> False | c # r \<Rightarrow> c = CHR ''-'' \<and> groups_of ns r)"

definition isValidUUID :: "string \<Rightarrow> bool" where
  "isValidUUID s \<longleftrightarrow> groups_of [8, 4, 4, 4, 12] s"

section \<open>Reviewed contracts\<close>

definition originalReviewedContractUse :: "contract_env \<Rightarrow> id \<Rightarrow> reviewed_use option dbtx" where
  "originalReviewedContractUse env contractId =
     bnd (select_one organization_contract_uses (\<lambda>u. gu_contract_id u = contractId)) (\<lambda>use. case use of
       Some u \<Rightarrow> bnd (ce_validated_use env u contractId) (\<lambda>r. ret (Some r))
     | None \<Rightarrow>
       bnd (select_one organization_contract_authorizations (\<lambda>g. ga_contract_id g = contractId)) (\<lambda>review. case review of
         None \<Rightarrow> ret None
       | Some _ \<Rightarrow>
         bnd (select_one contracts (\<lambda>c. c_id c = contractId)) (\<lambda>found.
         bnd (select_one credit_entries (\<lambda>e. ce_reference e = contractId \<and> ce_kind e = ''purchase'')) (\<lambda>purchase.
         andthen (require (case found of None \<Rightarrow> False | Some c \<Rightarrow> c_funded_at c = None \<and> purchase = None
               \<and> c_state c \<notin> {FUNDED, IN_PROGRESS, AWAITING_REVIEW, DISPUTED, COMPLETED, REFUNDED})
             (PurchasingError ''ORGANIZATION_CONTRACT_USE_INVALID'' 409))
           (ret None)))))"

section \<open>Actions on the contract\<close>

datatype contract_action = Fund_contract | Start_contract | Cancel_contract | Expire_contract

definition wholeCents :: "num \<Rightarrow> bool" where
  "wholeCents amount \<longleftrightarrow> 0 < amount \<and> near_cents amount"

definition minors :: "milestone list \<Rightarrow> int" where
  "minors ms = sum_list (map (\<lambda>m. to_minor (m_amount m)) ms)"

definition amounts_match :: "contract \<Rightarrow> milestone list \<Rightarrow> bool" where
  "amounts_match c ms \<longleftrightarrow> wholeCents (c_total_amount c) \<and> wholeCents (c_escrow_amount c) \<and> ms \<noteq> []
     \<and> list_all (\<lambda>m. wholeCents (m_amount m)) ms \<and> minors ms = to_minor (c_total_amount c)
     \<and> to_minor (c_total_amount c) + to_minor (c_fee_amount c) = to_minor (c_escrow_amount c)"

definition funding_context :: "contract \<Rightarrow> spend_context" where
  "funding_context c = \<lparr>sc_purchaseEvidence = None, sc_totalMinor = to_minor (c_escrow_amount c),
     sc_sellerId = Some (c_seller_id c), sc_capabilities = None, sc_paymentRail = Some Credit,
     sc_verificationMethods = Some [''buyer_review''], sc_retrySpendMinor = None\<rparr>"

text \<open>\<open>update(contracts)\<close> of the row with a given id in a given state.\<close>

definition move_contract :: "id \<Rightarrow> contract_state \<Rightarrow> (contract \<Rightarrow> contract) \<Rightarrow> contract list dbtx" where
  "move_contract cid from' f = update_where contracts contracts_update (\<lambda>c. c_id c = cid \<and> c_state c = from') f"

definition fundContract :: "contract_env \<Rightarrow> millis \<Rightarrow> id option \<Rightarrow> id option \<Rightarrow> contract \<Rightarrow> unit dbtx" where
  "fundContract env now agent feeRecipient c =
     andthen (genericContractFundingGuard (c_id c))
    (andthen (onlyif (truthy (c_listing_id c))
        (bnd (requireContractListingScope (the (c_listing_id c)) (Some (c_seller_id c)) (Some (c_buyer_id c))) (\<lambda>_. ret ())))
    (bnd (select_all contract_milestones (\<lambda>m. m_contract_id m = c_id c)) (\<lambda>ms.
     andthen (require (amounts_match c ms)
        (ContractActionError ''Contract amounts must match the milestone quote in whole cents'' 400))
    (andthen (if truthy agent
        then bnd (enforceAgentSpendPolicy (ce_deployment env) (the agent) (c_buyer_id c) (c_escrow_amount c) (funding_context c) now) (\<lambda>_. ret ())
        else enforceBuyerSpendPolicy (c_buyer_id c) (funding_context c) now)
    (andthen (onlyif (truthy (c_listing_id c))
        (bnd (update_where listings listings_update (\<lambda>l. Some (l_id l) = c_listing_id c \<and> l_status l = L_active)
             (\<lambda>l. l\<lparr>l_status := L_sold\<rparr>)) (\<lambda>claimed.
           require (claimed \<noteq> []) (ContractActionError ''The linked listing is no longer available'' 409))))
    (bnd (move_contract (c_id c) DRAFT (\<lambda>r. r\<lparr>c_state := FUNDED, c_payment_rail := Credit,
          c_funded_at := Some (to_seconds now), c_updated_at := to_seconds now\<rparr>)) (\<lambda>claimed.
     andthen (require (claimed \<noteq> []) (ContractActionError ''Contract is no longer awaiting funding'' 409))
    (andthen (attributeOrganizationContract agent (c_id c) (to_minor (c_escrow_amount c)) now)
    (andthen (requireSellerPaymentRail (c_seller_id c) Credit)
       (lockContractFunds (to_seconds now) (c_id c) (c_buyer_id c) (c_total_amount c) (c_fee_amount c) feeRecipient))))))))))"

definition milestones_of :: "db \<Rightarrow> id \<Rightarrow> milestone list" where
  "milestones_of s cid = sort_key m_index (filter (\<lambda>m. m_contract_id m = cid) (contract_milestones s))"

definition set_milestone :: "id \<Rightarrow> milestone_state \<Rightarrow> (milestone \<Rightarrow> milestone) \<Rightarrow> milestone list dbtx" where
  "set_milestone mid from' f =
     update_where contract_milestones contract_milestones_update (\<lambda>m. m_id m = mid \<and> m_state m = from') f"

definition startContract :: "millis \<Rightarrow> contract \<Rightarrow> unit dbtx" where
  "startContract now c =
     bnd (move_contract (c_id c) FUNDED (\<lambda>r. r\<lparr>c_state := IN_PROGRESS, c_updated_at := to_seconds now\<rparr>)) (\<lambda>claimed.
     andthen (require (claimed \<noteq> []) (ContractActionError ''Contract is not funded or has already started'' 409))
    (bnd (asks (\<lambda>s. milestones_of s (c_id c))) (\<lambda>ms. case ms of [] \<Rightarrow> ret ()
       | first # _ \<Rightarrow> onlyif (canTransitionMilestone (m_state first) M_ACTIVE)
           (bnd (set_milestone (m_id first) (m_state first) (\<lambda>m. m\<lparr>m_state := M_ACTIVE, m_updated_at := to_seconds now\<rparr>))
             (\<lambda>_. ret ())))))"

definition relist :: "contract \<Rightarrow> reviewed_use option \<Rightarrow> unit dbtx" where
  "relist c original = onlyif (truthy (c_listing_id c) \<and> original = None)
     (bnd (update_where listings listings_update (\<lambda>l. Some (l_id l) = c_listing_id c \<and> l_status l = L_sold)
        (\<lambda>l. l\<lparr>l_status := L_active\<rparr>)) (\<lambda>_. ret ()))"

definition refundable :: "contract \<Rightarrow> reviewed_use option \<Rightarrow> num" where
  "refundable c original = (case original of Some o' \<Rightarrow> of_minor (ru_total_minor o') | None \<Rightarrow> c_total_amount c)"

definition cancelContract :: "millis \<Rightarrow> contract \<Rightarrow> reviewed_use option \<Rightarrow> unit dbtx" where
  "cancelContract now c original =
     andthen (require (\<not> (c_state c \<noteq> DRAFT \<and> c_state c \<noteq> FUNDED))
        (ContractActionError ''Only draft or funded contracts can be canceled'' 409))
    (bnd (move_contract (c_id c) (c_state c) (\<lambda>r. r\<lparr>c_state := CANCELED, c_updated_at := to_seconds now\<rparr>)) (\<lambda>canceled.
     andthen (require (canceled \<noteq> []) (ContractActionError ''Contract state changed; refresh and try again'' 409))
       (onlyif (c_state c = FUNDED)
         (andthen (refundContractFunds (to_seconds now) (c_id c) (c_buyer_id c) (refundable c original) None)
            (relist c original)))))"

definition contract_expiry :: "contract \<Rightarrow> reviewed_use option \<Rightarrow> millis option" where
  "contract_expiry c original =
     (case original of Some o' \<Rightarrow> ru_expires_at o' | None \<Rightarrow> map_option (\<lambda>t. t * 1000) (c_expires_at c))"

definition expired_by :: "millis \<Rightarrow> millis option \<Rightarrow> bool" where
  "expired_by now expiry = (case expiry of None \<Rightarrow> False | Some t \<Rightarrow> \<not> now < t)"

definition expireContract :: "millis \<Rightarrow> contract \<Rightarrow> reviewed_use option \<Rightarrow> unit dbtx" where
  "expireContract now c original =
     andthen (require (c_state c = FUNDED) (ContractActionError ''Only an unstarted funded contract can expire'' 409))
    (andthen (require (expired_by now (contract_expiry c original)) (ContractActionError ''Contract has not expired yet'' 400))
    (bnd (move_contract (c_id c) FUNDED (\<lambda>r. r\<lparr>c_state := REFUNDED, c_updated_at := to_seconds now\<rparr>)) (\<lambda>expired.
     andthen (require (expired \<noteq> []) (ContractActionError ''Contract state changed; refresh and try again'' 409))
    (andthen (refundContractFunds (to_seconds now) (c_id c) (c_buyer_id c) (refundable c original) None)
       (relist c original)))))"

text \<open>The transaction of \<open>PATCH /api/contracts/[id]\<close>.\<close>

definition contractTransaction ::
  "contract_env \<Rightarrow> millis \<Rightarrow> id option \<Rightarrow> id option \<Rightarrow> contract_action \<Rightarrow> contract \<Rightarrow> unit dbtx" where
  "contractTransaction env now agent feeRecipient action c =
     bnd (if action = Fund_contract then ret None else originalReviewedContractUse env (c_id c)) (\<lambda>original.
     andthen (case action of
         Fund_contract \<Rightarrow> fundContract env now agent feeRecipient c
       | Start_contract \<Rightarrow> startContract now c
       | Cancel_contract \<Rightarrow> cancelContract now c original
       | Expire_contract \<Rightarrow> expireContract now c original)
      (onlyif (original \<noteq> None) (bnd (originalReviewedContractUse env (c_id c)) (\<lambda>_. ret ()))))"

text \<open>The status that an error of the transaction is answered with.\<close>

definition contract_status :: "app_error \<Rightarrow> nat" where
  "contract_status e = (case e of
     CreditError _ status \<Rightarrow> status
   | NewPaymentsPausedError \<Rightarrow> 503
   | SellerRailError \<Rightarrow> 409
   | PurchasingError _ status \<Rightarrow> status
   | AgentSpendPolicyError _ \<Rightarrow> 409
   | BuyerSpendPolicyError _ \<Rightarrow> 409
   | ContractSettlementError code \<Rightarrow> if code = ''INSUFFICIENT_BALANCE'' then 402 else 409
   | ContractActionError _ status \<Rightarrow> status
   | _ \<Rightarrow> 500)"

definition answered :: "(app_error \<Rightarrow> nat) \<Rightarrow> nat \<Rightarrow> 'a dbtx \<Rightarrow> db \<Rightarrow> nat \<times> db" where
  "answered status ok m s = (case transaction m s of (Inl e, s') \<Rightarrow> (status e, s') | (Inr _, s') \<Rightarrow> (ok, s'))"

text \<open>
  \<open>PATCH /api/contracts/[id]\<close>: the status of the answer and the committed state.  The
  account for the fees is created outside the transaction.
\<close>

definition patchContract :: "contract_env \<Rightarrow> millis \<Rightarrow> principal option \<Rightarrow> id \<Rightarrow> contract_action \<Rightarrow> db \<Rightarrow> nat \<times> db" where
  "patchContract env now auth cid action s =
    (if \<not> ce_contracts_v1 env then (404, s) else
     case auth of None \<Rightarrow> (401, s) | Some p \<Rightarrow>
     if au_cookie_auth p \<and> \<not> au_csrf_valid p then (403, s)
     else if \<not> isValidUUID cid then (400, s)
     else (case find (\<lambda>c. c_id c = cid) (contracts s) of None \<Rightarrow> (404, s) | Some c \<Rightarrow>
       if c_buyer_id c \<noteq> au_user_id p \<and> c_seller_id c \<noteq> au_user_id p then (403, s)
       else if action = Fund_contract \<and> au_user_id p \<noteq> c_buyer_id c then (403, s)
       else if action = Start_contract \<and> au_user_id p \<noteq> c_seller_id c then (403, s)
       else if action = Cancel_contract \<and> au_user_id p \<noteq> c_buyer_id c then (403, s)
       else if action = Fund_contract then
         (if \<not> ce_credit_enabled env then (503, s)
          else (case requireNewPaymentsOpen (ce_paused env) s of Inl e \<Rightarrow> (contract_status e, s)
            | Inr _ \<Rightarrow> (case ensureAdminFeeRecipient s of Inl e \<Rightarrow> (contract_status e, s)
              | Inr (fee, s1) \<Rightarrow>
                answered contract_status 200 (contractTransaction env now (au_agent_id p) (Some fee) action c) s1)))
       else answered contract_status 200 (contractTransaction env now (au_agent_id p) None action c) s))"

section \<open>Actions on a milestone\<close>

datatype milestone_action = Submit_work | Approve | Request_changes | Mark_paid | Open_dispute

record milestone_request =
  mr_action :: milestone_action
  mr_artifacts :: "(string \<times> json) list option"
  mr_reason :: "string option"
  mr_evidence :: "(string \<times> json) list option"
  mr_keys :: "string list"

text \<open>The automatic check of a submission: which required artifacts are missing.\<close>

definition missing_artifacts :: "string list \<Rightarrow> (string \<times> json) list \<Rightarrow> string list" where
  "missing_artifacts required artifacts = filter (\<lambda>k. blank_property k artifacts) required"

definition runAutoChecks :: "string list \<Rightarrow> (string \<times> json) list \<Rightarrow> check_result" where
  "runAutoChecks required artifacts =
     (if missing_artifacts required artifacts \<noteq> [] then Check_fail
      else if required \<noteq> [] then Check_pass else Check_inconclusive)"

definition transitionMilestone :: "millis \<Rightarrow> milestone \<Rightarrow> milestone_state \<Rightarrow> unit dbtx" where
  "transitionMilestone now m state =
     andthen (require (canTransitionMilestone (m_state m) state) (MilestoneActionError ''Invalid milestone transition'' 409))
    (bnd (set_milestone (m_id m) (m_state m) (\<lambda>r. r\<lparr>m_state := state, m_updated_at := to_seconds now\<rparr>)) (\<lambda>updated.
       require (updated \<noteq> []) (MilestoneActionError ''Milestone state changed; refresh and try again'' 409)))"

definition or_empty :: "(string \<times> json) list option \<Rightarrow> (string \<times> json) list" where
  "or_empty v = (case v of None \<Rightarrow> [] | Some o' \<Rightarrow> o')"

definition submitWork :: "contract_env \<Rightarrow> millis \<Rightarrow> id \<Rightarrow> id \<Rightarrow> milestone \<Rightarrow> (string \<times> json) list \<Rightarrow> unit dbtx" where
  "submitWork env now fresh userId m artifacts =
    (let bundle = json_text (ce_show_num env) (J_obj artifacts);
         check = runAutoChecks (m_required_artifacts m) artifacts;
         state = (if check = Check_fail then M_AUTO_FAILED else M_AWAITING_BUYER_REVIEW) in
     andthen (require (length bundle \<le> 100000) (MilestoneActionError ''Artifact bundle is too large'' 413))
    (andthen (require (m_state m \<in> {M_ACTIVE, M_CHANGES_REQUESTED, M_AUTO_FAILED})
        (MilestoneActionError ''Milestone cannot be submitted'' 409))
    (andthen (insert_row contract_submissions contract_submissions_update (\<lambda>r. s_id r = fresh)
        (SqlError ''UNIQUE contract_submissions'')
        \<lparr>s_id = fresh, s_milestone_id = m_id m, s_submitted_by = userId, s_artifact_bundle = bundle,
         s_auto_check_result = check, s_missing = missing_artifacts (m_required_artifacts m) artifacts\<rparr>)
    (bnd (set_milestone (m_id m) (m_state m)
        (\<lambda>r. r\<lparr>m_submission_id := Some fresh, m_state := state, m_updated_at := to_seconds now\<rparr>)) (\<lambda>updated.
       require (updated \<noteq> []) (MilestoneActionError ''Milestone state changed; refresh and try again'' 409))))))"

text \<open>The milestone after the one that has just been paid or refunded becomes active.\<close>

definition milestone_at :: "db \<Rightarrow> id \<Rightarrow> int \<Rightarrow> milestone option" where
  "milestone_at s cid i = find (\<lambda>m. m_contract_id m = cid \<and> m_index m = i) (contract_milestones s)"

definition activateNext :: "millis \<Rightarrow> id \<Rightarrow> milestone \<Rightarrow> unit dbtx" where
  "activateNext now cid m =
     bnd (asks (\<lambda>s. milestone_at s cid (m_index m + 1))) (\<lambda>next. case next of None \<Rightarrow> ret ()
       | Some n \<Rightarrow> onlyif (canTransitionMilestone (m_state n) M_ACTIVE)
           (bnd (set_milestone (m_id n) (m_state n) (\<lambda>r. r\<lparr>m_state := M_ACTIVE, m_updated_at := to_seconds now\<rparr>))
              (\<lambda>_. ret ())))"

definition payMilestone :: "millis \<Rightarrow> contract \<Rightarrow> milestone \<Rightarrow> unit dbtx" where
  "payMilestone now c m =
     andthen (transitionMilestone now m M_PAID)
    (andthen (releaseContractFunds (to_seconds now) (c_id c) (m_id m) (c_buyer_id c) (c_seller_id c) (m_amount m))
       (activateNext now (c_id c) m))"

definition openDispute :: "contract_env \<Rightarrow> millis \<Rightarrow> id \<Rightarrow> id \<Rightarrow> contract \<Rightarrow> milestone \<Rightarrow> milestone_request \<Rightarrow> unit dbtx" where
  "openDispute env now fresh userId c m r =
    (let evidence = json_text (ce_show_num env) (J_obj (or_empty (mr_evidence r))) in
     andthen (require (length evidence \<le> 50000) (MilestoneActionError ''Dispute evidence is too large'' 413))
    (andthen (transitionMilestone now m M_DISPUTED)
    (andthen (insert_row contract_disputes contract_disputes_update (\<lambda>d. d_id d = fresh)
        (SqlError ''UNIQUE contract_disputes'')
        \<lparr>d_id = fresh, d_contract_id = c_id c, d_milestone_id = Some (m_id m), d_raised_by = userId,
         d_reason_code = (if truthy (mr_reason r) then the (mr_reason r) else ''unspecified''),
         d_evidence = evidence, d_state = Dispute_open, d_ruling = None, d_resolved_at = None\<rparr>)
       (bnd (move_contract (c_id c) (c_state c)
           (\<lambda>k. k\<lparr>c_state := DISPUTED, c_dispute_id := Some fresh, c_updated_at := to_seconds now\<rparr>)) (\<lambda>_. ret ())))))"

text \<open>The index of the milestone that is worked on, or of the last one.\<close>

definition current_index :: "milestone list \<Rightarrow> int" where
  "current_index ms = (case find (\<lambda>m. m_state m \<notin> {M_PAID, M_REFUNDED}) ms of
     Some m \<Rightarrow> m_index m | None \<Rightarrow> max 0 (int (length ms) - 1))"

definition deriveContract :: "millis \<Rightarrow> id \<Rightarrow> unit dbtx" where
  "deriveContract now cid =
     bnd (asks (\<lambda>s. milestones_of s cid)) (\<lambda>ms.
     bnd (update_where contracts contracts_update (\<lambda>c. c_id c = cid)
        (\<lambda>c. c\<lparr>c_state := nextContractStateFromMilestones (map m_state ms),
                c_current_milestone_index := current_index ms, c_updated_at := to_seconds now\<rparr>)) (\<lambda>_. ret ()))"

text \<open>The transaction of \<open>PATCH /api/contracts/[id]/milestones/[milestoneId]\<close>.\<close>

definition milestoneTransaction ::
  "contract_env \<Rightarrow> millis \<Rightarrow> id \<Rightarrow> id \<Rightarrow> bool \<Rightarrow> contract \<Rightarrow> milestone \<Rightarrow> milestone_request \<Rightarrow> unit dbtx" where
  "milestoneTransaction env now fresh userId review c m r =
     andthen (onlyif review (bnd (originalReviewedContractUse env (c_id c)) (\<lambda>use.
        require (use \<noteq> None) (PurchasingError ''CONTRACT_REVIEWED_USE_REQUIRED'' 409))))
    (andthen (case mr_action r of
        Submit_work \<Rightarrow> submitWork env now fresh userId m (or_empty (mr_artifacts r))
      | Approve \<Rightarrow> transitionMilestone now m M_APPROVED
      | Request_changes \<Rightarrow> transitionMilestone now m M_CHANGES_REQUESTED
      | Mark_paid \<Rightarrow> payMilestone now c m
      | Open_dispute \<Rightarrow> openDispute env now fresh userId c m r)
     (deriveContract now (c_id c)))"

definition milestone_status :: "app_error \<Rightarrow> nat" where
  "milestone_status e = (case e of
     PurchasingError _ status \<Rightarrow> status
   | ContractSettlementError _ \<Rightarrow> 409
   | MilestoneActionError _ status \<Rightarrow> status
   | _ \<Rightarrow> 500)"

definition closed_to_work :: "contract_state \<Rightarrow> bool" where
  "closed_to_work c \<longleftrightarrow> c \<in> {DRAFT, FUNDED, COMPLETED, CANCELED, EXPIRED, REFUNDED}"

definition patchMilestone ::
  "contract_env \<Rightarrow> millis \<Rightarrow> id \<Rightarrow> principal option \<Rightarrow> id \<Rightarrow> id \<Rightarrow> milestone_request \<Rightarrow> db \<Rightarrow> nat \<times> db" where
  "patchMilestone env now fresh auth cid mid r s =
    (if \<not> ce_contracts_v1 env then (404, s) else
     case auth of None \<Rightarrow> (401, s) | Some p \<Rightarrow>
     if au_cookie_auth p \<and> \<not> au_csrf_valid p then (403, s)
     else if \<not> isValidUUID cid \<or> \<not> isValidUUID mid then (400, s)
     else (case find (\<lambda>c. c_id c = cid) (contracts s) of None \<Rightarrow> (404, s) | Some c \<Rightarrow>
       if c_buyer_id c \<noteq> au_user_id p \<and> c_seller_id c \<noteq> au_user_id p then (403, s) else
       let review = find (\<lambda>g. ga_contract_id g = cid) (organization_contract_authorizations s) \<noteq> None in
       if \<not> review \<and> mr_action r = Approve
          \<and> list_ex (\<lambda>k. k \<in> set (mr_keys r)) [''version'', ''client_reference'', ''submission_id'', ''content_hash'', ''approve'']
       then (409, s)
       else if review \<and> mr_action r = Approve then ce_accept_reviewed env cid mid (au_user_id p) s
       else if review \<and> mr_action r \<in> {Submit_work, Mark_paid} then (409, s)
       else if closed_to_work (c_state c) then (409, s)
       else (case find (\<lambda>m. m_id m = mid \<and> m_contract_id m = cid) (contract_milestones s) of None \<Rightarrow> (404, s) | Some m \<Rightarrow>
         if mr_action r = Submit_work \<and> au_user_id p \<noteq> c_seller_id c then (403, s)
         else if mr_action r \<in> {Approve, Request_changes, Mark_paid} \<and> au_user_id p \<noteq> c_buyer_id c then (403, s)
         else let run = answered milestone_status 200 (milestoneTransaction env now fresh (au_user_id p) review c m r) in
           (if mr_action r = Mark_paid then
             (case ensureContractWallets (c_buyer_id c) (c_seller_id c) s of
                Inl e \<Rightarrow> (milestone_status e, s) | Inr (_, s1) \<Rightarrow> run s1)
            else run s))))"

section \<open>Rulings on disputes\<close>

datatype resolution_input = Rule_buyer | Rule_seller | Rule_redo | Rule_split num

definition ruling_of :: "resolution_input \<Rightarrow> ruling" where
  "ruling_of res = (case res of Rule_buyer \<Rightarrow> Buyer_win | Rule_seller \<Rightarrow> Seller_win | Rule_redo \<Rightarrow> Redo
     | Rule_split _ \<Rightarrow> Split_ruling)"

definition ruled_state :: "resolution_input \<Rightarrow> milestone_state" where
  "ruled_state res = (case res of Rule_buyer \<Rightarrow> M_REFUNDED | Rule_seller \<Rightarrow> M_PAID | Rule_redo \<Rightarrow> M_ACTIVE
     | Rule_split _ \<Rightarrow> M_PAID)"

text \<open>The amount in dispute: the milestone's, or for a reviewed contract the reviewed one.\<close>

definition disputed_amount :: "contract_env \<Rightarrow> contract \<Rightarrow> milestone \<Rightarrow> num dbtx" where
  "disputed_amount env c m =
     bnd (select_one organization_contract_authorizations (\<lambda>g. ga_contract_id g = c_id c)) (\<lambda>review. case review of
       None \<Rightarrow> ret (m_amount m)
     | Some _ \<Rightarrow>
       bnd (originalReviewedContractUse env (c_id c)) (\<lambda>use.
       bnd (some_or (PurchasingError ''CONTRACT_REVIEWED_DISPUTE_INVALID'' 409) use) (\<lambda>o'.
       bnd (some_or (PurchasingError ''CONTRACT_REVIEWED_DISPUTE_INVALID'' 409) (map_of (ru_milestones o') (m_id m))) (\<lambda>cents.
       andthen (require (ru_contract_state o' = DISPUTED) (PurchasingError ''CONTRACT_REVIEWED_DISPUTE_INVALID'' 409))
      (bnd (select_one credit_entries (\<lambda>e. ce_reference e = c_id c \<and> ce_kind e = ''contract_settlement:'' @ m_id m)) (\<lambda>settled.
       andthen (require (settled = None) (PurchasingError ''CONTRACT_REVIEWED_MILESTONE_ALREADY_SETTLED'' 409))
         (ret (of_minor cents))))))))"

definition settleRuling :: "millis \<Rightarrow> contract \<Rightarrow> milestone \<Rightarrow> num \<Rightarrow> resolution_input \<Rightarrow> unit dbtx" where
  "settleRuling now c m amount res = (case res of
     Rule_buyer \<Rightarrow> refundContractFunds (to_seconds now) (c_id c) (c_buyer_id c) amount (Some (m_id m))
   | Rule_seller \<Rightarrow> releaseContractFunds (to_seconds now) (c_id c) (m_id m) (c_buyer_id c) (c_seller_id c) amount
   | Rule_split percent \<Rightarrow>
       splitContractFunds (to_seconds now) (c_id c) (m_id m) (c_buyer_id c) (c_seller_id c) amount percent
   | Rule_redo \<Rightarrow> ret ())"

definition activatePending :: "millis \<Rightarrow> id \<Rightarrow> milestone \<Rightarrow> unit dbtx" where
  "activatePending now cid m =
     bnd (asks (\<lambda>s. milestone_at s cid (m_index m + 1))) (\<lambda>next. case next of None \<Rightarrow> ret ()
       | Some n \<Rightarrow> onlyif (m_state n = M_PENDING)
           (bnd (set_milestone (m_id n) M_PENDING (\<lambda>r. r\<lparr>m_state := M_ACTIVE, m_updated_at := to_seconds now\<rparr>))
              (\<lambda>_. ret ())))"

definition resolveTransaction ::
  "contract_env \<Rightarrow> millis \<Rightarrow> id \<Rightarrow> contract_dispute \<Rightarrow> contract \<Rightarrow> milestone \<Rightarrow> resolution_input \<Rightarrow> unit dbtx" where
  "resolveTransaction env now adminId d c m res =
     bnd (disputed_amount env c m) (\<lambda>amount.
     bnd (update_where contract_disputes contract_disputes_update (\<lambda>r. d_id r = d_id d \<and> d_state r = Dispute_open)
        (\<lambda>r. r\<lparr>d_state := Dispute_resolved, d_ruling := Some (ruling_of res), d_resolved_at := Some (to_seconds now)\<rparr>)) (\<lambda>claimed.
     andthen (require (claimed \<noteq> []) (PlainError ''DISPUTE_ALREADY_RESOLVED''))
    (andthen (settleRuling now c m amount res)
    (bnd (set_milestone (m_id m) M_DISPUTED (\<lambda>r. r\<lparr>m_state := ruled_state res, m_updated_at := to_seconds now\<rparr>)) (\<lambda>updated.
     andthen (require (updated \<noteq> []) (PlainError ''MILESTONE_STATE_CHANGED''))
    (andthen (onlyif (ruled_state res = M_PAID \<or> ruled_state res = M_REFUNDED) (activatePending now (c_id c) m))
    (bnd (asks (\<lambda>s. milestones_of s (c_id c))) (\<lambda>ms.
     bnd (update_where contracts contracts_update (\<lambda>k. c_id k = c_id c \<and> c_state k = DISPUTED)
        (\<lambda>k. k\<lparr>c_state := nextContractStateFromMilestones (map m_state ms), c_dispute_id := None,
                c_current_milestone_index := current_index ms, c_updated_at := to_seconds now\<rparr>)) (\<lambda>_.
     bnd (select_one organization_contract_authorizations (\<lambda>g. ga_contract_id g = c_id c)) (\<lambda>review.
       onlyif (review \<noteq> None)
         (ce_adjudicated env (d_id d) adminId (case res of Rule_split percent \<Rightarrow> Some percent | _ \<Rightarrow> None))))))))))))"

definition resolve_status :: "app_error \<Rightarrow> nat" where
  "resolve_status e = (case e of
     ContractSettlementError _ \<Rightarrow> 409
   | PurchasingError _ status \<Rightarrow> status
   | PlainError msg \<Rightarrow> if msg = ''DISPUTE_ALREADY_RESOLVED'' \<or> msg = ''MILESTONE_STATE_CHANGED'' then 409 else 500
   | _ \<Rightarrow> 500)"

text \<open>\<open>denied\<close> is the answer of \<open>authorizeAdmin\<close>, when it refuses.\<close>

definition resolveDispute ::
  "contract_env \<Rightarrow> millis \<Rightarrow> nat option \<Rightarrow> principal \<Rightarrow> id \<Rightarrow> resolution_input \<Rightarrow> db \<Rightarrow> nat \<times> db" where
  "resolveDispute env now denied p did res s =
    (case denied of Some status \<Rightarrow> (status, s) | None \<Rightarrow>
     if au_cookie_auth p \<and> \<not> au_csrf_valid p then (403, s)
     else if \<not> isValidUUID did then (400, s)
     else if (case res of Rule_split percent \<Rightarrow> percent < 0 \<or> 100 < percent | _ \<Rightarrow> False) then (400, s)
     else (case find (\<lambda>d. d_id d = did) (contract_disputes s) of None \<Rightarrow> (404, s) | Some d \<Rightarrow>
       if d_state d \<noteq> Dispute_open then (409, s)
       else if \<not> truthy (d_milestone_id d) then (409, s)
       else (case (find (\<lambda>c. c_id c = d_contract_id d) (contracts s),
                   find (\<lambda>m. Some (m_id m) = d_milestone_id d \<and> m_contract_id m = d_contract_id d) (contract_milestones s)) of
           (Some c, Some m) \<Rightarrow>
             if c_state c \<noteq> DISPUTED \<or> m_state m \<noteq> M_DISPUTED then (409, s)
             else (case ensureContractWallets (c_buyer_id c) (c_seller_id c) s of
                 Inl e \<Rightarrow> (resolve_status e, s)
               | Inr (_, s1) \<Rightarrow> answered resolve_status 200 (resolveTransaction env now (au_user_id p) d c m res) s1)
         | _ \<Rightarrow> (404, s))))"

section \<open>Maintenance\<close>

text \<open>
  Contracts that may have expired.  The query binds a JavaScript date, which the
  driver passes as milliseconds, against a column of seconds, so it lets more rows
  through than have expired; each is checked again below.
\<close>

definition expirable :: "millis \<Rightarrow> db \<Rightarrow> contract list" where
  "expirable now s = filter (\<lambda>c. c_state c = FUNDED
     \<and> ((case c_expires_at c of None \<Rightarrow> False | Some t \<Rightarrow> t \<le> now)
        \<or> list_ex (\<lambda>u. gu_contract_id u = c_id c) (organization_contract_uses s))) (contracts s)"

definition maintainExpired :: "contract_env \<Rightarrow> millis \<Rightarrow> contract \<Rightarrow> unit dbtx" where
  "maintainExpired env now c =
     bnd (originalReviewedContractUse env (c_id c)) (\<lambda>original.
       onlyif (expired_by now (contract_expiry c original))
         (bnd (move_contract (c_id c) FUNDED (\<lambda>r. r\<lparr>c_state := REFUNDED, c_updated_at := to_seconds now\<rparr>)) (\<lambda>expired.
            onlyif (expired \<noteq> [])
              (andthen (refundContractFunds (to_seconds now) (c_id c) (c_buyer_id c) (refundable c original) None)
              (andthen (relist c original)
                 (onlyif (original \<noteq> None) (bnd (originalReviewedContractUse env (c_id c)) (\<lambda>_. ret ()))))))))"

definition reviewed_contract :: "db \<Rightarrow> id \<Rightarrow> bool" where
  "reviewed_contract s cid \<longleftrightarrow> list_ex (\<lambda>g. ga_contract_id g = cid) (organization_contract_authorizations s)"

definition review_deadline :: "milestone \<Rightarrow> millis" where
  "review_deadline m = m_updated_at m * 1000
     + (if m_review_window_hours m = 0 then 24 else m_review_window_hours m) * 60 * 60 * 1000"

definition approveOverdue :: "millis \<Rightarrow> milestone \<Rightarrow> unit dbtx" where
  "approveOverdue now m = onlyif (review_deadline m \<le> now)
     (bnd (asks (\<lambda>s. reviewed_contract s)) (\<lambda>rev.
      bnd (update_where contract_milestones contract_milestones_update
         (\<lambda>r. m_id r = m_id m \<and> m_state r = M_AWAITING_BUYER_REVIEW \<and> \<not> rev (m_contract_id r))
         (\<lambda>r. r\<lparr>m_state := M_APPROVED, m_updated_at := to_seconds now\<rparr>)) (\<lambda>_. ret ())))"

definition rederive :: "millis \<Rightarrow> contract \<Rightarrow> unit dbtx" where
  "rederive now c =
     bnd (asks (\<lambda>s. milestones_of s (c_id c))) (\<lambda>ms.
     bnd (update_where contracts contracts_update (\<lambda>k. c_id k = c_id c)
        (\<lambda>k. k\<lparr>c_state := nextContractStateFromMilestones (map m_state ms), c_updated_at := to_seconds now\<rparr>)) (\<lambda>_. ret ()))"

definition maintenanceTransaction :: "contract_env \<Rightarrow> millis \<Rightarrow> contract list \<Rightarrow> unit dbtx" where
  "maintenanceTransaction env now expiring =
     andthen (foreach expiring (maintainExpired env now))
    (bnd (asks (\<lambda>s. filter (\<lambda>m. m_state m = M_AWAITING_BUYER_REVIEW \<and> \<not> reviewed_contract s (m_contract_id m))
          (contract_milestones s))) (\<lambda>overdue.
     andthen (foreach overdue (approveOverdue now))
    (bnd (select_all contracts (\<lambda>c. live (c_state c))) (\<lambda>touched. foreach touched (rederive now)))))"

text \<open>\<open>secret_ok\<close>: the request carries the maintenance secret.\<close>

definition runMaintenance :: "contract_env \<Rightarrow> millis \<Rightarrow> bool \<Rightarrow> db \<Rightarrow> nat \<times> db" where
  "runMaintenance env now secret_ok s =
    (if \<not> secret_ok then (401, s) else
     case foreach (expirable now s) (\<lambda>c. ensureContractWallets (c_buyer_id c) (c_seller_id c)) s of
       Inl e \<Rightarrow> (500, s)
     | Inr (_, s1) \<Rightarrow>
       answered (\<lambda>e. case e of PurchasingError _ status \<Rightarrow> status | _ \<Rightarrow> 500) 200
         (maintenanceTransaction env now (expirable now s)) s1)"

end
