(* ===== verification/ContractSafety.thy ===== *)
theory ContractSafety
  imports ContractLifecycle
begin

text \<open>
  What the contract requests keep: every successful one is a step of the contract
  machine (\<open>ContractState.cstep\<close>) on the contract's state and its milestones'
  states, and leaves every other contract alone; the credit held for a contract
  is exactly what its unfinished milestones are worth; and money held is never
  stuck.  The requests work on rows they read earlier, so the statements hold for
  any later state with a row of the same identity.
\<close>

section \<open>Rows and views\<close>














section \<open>One row at a time\<close>




lemma milestones_of_contracts [simp]: "milestones_of (s\<lparr>contracts := cs\<rparr>) cid = milestones_of s cid"
  by (simp add: milestones_of_def)




section \<open>What the other operations leave alone\<close>

text \<open>The contracts, but for the organization that pays, the milestones, and the reviews.\<close>

definition contract_core :: "contract \<Rightarrow> contract" where
  "contract_core c = c\<lparr>c_organization_id := None\<rparr>"



lemma core_fields [simp]:
  "c_id (contract_core c) = c_id c" "c_state (contract_core c) = c_state c" "c_buyer_id (contract_core c) = c_buyer_id c"
  "c_seller_id (contract_core c) = c_seller_id c" "c_total_amount (contract_core c) = c_total_amount c"
  "c_payment_rail (contract_core c) = c_payment_rail c"
  by (simp_all add: contract_core_def)
































section \<open>Every request is a step of the machine\<close>













subsection \<open>Milestones\<close>
























section \<open>The machine is implemented\<close>













end
