(* ===== verification/ContractCreation.thy ===== *)
theory ContractCreation
  imports ContractLifecycle
begin

text \<open>
  Drafting a contract (\<open>lib/contract-creation.ts\<close> and the \<open>POST\<close> of
  \<open>app/api/contracts/route.ts\<close>).  A draft moves no money; a client reference makes
  the request repeatable: the same reference with the same content answers the
  original draft, with other content a conflict.  SHA-256 is the parameter
  \<open>ci_digest\<close> of the environment.
\<close>

section \<open>Requests\<close>

record milestone_input =
  mi_title :: string
  mi_amount :: num
  mi_deadline_in_hours :: "int option"
  mi_review_window_hours :: int
  mi_required_artifacts :: "string list"

record creation_input =
  ci_client_reference :: "string option"
  ci_seller_id :: "id option"
  ci_listing_id :: "id option"
  ci_expires_in_hours :: int
  ci_milestones :: "milestone_input list"
  ci_json :: json

text \<open>The schema of the request (\<open>createContractSchema\<close>), on the fields kept here.\<close>

definition milestone_input_ok :: "milestone_input \<Rightarrow> bool" where
  "milestone_input_ok m \<longleftrightarrow> 3 \<le> length (mi_title m) \<and> length (mi_title m) \<le> 120
     \<and> 0 < mi_amount m \<and> mi_amount m \<le> 1000000 \<and> near_cents (mi_amount m)
     \<and> (case mi_deadline_in_hours m of None \<Rightarrow> True | Some h \<Rightarrow> 1 \<le> h \<and> h \<le> 24 * 30)
     \<and> 1 \<le> mi_review_window_hours m \<and> mi_review_window_hours m \<le> 24 * 14
     \<and> list_all (\<lambda>a. a \<noteq> []) (mi_required_artifacts m)"

definition jsum :: "num list \<Rightarrow> num" where
  "jsum xs = foldl jadd 0 xs"

definition is_alnum :: "char \<Rightarrow> bool" where
  "is_alnum c \<longleftrightarrow> is_digit c \<or> lower_char c \<in> set ''abcdefghijklmnopqrstuvwxyz''"

definition reference_ok :: "string \<Rightarrow> bool" where
  "reference_ok r \<longleftrightarrow> 8 \<le> length r \<and> length r \<le> 128
     \<and> list_all (\<lambda>c. is_alnum c \<or> c \<in> set ''._:-'') r"

definition creation_input_ok :: "creation_input \<Rightarrow> bool" where
  "creation_input_ok i \<longleftrightarrow>
     (case ci_client_reference i of None \<Rightarrow> True | Some r \<Rightarrow> reference_ok r)
   \<and> 1 \<le> ci_expires_in_hours i \<and> ci_expires_in_hours i \<le> 24 * 30
   \<and> ci_milestones i \<noteq> [] \<and> length (ci_milestones i) \<le> 20 \<and> list_all milestone_input_ok (ci_milestones i)
   \<and> jsum (map mi_amount (ci_milestones i)) \<le> 1000000"

section \<open>The fingerprint of a request\<close>

text \<open>\<open>Object.values\<close> of an object or an array.\<close>

fun json_children :: "json \<Rightarrow> json list" where
  "json_children (J_arr xs) = xs"
| "json_children (J_obj es) = map snd es"
| "json_children v = []"

text \<open>
  The walk of \<open>requestHash\<close> over an untrusted value: at most 4096 values, none deeper
  than 12.  The stack is a list whose head is its top.
\<close>

function walk_bounded :: "nat \<Rightarrow> (json \<times> nat) list \<Rightarrow> bool" where
  "walk_bounded nodes [] = True"
| "walk_bounded nodes ((v, depth) # stack) =
     (if 4096 < Suc nodes \<or> 12 < depth then False
      else walk_bounded (Suc nodes) (rev (map (\<lambda>c. (c, Suc depth)) (json_children v)) @ stack))"
  by pat_completeness auto
termination by (relation "measure (\<lambda>(n, _). 4096 - n)") auto

record creation_env =
  cn_env :: contract_env
  cn_digest :: "string \<Rightarrow> string"

definition requestHash :: "creation_env \<Rightarrow> creation_input \<Rightarrow> app_error + string" where
  "requestHash env i =
    (if \<not> walk_bounded 0 [(ci_json i, 0)] then Inl (ContractCreationError ''CONTRACT_CREATION_INPUT_LIMIT'' 400)
     else let canonical = canonicalJSON (ce_show_num (cn_env env))
                (J_obj [(''kind'', J_str ''contract-original-creation-v1''), (''input'', ci_json i)]) in
       if 65536 < utf8_length canonical then Inl (ContractCreationError ''CONTRACT_CREATION_INPUT_LIMIT'' 413)
       else Inr (cn_digest env canonical))"

section \<open>Drafts\<close>

record creation_answer =
  cw_contract :: contract
  cw_milestones :: "milestone list"
  cw_request_hash :: "string option"
  cw_idempotent :: bool

definition originalCreation :: "id \<Rightarrow> string \<Rightarrow> string option \<Rightarrow> creation_answer option dbtx" where
  "originalCreation buyer reference expected =
     bnd (select_one contract_creation_requests (\<lambda>r. cr_buyer_id r = buyer \<and> cr_client_reference r = reference)) (\<lambda>request.
     case request of None \<Rightarrow> ret None | Some r \<Rightarrow>
       andthen (require (\<not> (truthy expected \<and> Some (cr_request_hash r) \<noteq> expected))
         (ContractCreationError ''CONTRACT_CREATION_CONFLICT'' 409))
      (bnd (select_one contracts (\<lambda>c. c_id c = cr_contract_id r)) (\<lambda>found.
       bnd (some_or (ContractCreationError ''CONTRACT_CREATION_RECORD_INVALID'' 409) found) (\<lambda>c.
       andthen (require (c_buyer_id c = buyer) (ContractCreationError ''CONTRACT_CREATION_RECORD_INVALID'' 409))
      (bnd (asks (\<lambda>s. milestones_of s (c_id c))) (\<lambda>ms.
         ret (Some \<lparr>cw_contract = c, cw_milestones = ms, cw_request_hash = Some (cr_request_hash r), cw_idempotent = True\<rparr>)))))))"

definition DEV_FEE_PERCENT :: num where
  "DEV_FEE_PERCENT = fl (5 / 100)"

definition draft_total :: "creation_input \<Rightarrow> num" where
  "draft_total i = of_minor (sum_list (map (\<lambda>m. to_minor (mi_amount m)) (ci_milestones i)))"

definition draft_contract :: "id \<Rightarrow> seconds \<Rightarrow> id \<Rightarrow> id \<Rightarrow> creation_input \<Rightarrow> contract" where
  "draft_contract fresh now buyer seller i =
    (let total = draft_total i; fee = round2 (jmul total DEV_FEE_PERCENT) in
     \<lparr>c_id = fresh, c_buyer_id = buyer, c_seller_id = seller, c_listing_id = ci_listing_id i,
      c_total_amount = total, c_fee_amount = fee, c_escrow_amount = round2 (jadd total fee), c_payment_rail = Credit,
      c_funded_at = None, c_organization_id = None, c_state = DRAFT, c_expires_at = Some (now + ci_expires_in_hours i * 3600),
      c_current_milestone_index = 0, c_dispute_id = None, c_created_at = now, c_updated_at = now\<rparr>)"

definition draft_milestone :: "id \<Rightarrow> id \<Rightarrow> seconds \<Rightarrow> nat \<Rightarrow> milestone_input \<Rightarrow> milestone" where
  "draft_milestone fresh cid now k m =
     \<lparr>m_id = fresh, m_contract_id = cid, m_index = int k, m_title = mi_title m, m_amount = round2 (mi_amount m),
      m_required_artifacts = mi_required_artifacts m,
      m_deadline_at = (case mi_deadline_in_hours m of None \<Rightarrow> None | Some h \<Rightarrow> if h = 0 then None else Some (now + h * 3600)),
      m_review_window_hours = mi_review_window_hours m, m_state = M_PENDING, m_submission_id = None,
      m_created_at = now, m_updated_at = now\<rparr>"

definition draft_milestones :: "(nat \<Rightarrow> id) \<Rightarrow> id \<Rightarrow> seconds \<Rightarrow> creation_input \<Rightarrow> milestone list" where
  "draft_milestones mids cid now i =
     map (\<lambda>k. draft_milestone (mids k) cid now k (ci_milestones i ! k)) [0 ..< length (ci_milestones i)]"

definition insert_milestones :: "milestone list \<Rightarrow> unit dbtx" where
  "insert_milestones ms = foreach ms (\<lambda>m. insert_row contract_milestones contract_milestones_update
     (\<lambda>r. m_id r = m_id m \<or> m_contract_id r = m_contract_id m \<and> m_index r = m_index m)
     (SqlError ''UNIQUE contract_milestones'') m)"

definition createContractDraft ::
  "creation_env \<Rightarrow> millis \<Rightarrow> id \<Rightarrow> (nat \<Rightarrow> id) \<Rightarrow> id \<Rightarrow> creation_input \<Rightarrow> creation_answer dbtx" where
  "createContractDraft env time fresh mids buyer i =
     bnd (if truthy (ci_client_reference i)
          then bnd (lift_result (requestHash env i)) (\<lambda>h. originalCreation buyer (the (ci_client_reference i)) (Some h))
          else ret None) (\<lambda>prior. case prior of Some w \<Rightarrow> ret w | None \<Rightarrow>
     andthen (require (ce_credit_enabled (cn_env env)) (ContractCreationError ''CONTRACT_FUNDING_UNAVAILABLE'' 503))
    (andthen (requireNewPaymentsOpen (ce_paused (cn_env env)))
    (bnd (if truthy (ci_listing_id i)
          then bnd (requireContractListingScope (the (ci_listing_id i)) None None) (\<lambda>l. ret (Some (l_seller_id l)))
          else ret (ci_seller_id i)) (\<lambda>sellerId.
     andthen (require (truthy sellerId) (ContractCreationError ''SELLER_REQUIRED'' 400))
    (let seller = the sellerId; now = time div 1000 in
     andthen (require (seller \<noteq> buyer) (ContractCreationError ''SELF_PURCHASE'' 400))
    (bnd (asks (\<lambda>s. isPublicMarketplaceSeller s seller)) (\<lambda>public.
     andthen (require public (ContractCreationError ''SELLER_UNAVAILABLE'' 409))
    (bnd (select_one users (\<lambda>u. u_id u = seller)) (\<lambda>found.
     andthen (require (found \<noteq> None) (ContractCreationError ''SELLER_NOT_FOUND'' 404))
    (let c = draft_contract fresh now buyer seller i; ms = draft_milestones mids fresh now i in
     andthen (insert_row contracts contracts_update (\<lambda>r. c_id r = fresh) (SqlError ''UNIQUE contracts'') c)
    (andthen (insert_milestones ms)
       (if truthy (ci_client_reference i) then
          bnd (lift_result (requestHash env i)) (\<lambda>digest.
          andthen (insert_row contract_creation_requests contract_creation_requests_update
             (\<lambda>r. cr_contract_id r = fresh \<or> cr_buyer_id r = buyer \<and> Some (cr_client_reference r) = ci_client_reference i)
             (SqlError ''UNIQUE contract_creation_requests'')
             \<lparr>cr_contract_id = fresh, cr_buyer_id = buyer, cr_client_reference = the (ci_client_reference i),
              cr_request_hash = digest\<rparr>)
            (ret \<lparr>cw_contract = c, cw_milestones = ms, cw_request_hash = Some digest, cw_idempotent = False\<rparr>))
        else ret \<lparr>cw_contract = c, cw_milestones = ms, cw_request_hash = None, cw_idempotent = False\<rparr>))))))))))))"

definition creation_status :: "app_error \<Rightarrow> nat" where
  "creation_status e = (case e of
     ContractCreationError _ status \<Rightarrow> status
   | PurchasingError _ status \<Rightarrow> status
   | NewPaymentsPausedError \<Rightarrow> 503
   | _ \<Rightarrow> 500)"

text \<open>
  \<open>POST /api/contracts\<close>: the input is absent when the body does not match the schema;
  \<open>referenced\<close> is whether it has a client reference, which is parsed first.
\<close>

definition postContract ::
  "creation_env \<Rightarrow> millis \<Rightarrow> id \<Rightarrow> (nat \<Rightarrow> id) \<Rightarrow> principal option \<Rightarrow> bool \<Rightarrow> creation_input option \<Rightarrow> db \<Rightarrow> nat \<times> db" where
  "postContract env time fresh mids auth referenced body s =
    (if \<not> ce_contracts_v1 (cn_env env) then (404, s) else
     case auth of None \<Rightarrow> (401, s) | Some p \<Rightarrow>
     if au_cookie_auth p \<and> \<not> au_csrf_valid p then (403, s)
     else (case body of
         None \<Rightarrow> if referenced then (400, s)
                else if ce_credit_enabled (cn_env env)
                then (case requireNewPaymentsOpen (ce_paused (cn_env env)) s of Inl e \<Rightarrow> (creation_status e, s) | Inr _ \<Rightarrow> (400, s))
                else (503, s)
       | Some i \<Rightarrow>
         (case (if ci_client_reference i = None then ret None
                else bnd (lift_result (requestHash env i)) (\<lambda>h. originalCreation (au_user_id p) (the (ci_client_reference i)) (Some h))) s of
            Inl e \<Rightarrow> (creation_status e, s)
          | Inr (Some w, _) \<Rightarrow> (200, s)
          | Inr (None, _) \<Rightarrow>
            if \<not> ce_credit_enabled (cn_env env) then (503, s)
            else (case requireNewPaymentsOpen (ce_paused (cn_env env)) s of Inl e \<Rightarrow> (creation_status e, s)
              | Inr _ \<Rightarrow> (case transaction (createContractDraft env time fresh mids (au_user_id p) i) s of
                  (Inl e, s') \<Rightarrow> (creation_status e, s')
                | (Inr w, s') \<Rightarrow> (if cw_idempotent w then 200 else 201, s'))))))"

end
