(* ===== verification/ServiceOrders.thy ===== *)
theory ServiceOrders
  imports Schema JsDate JsJson ContractState
begin

text \<open>
  Orders for reusable services: the order that follows its trade and holds one
  unit of its service's capacity (\<open>lib/service-order-state.ts\<close>, and the part of
  \<open>lib/service-order-reservation.ts\<close> that claims the capacity), the start of the
  work (\<open>lib/service-order-execution.ts\<close>), the provider's attempt with its
  acknowledgment deadline and lease (\<open>lib/service-execution-attempt.ts\<close>,
  \<open>lib/provider-acknowledgment.ts\<close>) and the notifications queued with the funding
  (\<open>lib/service-order-dispatch.ts\<close>).

  A transaction runs at one time \<open>now\<close>.  Times in the rows are whole seconds, so a
  comparison the code makes in milliseconds multiplies them.  The repetition of a
  transaction that found the database busy, which never changed anything, and the
  write locks inside one process are not modelled.
\<close>

section \<open>Orders follow their trade\<close>

definition terminal_order :: "order_state \<Rightarrow> bool" where
  "terminal_order state \<longleftrightarrow> state = O_completed \<or> state = O_cancelled \<or> state = O_resolved"

definition PROVIDER_ACKNOWLEDGMENT_TIMEOUT_SECONDS :: int where
  "PROVIDER_ACKNOWLEDGMENT_TIMEOUT_SECONDS = 600"

definition providerAcknowledgmentDueSql :: "execution_attempt \<Rightarrow> seconds" where
  "providerAcknowledgmentDueSql a = (case ea_acknowledgment_due_at a of
     Some t \<Rightarrow> t | None \<Rightarrow> ea_created_at a + PROVIDER_ACKNOWLEDGMENT_TIMEOUT_SECONDS)"

definition providerAcknowledgmentDueAt :: "execution_attempt \<Rightarrow> millis" where
  "providerAcknowledgmentDueAt a = (case ea_acknowledgment_due_at a of
     Some t \<Rightarrow> t * 1000 | None \<Rightarrow> ea_created_at a * 1000 + PROVIDER_ACKNOWLEDGMENT_TIMEOUT_SECONDS * 1000)"

text \<open>SQL comparisons with a missing lease are not true.\<close>

definition lease_ended :: "millis \<Rightarrow> execution_attempt \<Rightarrow> bool" where
  "lease_ended now a = (case ea_lease_expires_at a of None \<Rightarrow> False | Some t \<Rightarrow> t \<le> to_seconds now)"

definition lease_runs :: "millis \<Rightarrow> execution_attempt \<Rightarrow> bool" where
  "lease_runs now a = (case ea_lease_expires_at a of None \<Rightarrow> False | Some t \<Rightarrow> to_seconds now < t)"

definition close_attempt :: "millis \<Rightarrow> attempt_state \<Rightarrow> execution_attempt \<Rightarrow> execution_attempt" where
  "close_attempt now st a = a\<lparr>ea_state := st, ea_completed_at := Some (to_seconds now), ea_updated_at := to_seconds now\<rparr>"

definition close_attempts :: "millis \<Rightarrow> (execution_attempt \<Rightarrow> bool) \<Rightarrow> attempt_state \<Rightarrow> unit dbtx" where
  "close_attempts now p st =
     bnd (update_where service_execution_attempts service_execution_attempts_update p (close_attempt now st)) (\<lambda>_. ret ())"

text \<open>A deadline that has already passed is kept as the cause; otherwise the trade ended the attempt.\<close>

definition endAttempts :: "millis \<Rightarrow> id \<Rightarrow> unit dbtx" where
  "endAttempts now orderId =
     andthen (close_attempts now (\<lambda>a. ea_order_id a = orderId \<and> ea_state a = A_queued
         \<and> providerAcknowledgmentDueSql a \<le> to_seconds now) A_acknowledgment_timed_out)
    (andthen (close_attempts now (\<lambda>a. ea_order_id a = orderId \<and> ea_state a = A_accepted \<and> lease_ended now a) A_expired)
       (close_attempts now (\<lambda>a. ea_order_id a = orderId
         \<and> (ea_state a = A_queued \<or> ea_state a = A_accepted \<and> lease_runs now a)) A_interrupted))"

definition order_state_name :: "order_state \<Rightarrow> string" where
  "order_state_name st = (case st of O_awaiting_funding \<Rightarrow> ''awaiting_funding'' | O_funded \<Rightarrow> ''funded''
     | O_executing \<Rightarrow> ''executing'' | O_verifying \<Rightarrow> ''verifying'' | O_completed \<Rightarrow> ''completed''
     | O_cancelled \<Rightarrow> ''cancelled'' | O_disputed \<Rightarrow> ''disputed'' | O_resolved \<Rightarrow> ''resolved'')"

definition set_routes :: "id \<Rightarrow> (route_plan \<Rightarrow> route_plan) \<Rightarrow> unit dbtx" where
  "set_routes orderId f =
     bnd (update_where route_plans route_plans_update (\<lambda>r. rp_service_order_id r = Some orderId) f) (\<lambda>_. ret ())"

text \<open>\<open>isNull(capacity_released_at)\<close> on the order of a trade.\<close>

definition holds_capacity :: "id \<Rightarrow> service_order \<Rightarrow> bool" where
  "holds_capacity tradeId o' \<longleftrightarrow> so_trade_id o' = tradeId \<and> so_capacity_released_at o' = None"

definition releaseCapacity :: "millis \<Rightarrow> id \<Rightarrow> order_state \<Rightarrow> unit dbtx" where
  "releaseCapacity now tradeId state =
     bnd (update_where service_orders service_orders_update (holds_capacity tradeId)
        (\<lambda>o'. o'\<lparr>so_state := state, so_capacity_released_at := Some (to_seconds now), so_updated_at := to_seconds now\<rparr>))
       (\<lambda>released. case released of [] \<Rightarrow> ret () | r # _ \<Rightarrow>
         bnd (update_where service_definitions service_definitions_update
            (\<lambda>d. sd_id d = so_service_id r \<and> 0 < sd_active_orders d)
            (\<lambda>d. d\<lparr>sd_active_orders := sd_active_orders d - 1, sd_updated_at := to_seconds now\<rparr>))
           (\<lambda>decremented. require (decremented \<noteq> []) (PlainError ''SERVICE_CAPACITY_INVARIANT'')))"

text \<open>The deadline of a route starts with the funding of its trade.\<close>

definition start_deadline :: "millis option \<Rightarrow> route_plan \<Rightarrow> route_plan" where
  "start_deadline funded r = r\<lparr>rp_execution_deadline_at := (case rp_deadline_seconds r of None \<Rightarrow> None
     | Some d \<Rightarrow> (case rp_execution_deadline_at r of Some t \<Rightarrow> Some t | None \<Rightarrow> map_option (\<lambda>f. f + d * 1000) funded))\<rparr>"

definition funded_time :: "db \<Rightarrow> id \<Rightarrow> millis option" where
  "funded_time s tradeId = (case find (\<lambda>t. t_id t = tradeId) (trades s) of None \<Rightarrow> None | Some t \<Rightarrow> t_funded_at t)"

definition advanceServiceOrder :: "millis \<Rightarrow> id \<Rightarrow> order_state \<Rightarrow> unit dbtx" where
  "advanceServiceOrder now tradeId state =
     bnd (select_one service_orders (\<lambda>o'. so_trade_id o' = tradeId)) (\<lambda>linked.
     andthen (case linked of None \<Rightarrow> ret () | Some o' \<Rightarrow>
        onlyif (state = O_disputed \<or> terminal_order state) (endAttempts now (so_id o')))
     (if terminal_order state then
        andthen (releaseCapacity now tradeId state)
          (case linked of None \<Rightarrow> ret () | Some o' \<Rightarrow>
             set_routes (so_id o') (\<lambda>r. r\<lparr>rp_state := order_state_name state, rp_updated_at := to_seconds now\<rparr>))
      else
        andthen (bnd (update_where service_orders service_orders_update (holds_capacity tradeId)
            (\<lambda>o'. o'\<lparr>so_state := state, so_updated_at := to_seconds now\<rparr>)) (\<lambda>_. ret ()))
       (case linked of None \<Rightarrow> ret () | Some o' \<Rightarrow>
          andthen (onlyif (state = O_funded)
             (bnd (asks (\<lambda>s. funded_time s tradeId)) (\<lambda>funded. set_routes (so_id o') (start_deadline funded))))
          (set_routes (so_id o') (\<lambda>r. r\<lparr>
             rp_state := (if state = O_verifying then ''awaiting_buyer'' else order_state_name state),
             rp_updated_at := to_seconds now\<rparr>)))))"

text \<open>Orders whose trade has ended while they still hold capacity are brought to its state.\<close>

definition ended_state :: "trade_status \<Rightarrow> order_state option" where
  "ended_state st = (case st of T_completed \<Rightarrow> Some O_completed | T_complete \<Rightarrow> Some O_completed
     | T_resolved \<Rightarrow> Some O_resolved | T_cancelled \<Rightarrow> Some O_cancelled | _ \<Rightarrow> None)"

definition page :: "int \<Rightarrow> int \<Rightarrow> nat" where
  "page limit most = nat (max 1 (min limit most))"

definition stale_orders :: "db \<Rightarrow> (id \<times> order_state) list" where
  "stale_orders s = List.map_filter (\<lambda>o'. if so_capacity_released_at o' \<noteq> None then None
      else (case find (\<lambda>t. t_id t = so_trade_id o') (trades s) of None \<Rightarrow> None
        | Some t \<Rightarrow> map_option (Pair (so_trade_id o')) (ended_state (t_status t)))) (service_orders s)"

text \<open>Each order in a transaction of its own: an error ends the repair but keeps what was done.\<close>

fun each_committed :: "'a list \<Rightarrow> ('a \<Rightarrow> unit dbtx) \<Rightarrow> db \<Rightarrow> (app_error + unit) \<times> db" where
  "each_committed [] f s = (Inr (), s)"
| "each_committed (x # xs) f s = (case f x s of Inl e \<Rightarrow> (Inl e, s) | Inr (_, s') \<Rightarrow> each_committed xs f s')"

definition reconcileTerminalServiceOrders :: "millis \<Rightarrow> int \<Rightarrow> db \<Rightarrow> (app_error + nat) \<times> db" where
  "reconcileTerminalServiceOrders now limit s =
    (let rows = take (page limit 1000) (stale_orders s) in
     case each_committed rows (\<lambda>(tid, st). advanceServiceOrder now tid st) s of
       (Inl e, s') \<Rightarrow> (Inl e, s') | (Inr _, s') \<Rightarrow> (Inr (length rows), s'))"

section \<open>Claiming capacity\<close>

text \<open>
  \<open>service\<close> is the definition as it was read before the transaction: the claim holds
  it to the row, and takes a unit of capacity only if one is free.
\<close>

definition unchanged_terms :: "service_definition \<Rightarrow> service_definition \<Rightarrow> bool" where
  "unchanged_terms service d \<longleftrightarrow> sd_id d = sd_id service \<and> sd_active d
     \<and> sd_organization_only d = sd_organization_only service \<and> sd_price_minor d = sd_price_minor service
     \<and> sd_seller_id d = sd_seller_id service \<and> sd_capabilities d = sd_capabilities service
     \<and> sd_estimated_latency_seconds d = sd_estimated_latency_seconds service
     \<and> sd_input_schema d = sd_input_schema service \<and> sd_output_schema d = sd_output_schema service
     \<and> sd_verification_policy d = sd_verification_policy service \<and> sd_leased d = sd_leased service
     \<and> sd_active_orders d < sd_max_concurrency d"

definition claimCapacity :: "millis \<Rightarrow> service_definition \<Rightarrow> unit dbtx" where
  "claimCapacity now service =
     bnd (update_where service_definitions service_definitions_update (unchanged_terms service)
        (\<lambda>d. d\<lparr>sd_active_orders := sd_active_orders d + 1, sd_updated_at := to_seconds now\<rparr>)) (\<lambda>claimed.
       require (claimed \<noteq> []) (ServiceOrderReservationError ''SERVICE_CAPACITY_OR_PRICE_CHANGED'' 409))"

definition insertServiceOrder ::
  "millis \<Rightarrow> id \<Rightarrow> service_definition \<Rightarrow> trade \<Rightarrow> id option \<Rightarrow> bool \<Rightarrow> service_order dbtx" where
  "insertServiceOrder now fresh service t share internal =
    (let row = \<lparr>so_private_provider_share_id = share, so_id = fresh, so_service_id = sd_id service,
         so_listing_id = t_listing_id t, so_trade_id = t_id t, so_buyer_id = t_buyer_id t,
         so_contract_leased = Some (sd_leased service), so_price_minor = sd_price_minor service,
         so_payment_rail = t_payment_rail t, so_state = (if internal then O_funded else O_awaiting_funding),
         so_execution_started_at = None, so_capacity_released_at = None, so_updated_at = to_seconds now\<rparr> in
     andthen (insert_row service_orders service_orders_update
        (\<lambda>o'. so_id o' = fresh \<or> so_listing_id o' = t_listing_id t \<or> so_trade_id o' = t_id t)
        (SqlError ''UNIQUE service_orders'') row)
     (ret row))"

section \<open>The provider's attempt\<close>

text \<open>\<open>serviceExecutionContract\<close>: a recorded contract decides the protocol, else the editable definition.\<close>

definition leased_order :: "service_order \<Rightarrow> service_definition \<Rightarrow> bool" where
  "leased_order o' d = (case so_contract_leased o' of Some b \<Rightarrow> b | None \<Rightarrow> sd_leased d)"

definition LEASE_MS :: int where
  "LEASE_MS = 10 * 60000"

definition queueServiceExecutionAttempt :: "millis \<Rightarrow> id \<Rightarrow> id \<Rightarrow> execution_attempt dbtx" where
  "queueServiceExecutionAttempt now fresh orderId =
     andthen (insert_ignore service_execution_attempts service_execution_attempts_update
        (\<lambda>a. ea_id a = fresh \<or> ea_order_id a = orderId)
        \<lparr>ea_id = fresh, ea_order_id = orderId, ea_state = A_queued,
         ea_acknowledgment_due_at = Some (to_seconds (now + PROVIDER_ACKNOWLEDGMENT_TIMEOUT_SECONDS * 1000)),
         ea_accepted_at = None, ea_heartbeat_at = None, ea_lease_expires_at = None, ea_completed_at = None,
         ea_created_at = to_seconds now, ea_updated_at = to_seconds now\<rparr>)
    (bnd (select_one service_execution_attempts (\<lambda>a. ea_order_id a = orderId))
       (some_or (PlainError ''SERVICE_ATTEMPT_INVARIANT'')))"

datatype attempt_action = Accept_work | Decline_work | Heartbeat

text \<open>The joined row of a trade, its order and one attempt at it.\<close>

definition work_row :: "id \<Rightarrow> id \<Rightarrow> db \<Rightarrow> (trade \<times> service_order \<times> execution_attempt) option" where
  "work_row tradeId attemptId s =
    (case find (\<lambda>t. t_id t = tradeId) (trades s) of None \<Rightarrow> None | Some t \<Rightarrow>
     case find (\<lambda>o'. so_trade_id o' = tradeId) (service_orders s) of None \<Rightarrow> None | Some o' \<Rightarrow>
     map_option (\<lambda>a. (t, o', a))
       (find (\<lambda>a. ea_order_id a = so_id o' \<and> ea_id a = attemptId) (service_execution_attempts s)))"

text \<open>The comparison \<open>lease_expires_at <= now\<close> of the handler, in milliseconds.\<close>

definition lease_active :: "millis \<Rightarrow> execution_attempt \<Rightarrow> bool" where
  "lease_active now a = (case ea_lease_expires_at a of None \<Rightarrow> False | Some t \<Rightarrow> now < t * 1000)"

definition update_attempt :: "(execution_attempt \<Rightarrow> bool) \<Rightarrow> (execution_attempt \<Rightarrow> execution_attempt) \<Rightarrow> app_error
    \<Rightarrow> execution_attempt dbtx" where
  "update_attempt p f e =
     bnd (update_where service_execution_attempts service_execution_attempts_update p f) (first_or e)"

definition acceptWork :: "millis \<Rightarrow> id \<Rightarrow> id \<Rightarrow> service_order \<Rightarrow> execution_attempt dbtx" where
  "acceptWork now tradeId attemptId o' =
     bnd (update_attempt (\<lambda>a. ea_id a = attemptId \<and> ea_state a = A_queued \<and> to_seconds now < providerAcknowledgmentDueSql a)
        (\<lambda>a. a\<lparr>ea_state := A_accepted, ea_accepted_at := Some (to_seconds now), ea_heartbeat_at := Some (to_seconds now),
               ea_lease_expires_at := Some (to_seconds (now + LEASE_MS)), ea_updated_at := to_seconds now\<rparr>)
        (ServiceAttemptError ''WORK_ATTEMPT_STATE_CHANGED'' 409)) (\<lambda>updated.
     bnd (update_where service_orders service_orders_update
        (\<lambda>r. so_id r = so_id o' \<and> so_state r = O_funded \<and> so_execution_started_at r = None)
        (\<lambda>r. r\<lparr>so_execution_started_at := Some (to_seconds now), so_updated_at := to_seconds now\<rparr>)) (\<lambda>started.
     andthen (require (started \<noteq> []) (ServiceAttemptError ''WORK_ATTEMPT_STATE_CHANGED'' 409))
    (andthen (advanceServiceOrder now tradeId O_executing)
       (ret updated))))"

definition declineWork :: "millis \<Rightarrow> id \<Rightarrow> execution_attempt dbtx" where
  "declineWork now attemptId =
     update_attempt (\<lambda>a. ea_id a = attemptId \<and> ea_state a = A_queued \<and> to_seconds now < providerAcknowledgmentDueSql a)
       (close_attempt now A_declined) (ServiceAttemptError ''WORK_ATTEMPT_STATE_CHANGED'' 409)"

definition renewLease :: "millis \<Rightarrow> id \<Rightarrow> execution_attempt dbtx" where
  "renewLease now attemptId =
     update_attempt (\<lambda>a. ea_id a = attemptId \<and> ea_state a = A_accepted \<and> lease_runs now a)
       (\<lambda>a. a\<lparr>ea_heartbeat_at := Some (to_seconds now), ea_lease_expires_at := Some (to_seconds (now + LEASE_MS)),
              ea_updated_at := to_seconds now\<rparr>)
       (ServiceAttemptError ''WORK_ATTEMPT_LEASE_EXPIRED'' 409)"

text \<open>The answer: the attempt and whether the request repeated an earlier one.\<close>

definition changeServiceExecutionAttempt ::
  "millis \<Rightarrow> id \<Rightarrow> id \<Rightarrow> id \<Rightarrow> attempt_action \<Rightarrow> (execution_attempt \<times> bool) dbtx" where
  "changeServiceExecutionAttempt now tradeId sellerId attemptId action =
     bnd (asks (work_row tradeId attemptId)) (\<lambda>row. case row of
       None \<Rightarrow> throw (ServiceAttemptError ''WORK_ORDER_NOT_FOUND'' 404)
     | Some (t, o', a) \<Rightarrow>
       andthen (require (t_seller_id t = sellerId) (ServiceAttemptError ''WORK_ORDER_NOT_FOUND'' 404))
      (andthen (require (t_status t = T_escrow_held \<and> so_capacity_released_at o' = None \<and> so_state o' \<in> {O_funded, O_executing})
          (ServiceAttemptError ''WORK_ORDER_NOT_FUNDED'' 409))
      (andthen (require (\<not> (ea_state a = A_acknowledgment_timed_out
             \<or> ea_state a = A_queued \<and> providerAcknowledgmentDueAt a \<le> now))
          (ServiceAttemptError ''WORK_ATTEMPT_ACKNOWLEDGMENT_EXPIRED'' 409))
        (if action = Accept_work \<and> ea_state a = A_accepted then
           andthen (require (so_state o' = O_executing \<and> lease_active now a)
              (ServiceAttemptError ''WORK_ATTEMPT_LEASE_EXPIRED'' 409)) (ret (a, True))
         else if action = Decline_work \<and> ea_state a = A_declined then ret (a, True)
         else if action = Accept_work \<or> action = Decline_work then
           andthen (require (ea_state a = A_queued \<and> so_state o' = O_funded)
              (ServiceAttemptError ''WORK_ATTEMPT_STATE_CHANGED'' 409))
           (bnd (if action = Accept_work then acceptWork now tradeId attemptId o' else declineWork now attemptId)
              (\<lambda>updated. ret (updated, False)))
         else
           andthen (require (ea_state a = A_accepted \<and> lease_active now a \<and> so_state o' = O_executing)
              (ServiceAttemptError ''WORK_ATTEMPT_LEASE_EXPIRED'' 409))
           (bnd (renewLease now attemptId) (\<lambda>updated. ret (updated, False)))))))"

text \<open>The sweeps.  Each conditional write commits alone, so none can undo an acceptance.\<close>

definition awaits_acknowledgment :: "db \<Rightarrow> id \<Rightarrow> bool" where
  "awaits_acknowledgment s orderId \<longleftrightarrow> list_ex (\<lambda>o'. so_id o' = orderId \<and> so_state o' = O_funded
     \<and> so_capacity_released_at o' = None
     \<and> list_ex (\<lambda>t. t_id t = so_trade_id o' \<and> t_status t = T_escrow_held) (trades s)) (service_orders s)"

definition overdue :: "millis \<Rightarrow> db \<Rightarrow> execution_attempt \<Rightarrow> bool" where
  "overdue now s a \<longleftrightarrow> ea_state a = A_queued \<and> providerAcknowledgmentDueSql a \<le> to_seconds now
     \<and> awaits_acknowledgment s (ea_order_id a)"

text \<open>The condition of this update has a subquery, so it is evaluated in the state of the update.\<close>

definition expire_overdue :: "millis \<Rightarrow> id \<Rightarrow> execution_attempt list dbtx" where
  "expire_overdue now i = (\<lambda>s. update_where service_execution_attempts service_execution_attempts_update
     (\<lambda>a. ea_id a = i \<and> overdue now s a) (close_attempt now A_acknowledgment_timed_out) s)"

definition expireServiceAcknowledgmentAttempts :: "millis \<Rightarrow> int \<Rightarrow> nat dbtx" where
  "expireServiceAcknowledgmentAttempts now limit =
     bnd (asks (\<lambda>s. take (page limit 100) (sort_key providerAcknowledgmentDueSql
         (sort_key ea_id (filter (overdue now s) (service_execution_attempts s)))))) (\<lambda>due.
     sum_each due (\<lambda>row. bnd (expire_overdue now (ea_id row)) (\<lambda>updated. ret (length updated))))"

definition expireServiceExecutionAttempts :: "millis \<Rightarrow> int \<Rightarrow> nat dbtx" where
  "expireServiceExecutionAttempts now limit =
     bnd (asks (\<lambda>s. take (page limit 100)
         (filter (\<lambda>a. ea_state a = A_accepted \<and> lease_ended now a) (service_execution_attempts s)))) (\<lambda>due.
     sum_each due (\<lambda>row.
       bnd (update_where service_execution_attempts service_execution_attempts_update
          (\<lambda>a. ea_id a = ea_id row \<and> ea_state a = A_accepted \<and> lease_ended now a) (close_attempt now A_expired))
         (\<lambda>updated. ret (if updated \<noteq> [] then 1 else 0))))"

text \<open>The delivery of an order under lease consumes the lease, in the transaction that stores it.\<close>

definition deliverAttempt :: "millis \<Rightarrow> id \<Rightarrow> id \<Rightarrow> unit dbtx" where
  "deliverAttempt now orderId attemptId =
     bnd (update_where service_execution_attempts service_execution_attempts_update
        (\<lambda>a. ea_order_id a = orderId \<and> ea_id a = attemptId \<and> ea_state a = A_accepted \<and> lease_runs now a)
        (close_attempt now A_delivered)) (\<lambda>completed.
       require (completed \<noteq> []) (DeliveryError ''Execution attempt expired before delivery'' 409))"

section \<open>Starting without a lease, and notifying the provider\<close>

text \<open>The answer: the order, the status of its trade, and whether the work had started before.\<close>

definition startServiceOrderExecution :: "millis \<Rightarrow> id \<Rightarrow> id \<Rightarrow> (service_order \<times> trade_status \<times> bool) dbtx" where
  "startServiceOrderExecution now tradeId sellerId =
     bnd (select_one trades (\<lambda>t. t_id t = tradeId)) (\<lambda>t.
     bnd (select_one service_orders (\<lambda>o'. so_trade_id o' = tradeId)) (\<lambda>o'.
     (case (t, o') of (Some t, Some o') \<Rightarrow>
       andthen (require (t_seller_id t = sellerId) (ServiceOrderStartError ''WORK_ORDER_NOT_FOUND'' 404))
      (bnd (select_one service_definitions (\<lambda>d. sd_id d = so_service_id o')) (\<lambda>d.
       andthen (require (\<not> (case d of None \<Rightarrow> False | Some d \<Rightarrow> leased_order o' d))
          (ServiceOrderStartError ''WORK_ATTEMPT_REQUIRED'' 409))
        (if so_execution_started_at o' \<noteq> None then ret (o', t_status t, True) else
       andthen (require (t_status t = T_escrow_held \<and> so_state o' = O_funded)
          (ServiceOrderStartError ''WORK_ORDER_NOT_FUNDED'' 409))
      (bnd (asks (\<lambda>s. list_ex (\<lambda>r. t_id r = tradeId \<and> t_status r = T_escrow_held \<and> t_seller_id r = sellerId) (trades s))) (\<lambda>funded.
       bnd (update_where service_orders service_orders_update
          (\<lambda>r. so_id r = so_id o' \<and> so_state r = O_funded \<and> so_execution_started_at r = None \<and> funded)
          (\<lambda>r. r\<lparr>so_state := O_executing, so_execution_started_at := Some (to_seconds now), so_updated_at := to_seconds now\<rparr>))
         (\<lambda>rows. bnd (first_or (ServiceOrderStartError ''WORK_ORDER_START_RACE'' 409) rows) (\<lambda>started.
       andthen (advanceServiceOrder now tradeId O_executing)
         (ret (started, t_status t, False)))))))))
     | _ \<Rightarrow> throw (ServiceOrderStartError ''WORK_ORDER_NOT_FOUND'' 404))))"

definition notify_subscriber :: "id \<Rightarrow> service_order \<Rightarrow> execution_attempt option \<Rightarrow> webhook \<Rightarrow> nat dbtx" where
  "notify_subscriber tradeId o' attempt w =
    (let deliveryId = ''work-order-ready:'' @ so_id o' @ '':'' @ wh_id w in
     case wh_events w of None \<Rightarrow> ret 0 | Some events \<Rightarrow>
       if ''work_order.ready'' \<notin> set events then ret 0 else
       bnd (asks (\<lambda>s. list_ex (\<lambda>d. wd_id d = deliveryId) (webhook_deliveries s))) (\<lambda>known.
       andthen (insert_ignore webhook_deliveries webhook_deliveries_update (\<lambda>d. wd_id d = deliveryId)
          \<lparr>wd_id = deliveryId, wd_webhook_id = wh_id w, wd_event_type = ''work_order.ready'', wd_trade_id = tradeId,
           wd_attempt_id = map_option ea_id attempt\<rparr>)
         (ret (if known then 0 else 1))))"

definition queueFundedWorkOrder :: "millis \<Rightarrow> id \<Rightarrow> id \<Rightarrow> id \<Rightarrow> nat dbtx" where
  "queueFundedWorkOrder now fresh tradeId sellerId =
     bnd (asks (\<lambda>s. case find (\<lambda>o'. so_trade_id o' = tradeId \<and> so_state o' = O_funded) (service_orders s) of None \<Rightarrow> None
        | Some o' \<Rightarrow> (case find (\<lambda>d. sd_id d = so_service_id o') (service_definitions s) of None \<Rightarrow> None
        | Some d \<Rightarrow> map_option (\<lambda>t. (o', d, t)) (find (\<lambda>t. t_id t = so_trade_id o') (trades s))))) (\<lambda>row.
     case row of None \<Rightarrow> ret 0 | Some (o', d, t) \<Rightarrow>
     if t_status t \<noteq> T_escrow_held then ret 0 else
     bnd (if leased_order o' d then bnd (queueServiceExecutionAttempt now fresh (so_id o')) (\<lambda>a. ret (Some a)) else ret None)
       (\<lambda>attempt. case attempt of
          None \<Rightarrow> bnd (select_all webhooks (\<lambda>w. wh_agent_id w = sellerId \<and> wh_active w))
            (\<lambda>subs. sum_each subs (notify_subscriber tradeId o' None))
        | Some a \<Rightarrow> if ea_state a \<noteq> A_queued \<or> providerAcknowledgmentDueAt a \<le> now then ret 0 else
            bnd (select_all webhooks (\<lambda>w. wh_agent_id w = sellerId \<and> wh_active w))
            (\<lambda>subs. sum_each subs (notify_subscriber tradeId o' (Some a)))))"

section \<open>How attempts move\<close>

definition attempt_moves :: "attempt_state \<Rightarrow> attempt_state list" where
  "attempt_moves st = (case st of
     A_queued \<Rightarrow> [A_accepted, A_declined, A_interrupted, A_acknowledgment_timed_out]
   | A_accepted \<Rightarrow> [A_expired, A_delivered, A_interrupted]
   | _ \<Rightarrow> [])"

definition attempt_move :: "attempt_state \<Rightarrow> attempt_state \<Rightarrow> bool" where
  "attempt_move p q \<longleftrightarrow> q \<in> set (attempt_moves p)"

definition attempt_final :: "attempt_state \<Rightarrow> bool" where
  "attempt_final st \<longleftrightarrow> st \<noteq> A_queued \<and> st \<noteq> A_accepted"

definition attempt_phase :: "attempt_state \<Rightarrow> nat" where
  "attempt_phase st = (if st = A_queued then 0 else if st = A_accepted then 1 else 2)"

lemmas attempt_defs = attempt_move_def attempt_moves_def attempt_final_def attempt_phase_def

interpretation am: machine attempt_move attempt_final attempt_phase
proof unfold_locales
  fix p q show "attempt_final p \<Longrightarrow> \<not> attempt_move p q"
    by (cases p) (auto simp: attempt_defs)
  show "\<not> attempt_final p \<Longrightarrow> \<exists>q. attempt_move p q"
    by (cases p) (auto simp: attempt_defs)
  show "attempt_move p q \<Longrightarrow> attempt_phase p \<le> attempt_phase q"
    by (cases p) (auto simp: attempt_defs)
  have "attempt_move A_queued A_declined" "attempt_move A_accepted A_expired" by (simp_all add: attempt_defs)
  then show "\<exists>q. attempt_move\<^sup>*\<^sup>* p q \<and> attempt_final q"
    by (cases p) (auto simp: attempt_final_def intro: r_into_rtranclp)
qed

text \<open>What every operation does to an attempt: it stays, with its order, and its state makes a run.\<close>

definition attempt_at :: "db \<Rightarrow> id \<Rightarrow> execution_attempt option" where
  "attempt_at s i = find (\<lambda>a. ea_id a = i) (service_execution_attempts s)"

definition attempts_run :: "db \<Rightarrow> db \<Rightarrow> bool" where
  "attempts_run s s' \<longleftrightarrow> (\<forall>i a. attempt_at s i = Some a \<longrightarrow> (\<exists>a'. attempt_at s' i = Some a'
     \<and> ea_order_id a' = ea_order_id a \<and> attempt_move\<^sup>*\<^sup>* (ea_state a) (ea_state a')))"

interpretation ar: preorder_tx attempts_run
proof unfold_locales
  show "attempts_run s s" for s by (simp add: attempts_run_def)
  show "attempts_run s t \<Longrightarrow> attempts_run t u \<Longrightarrow> attempts_run s u" for s t u
    unfolding attempts_run_def by (metis rtranclp_trans)
qed

lemma attempts_run_same: "service_execution_attempts s' = service_execution_attempts s \<Longrightarrow> attempts_run s s'"
  by (simp add: attempts_run_def attempt_at_def)

lemmas attempts_frame = ar.unchanged [where v = service_execution_attempts, OF _ attempts_run_same]

lemma attempts_update:
  assumes "\<And>a. ea_id (f a) = ea_id a \<and> ea_order_id (f a) = ea_order_id a"
    and "\<And>a. p a \<Longrightarrow> attempt_move (ea_state a) (ea_state (f a)) \<or> ea_state (f a) = ea_state a"
  shows "along attempts_run (update_where service_execution_attempts service_execution_attempts_update p f)"
proof -
  have step: "attempt_move\<^sup>*\<^sup>* (ea_state a) (ea_state (f a))" if "p a" for a using assms(2) [OF that] by auto
  have "attempt_at (service_execution_attempts_update (\<lambda>_. set_rows p f (service_execution_attempts s)) s) i
      = map_option (\<lambda>a. if p a then f a else a) (attempt_at s i)" for s i
    by (simp add: attempt_at_def find_set_rows assms(1))
  then show ?thesis using assms(1) step by (auto simp: along_def attempts_run_def)
qed

lemma attempts_close:
  assumes "\<And>a. p a \<Longrightarrow> attempt_move (ea_state a) st"
  shows "along attempts_run (update_where service_execution_attempts service_execution_attempts_update p (close_attempt now st))"
    and "along attempts_run (close_attempts now p st)"
  by (auto simp: close_attempts_def close_attempt_def assms intro!: ar.intros attempts_update)

lemma attempts_insert: "along attempts_run (insert_ignore service_execution_attempts service_execution_attempts_update c r)"
  by (auto simp: along_def attempts_run_def attempt_at_def find_append)

lemma end_attempts_run: "along attempts_run (endAttempts now oid)"
  unfolding endAttempts_def by (intro ar.intros attempts_close) (auto simp: attempt_defs)

lemma same_set_routes: "same service_execution_attempts (set_routes i f)" "same service_orders (set_routes i f)"
  "same service_definitions (set_routes i f)"
  unfolding set_routes_def by (intro same_intros; simp)+

lemma same_releaseCapacity: "same service_execution_attempts (releaseCapacity now tid st)"
  unfolding releaseCapacity_def by (rule sameI) (auto simp: run_simps split: list.splits)

lemma advance_attempts: "along attempts_run (advanceServiceOrder now tid st)"
  unfolding advanceServiceOrder_def
  by (intro ar.intros end_attempts_run attempts_frame same_set_routes same_releaseCapacity same_intros) simp_all

text \<open>The remaining operations move attempts along the machine too.\<close>

lemma attempts_attempt:
  assumes "\<And>a. ea_id (f a) = ea_id a \<and> ea_order_id (f a) = ea_order_id a"
    and "\<And>a. p a \<Longrightarrow> attempt_move (ea_state a) (ea_state (f a)) \<or> ea_state (f a) = ea_state a"
  shows "along attempts_run (update_attempt p f e)"
  unfolding update_attempt_def by (intro ar.intros attempts_update assms)

lemma attempts_orders: "along attempts_run (update_where service_orders service_orders_update p f)"
  by (intro attempts_frame same_intros) simp

lemma accept_attempts: "along attempts_run (acceptWork now tid i o')"
  unfolding acceptWork_def
  by (intro ar.intros attempts_attempt attempts_orders advance_attempts) (auto simp: attempt_defs)

lemma decline_attempts: "along attempts_run (declineWork now i)"
  unfolding declineWork_def by (intro attempts_attempt) (auto simp: close_attempt_def attempt_defs)

lemma renew_attempts: "along attempts_run (renewLease now i)"
  unfolding renewLease_def by (intro attempts_attempt) auto

lemma change_attempts: "along attempts_run (changeServiceExecutionAttempt now tid sid i action)"
  unfolding changeServiceExecutionAttempt_def
  by (auto split: prod.split intro!: ar.intros accept_attempts decline_attempts renew_attempts)

lemma start_attempts: "along attempts_run (startServiceOrderExecution now tid sid)"
  unfolding startServiceOrderExecution_def
  by (auto split: option.split prod.split intro!: ar.intros attempts_orders advance_attempts)

lemma same_notify: "same service_execution_attempts (notify_subscriber tid o' a w)"
  "same service_orders (notify_subscriber tid o' a w)" "same service_definitions (notify_subscriber tid o' a w)"
  unfolding notify_subscriber_def Let_def by (intro same_intros; simp)+

lemma notify_attempts: "along attempts_run (notify_subscriber tid o' a w)"
  by (intro attempts_frame same_notify)

lemma dispatch_attempts: "along attempts_run (queueFundedWorkOrder now fresh tid sid)"
  unfolding queueFundedWorkOrder_def queueServiceExecutionAttempt_def
  by (auto split: prod.split intro!: ar.intros attempts_insert notify_attempts)

lemma expire_overdue_attempts: "along attempts_run (expire_overdue now i)"
proof -
  have "along attempts_run (update_where service_execution_attempts service_execution_attempts_update
      (\<lambda>a. ea_id a = i \<and> overdue now s a) (close_attempt now A_acknowledgment_timed_out))" for s
    by (intro attempts_close) (auto simp: overdue_def attempt_defs)
  then show ?thesis unfolding expire_overdue_def along_def by blast
qed

lemma expire_acknowledgments_attempts: "along attempts_run (expireServiceAcknowledgmentAttempts now limit)"
  unfolding expireServiceAcknowledgmentAttempts_def
  by (intro ar.intros expire_overdue_attempts)

lemma expire_leases_attempts: "along attempts_run (expireServiceExecutionAttempts now limit)"
  unfolding expireServiceExecutionAttempts_def by (intro ar.intros attempts_close) (auto simp: attempt_defs)

lemma deliver_attempts: "along attempts_run (deliverAttempt now oid i)"
  unfolding deliverAttempt_def by (intro ar.intros attempts_close) (auto simp: attempt_defs)

section \<open>Capacity\<close>

text \<open>How many orders hold capacity of a service, and what must be true of the two tables.\<close>

definition used :: "service_order list \<Rightarrow> id \<Rightarrow> int" where
  "used os i = sum_rows (\<lambda>o'. so_service_id o' = i \<and> so_capacity_released_at o' = None) (\<lambda>_. 1) os"

definition capacity_ok :: "db \<Rightarrow> bool" where
  "capacity_ok s \<longleftrightarrow> distinct (map sd_id (service_definitions s)) \<and> distinct (map so_trade_id (service_orders s))
     \<and> (\<forall>o' \<in> set (service_orders s). so_service_id o' \<in> sd_id ` set (service_definitions s)
          \<and> (so_capacity_released_at o' \<noteq> None \<longleftrightarrow> terminal_order (so_state o')))
     \<and> (\<forall>d \<in> set (service_definitions s). sd_active_orders d = used (service_orders s) (sd_id d)
          \<and> sd_active_orders d \<le> sd_max_concurrency d)"

definition order_core :: "service_order \<Rightarrow> id \<times> id \<times> bool \<times> bool" where
  "order_core o' = (so_trade_id o', so_service_id o', so_capacity_released_at o' = None, terminal_order (so_state o'))"

definition service_core :: "service_definition \<Rightarrow> id \<times> int \<times> int" where
  "service_core d = (sd_id d, sd_active_orders d, sd_max_concurrency d)"

definition capacity_view :: "db \<Rightarrow> (id \<times> int \<times> int) list \<times> (id \<times> id \<times> bool \<times> bool) list" where
  "capacity_view s = (map service_core (service_definitions s), map order_core (service_orders s))"

lemma used_core: "used os i = sum_rows (\<lambda>(_, j, held, _). j = i \<and> held) (\<lambda>_. 1) (map order_core os)"
  by (induction os) (auto simp: used_def order_core_def)

lemma capacity_ok_core: "capacity_ok s \<longleftrightarrow> (case capacity_view s of (ds, os) \<Rightarrow>
    distinct (map fst ds) \<and> distinct (map fst os)
    \<and> (\<forall>(t, j, held, final) \<in> set os. j \<in> fst ` set ds \<and> (\<not> held \<longleftrightarrow> final))
    \<and> (\<forall>(i, active, most) \<in> set ds. active = sum_rows (\<lambda>(_, j, held, _). j = i \<and> held) (\<lambda>_. 1) os \<and> active \<le> most))"
proof -
  have [simp]: "fst \<circ> service_core = sd_id" "fst \<circ> order_core = so_trade_id"
    by (auto simp: service_core_def order_core_def)
  show ?thesis by (simp add: capacity_ok_def capacity_view_def used_core image_image) 
    (auto simp: service_core_def order_core_def)
qed

lemma capacity_ok_view: "capacity_view s' = capacity_view s \<Longrightarrow> capacity_ok s' \<longleftrightarrow> capacity_ok s"
  by (simp only: capacity_ok_core)

lemma capacity_same: "same capacity_view m \<Longrightarrow> keeps capacity_ok m"
  using capacity_ok_view by (blast intro: keepsI dest: sameD [where v = capacity_view])

lemma used_nonneg: "0 \<le> used os i"
  unfolding used_def by (rule sum_rows_nonneg) simp

lemma used_append: "used (os @ [o']) i = used os i + (if so_service_id o' = i \<and> so_capacity_released_at o' = None then 1 else 0)"
  by (simp add: used_def)

lemma list_ex_set_rows: "list_ex q (set_rows p f rs) \<longleftrightarrow> list_ex (\<lambda>r. q (if p r then f r else r)) rs"
  by (induction rs) auto

lemma holder_unique:
  assumes "distinct (map so_trade_id os)" and "r \<in> set os" and "holds_capacity tid r" and "x \<in> set os"
  shows "holds_capacity tid x \<longleftrightarrow> so_trade_id x = so_trade_id r"
proof
  assume "so_trade_id x = so_trade_id r"
  with unique_key_eq [OF assms(1,2,4)] have "r = x" by simp
  with assms(3) show "holds_capacity tid x" by simp
qed (use assms(3) in \<open>simp add: holds_capacity_def\<close>)

lemma used_released:
  assumes "distinct (map so_trade_id os)" and "r \<in> set os" and "holds_capacity tid r"
    and "\<And>x. so_service_id (f x) = so_service_id x \<and> so_capacity_released_at (f x) \<noteq> None"
  shows "used (set_rows (holds_capacity tid) f os) i = used os i - (if so_service_id r = i then 1 else 0)"
proof -
  let ?p = "\<lambda>o'. so_service_id o' = i \<and> so_capacity_released_at o' = None"
  have "used (set_rows (holds_capacity tid) f os) i = used os i - (if ?p r then 1 else 0) + (if ?p (f r) then 1 else 0)"
    unfolding used_def by (rule sum_rows_set_rows_one [OF assms(1,2)]) (rule holder_unique [OF assms(1-3)])
  then show ?thesis using assms(3,4) by (simp add: holds_capacity_def)
qed

text \<open>A release finds its unit of capacity: the check for \<open>SERVICE_CAPACITY_INVARIANT\<close> never fails.\<close>

lemma release_runs:
  assumes "capacity_ok s" and "terminal_order st"
  shows "\<exists>s'. releaseCapacity now tid st s = Inr ((), s') \<and> capacity_ok s'
    \<and> (\<forall>d \<in> set (service_definitions s). \<exists>d' \<in> set (service_definitions s'). sd_id d' = sd_id d
         \<and> sd_active_orders d' = sd_active_orders d - (if list_ex (\<lambda>o'. holds_capacity tid o' \<and> so_service_id o' = sd_id d)
              (service_orders s) then 1 else 0))
    \<and> \<not> list_ex (holds_capacity tid) (service_orders s')"
proof -
  define os where "os = service_orders s"
  define ds where "ds = service_definitions s"
  define f where "f = (\<lambda>o'. o'\<lparr>so_state := st, so_capacity_released_at := Some (to_seconds now), so_updated_at := to_seconds now\<rparr> :: service_order)"
  define os' where "os' = set_rows (holds_capacity tid) f os"
  have ok: "distinct (map sd_id ds)" "distinct (map so_trade_id os)"
    "\<And>x. x \<in> set os \<Longrightarrow> so_service_id x \<in> sd_id ` set ds" "\<And>x. x \<in> set os \<Longrightarrow> so_capacity_released_at x \<noteq> None \<longleftrightarrow> terminal_order (so_state x)"
    "\<And>d. d \<in> set ds \<Longrightarrow> sd_active_orders d = used os (sd_id d) \<and> sd_active_orders d \<le> sd_max_concurrency d"
    using assms(1) unfolding capacity_ok_def os_def ds_def by blast+
  have none: "\<not> list_ex (holds_capacity tid) os'"
    unfolding os'_def list_ex_set_rows by (simp add: list_ex_iff f_def holds_capacity_def)
  have keys': "map so_trade_id os' = map so_trade_id os" unfolding os'_def by (rule map_set_rows_key) (simp add: f_def)
  have rows: "so_service_id x \<in> sd_id ` set ds \<and> (so_capacity_released_at x \<noteq> None \<longleftrightarrow> terminal_order (so_state x))"
    if "x \<in> set os'" for x
  proof -
    from that obtain y where y: "y \<in> set os" "x = (if holds_capacity tid y then f y else y)"
      unfolding os'_def set_set_rows by blast
    show ?thesis
      unfolding y(2) using ok(3,4) [OF y(1)] assms(2) by (cases "holds_capacity tid y") (simp_all add: f_def)
  qed
  show ?thesis
  proof (cases "filter (holds_capacity tid) os")
    case Nil
    then have "os' = os" unfolding os'_def by (intro set_rows_id) (auto simp: filter_empty_conv)
    with Nil have "releaseCapacity now tid st s = Inr ((), s)"
      by (simp add: releaseCapacity_def eval_tx update_where_def os_def os'_def f_def)
    moreover have "\<not> list_ex (holds_capacity tid) os" using Nil by (auto simp: list_ex_iff filter_empty_conv)
    ultimately show ?thesis using assms(1) by (intro exI [of _ s]) (auto simp: list_ex_iff os_def)
  next
    case (Cons r rest)
    then have r: "r \<in> set os" "holds_capacity tid r" by (auto dest!: filter_eq_ConsD)
    define q where "q = (\<lambda>d :: service_definition. sd_id d = so_service_id r \<and> 0 < sd_active_orders d)"
    define g where "g = (\<lambda>d. d\<lparr>sd_active_orders := sd_active_orders d - 1, sd_updated_at := to_seconds now\<rparr> :: service_definition)"
    define ds' where "ds' = set_rows q g ds"
    have used': "used os' i = used os i - (if so_service_id r = i then 1 else 0)" for i
      unfolding os'_def by (rule used_released [OF ok(2) r]) (simp add: f_def)
    have busy: "q d \<longleftrightarrow> sd_id d = so_service_id r" if "d \<in> set ds" for d
    proof -
      have "sd_id d = so_service_id r \<Longrightarrow> 1 \<le> used os (sd_id d)"
        using used_nonneg [of os' "sd_id d"] used' [of "sd_id d"] by simp
      with ok(5) [OF that] show ?thesis by (auto simp: q_def)
    qed
    obtain d where d: "d \<in> set ds" "q d" using ok(3) [OF r(1)] busy by (metis (no_types, lifting) image_iff)
    let ?s = "service_definitions_update (\<lambda>_. ds') (service_orders_update (\<lambda>_. os') s)"
    have fr: "so_service_id (f r) = so_service_id r" by (simp add: f_def)
    have run: "releaseCapacity now tid st s = Inr ((), ?s)"
      using Cons d by (auto simp: fr releaseCapacity_def eval_tx update_where_def filter_empty_conv os_def [symmetric] ds_def [symmetric]
          f_def [symmetric] g_def [symmetric] q_def [symmetric] os'_def ds'_def)
    have members: "\<And>x. x \<in> set ds' \<Longrightarrow> \<exists>d \<in> set ds. x = (if sd_id d = so_service_id r then g d else d)"
      "\<And>d. d \<in> set ds \<Longrightarrow> (if sd_id d = so_service_id r then g d else d) \<in> set ds'"
      using busy by (auto simp: ds'_def set_set_rows)
    have keys: "map sd_id ds' = map sd_id ds" by (simp add: ds'_def g_def)
    have "capacity_ok ?s"
      unfolding capacity_ok_def
    proof (intro conjI ballI)
      show "so_service_id x \<in> sd_id ` set (service_definitions ?s)" if "x \<in> set (service_orders ?s)" for x
        using rows [of x] that keys by (simp flip: set_map)
      fix x assume "x \<in> set (service_definitions ?s)"
      then obtain d where d: "d \<in> set ds" "x = (if sd_id d = so_service_id r then g d else d)" using members(1) by auto
      then show "sd_active_orders x = used (service_orders ?s) (sd_id x)" "sd_active_orders x \<le> sd_max_concurrency x"
        using ok(5) [OF d(1)] used' by (auto simp: g_def)
    qed (use ok(1,2) rows keys keys' in simp_all)
    moreover have only: "holds_capacity tid x \<longleftrightarrow> x = r" if "x \<in> set os" for x
      using holder_unique [OF ok(2) r that] unique_key_eq [OF ok(2) r(1) that] by metis
    have "list_ex (\<lambda>o'. holds_capacity tid o' \<and> so_service_id o' = i) os \<longleftrightarrow> i = so_service_id r" for i
      using r only by (auto simp: list_ex_iff)
    then have "\<exists>d' \<in> set ds'. sd_id d' = sd_id d \<and> sd_active_orders d' = sd_active_orders d
        - (if list_ex (\<lambda>o'. holds_capacity tid o' \<and> so_service_id o' = sd_id d) os then 1 else 0)" if "d \<in> set ds" for d
      using members(2) [OF that] by (intro bexI) (auto simp: g_def)
    ultimately show ?thesis using run none by (auto simp: os_def ds_def)
  qed
qed

text \<open>Transactions that cannot fail.\<close>

lemma close_attempts_runs: "\<exists>s'. close_attempts now p st s = Inr ((), s') \<and> service_orders s' = service_orders s
    \<and> service_definitions s' = service_definitions s"
  by (simp add: close_attempts_def eval_tx update_where_def)

lemma endAttempts_runs: "\<exists>s'. endAttempts now oid s = Inr ((), s') \<and> service_orders s' = service_orders s
    \<and> service_definitions s' = service_definitions s"
  unfolding endAttempts_def andthen_def bnd_def using close_attempts_runs by (metis (no_types, lifting) fst_conv snd_conv sum.case(2))

lemma set_routes_runs: "\<exists>s'. set_routes oid f s = Inr ((), s') \<and> service_orders s' = service_orders s
    \<and> service_definitions s' = service_definitions s"
  by (simp add: set_routes_def eval_tx update_where_def)

definition before_release :: "millis \<Rightarrow> order_state \<Rightarrow> service_order option \<Rightarrow> unit dbtx" where
  "before_release now st linked = (case linked of None \<Rightarrow> ret () | Some o' \<Rightarrow>
     onlyif (st = O_disputed \<or> terminal_order st) (endAttempts now (so_id o')))"

lemma before_release_runs: "\<exists>s'. before_release now st linked s = Inr ((), s') \<and> service_orders s' = service_orders s
    \<and> service_definitions s' = service_definitions s"
  using endAttempts_runs by (auto simp: before_release_def onlyif_def ret_def split: option.split)

definition after_release :: "millis \<Rightarrow> order_state \<Rightarrow> service_order option \<Rightarrow> unit dbtx" where
  "after_release now st linked = (case linked of None \<Rightarrow> ret () | Some o' \<Rightarrow>
     set_routes (so_id o') (\<lambda>r. r\<lparr>rp_state := order_state_name st, rp_updated_at := to_seconds now\<rparr>))"

lemma after_release_runs: "\<exists>s'. after_release now st linked s = Inr ((), s') \<and> service_orders s' = service_orders s
    \<and> service_definitions s' = service_definitions s"
  using set_routes_runs by (auto simp: after_release_def ret_def split: option.split)

lemma advance_terminal: "terminal_order st \<Longrightarrow> advanceServiceOrder now tid st s =
    andthen (before_release now st (find (\<lambda>o'. so_trade_id o' = tid) (service_orders s)))
      (andthen (releaseCapacity now tid st) (after_release now st (find (\<lambda>o'. so_trade_id o' = tid) (service_orders s)))) s"
  by (simp add: advanceServiceOrder_def before_release_def after_release_def bnd_def select_one_def asks_def)

text \<open>
  C24. Ending an order.  When its trade ends, the order gives back exactly the one unit
  of capacity it held, the check for \<open>SERVICE_CAPACITY_INVARIANT\<close> never fails, no
  other service is touched, and ending it again, with whatever outcome, gives
  back nothing more.
\<close>

theorem ended_order_releases_once:
  assumes "capacity_ok s" and "terminal_order st" and "terminal_order st2"
  shows "\<exists>s'. advanceServiceOrder now tid st s = Inr ((), s') \<and> capacity_ok s'
    \<and> (\<forall>d \<in> set (service_definitions s). \<exists>d' \<in> set (service_definitions s'). sd_id d' = sd_id d
         \<and> sd_active_orders d' = sd_active_orders d - (if list_ex (\<lambda>o'. holds_capacity tid o' \<and> so_service_id o' = sd_id d)
              (service_orders s) then 1 else 0))
    \<and> (\<exists>s2. advanceServiceOrder later tid st2 s' = Inr ((), s2) \<and> service_definitions s2 = service_definitions s'
         \<and> service_orders s2 = service_orders s')"
proof -
  let ?l = "\<lambda>s. find (\<lambda>o'. so_trade_id o' = tid) (service_orders s)"
  have tables: "capacity_ok t' = capacity_ok t" if "service_orders t' = service_orders t" "service_definitions t' = service_definitions t" for t t'
    by (rule capacity_ok_view) (simp add: capacity_view_def that)
  obtain s1 where s1: "before_release now st (?l s) s = Inr ((), s1)" "service_orders s1 = service_orders s"
    "service_definitions s1 = service_definitions s" using before_release_runs by blast
  obtain s2 where s2: "releaseCapacity now tid st s1 = Inr ((), s2)" "capacity_ok s2"
    "\<forall>d \<in> set (service_definitions s1). \<exists>d' \<in> set (service_definitions s2). sd_id d' = sd_id d
       \<and> sd_active_orders d' = sd_active_orders d - (if list_ex (\<lambda>o'. holds_capacity tid o' \<and> so_service_id o' = sd_id d)
            (service_orders s1) then 1 else 0)"
    "\<not> list_ex (holds_capacity tid) (service_orders s2)"
    using release_runs [of s1 st now tid] assms(1,2) tables [OF s1(2,3)] by auto
  obtain s3 where s3: "after_release now st (?l s) s2 = Inr ((), s3)" "service_orders s3 = service_orders s2"
    "service_definitions s3 = service_definitions s2" using after_release_runs by blast
  have run: "advanceServiceOrder now tid st s = Inr ((), s3)"
    by (simp add: advance_terminal [OF assms(2)] andthen_def bnd_def s1(1) s2(1) s3(1))
  obtain s4 where s4: "before_release later st2 (?l s3) s3 = Inr ((), s4)" "service_orders s4 = service_orders s3"
    "service_definitions s4 = service_definitions s3" using before_release_runs by blast
  have "filter (holds_capacity tid) (service_orders s4) = []" "set_rows (holds_capacity tid) f (service_orders s4) = service_orders s4" for f
    using s2(4) s3(2) s4(2) by (auto simp: list_ex_iff filter_empty_conv intro: set_rows_id)
  then have rel: "releaseCapacity later tid st2 s4 = Inr ((), s4)"
    by (simp add: releaseCapacity_def eval_tx update_where_def)
  obtain s5 where s5: "after_release later st2 (?l s3) s4 = Inr ((), s5)" "service_orders s5 = service_orders s4"
    "service_definitions s5 = service_definitions s4" using after_release_runs by blast
  have "advanceServiceOrder later tid st2 s3 = Inr ((), s5)"
    by (simp add: advance_terminal [OF assms(3)] andthen_def bnd_def s4(1) rel s5(1))
  with run s2 s3 s4 s5 s1 tables [OF s3(2,3)] show ?thesis by (intro exI [of _ s3]) auto
qed

subsection \<open>Every operation keeps the accounts\<close>

lemma capacity_tables: "same service_orders m \<Longrightarrow> same service_definitions m \<Longrightarrow> keeps capacity_ok m"
  by (rule capacity_same) (auto simp: same_def capacity_view_def)

lemma capacity_orders:
  assumes "\<And>s o'. capacity_ok s \<Longrightarrow> o' \<in> set (service_orders s) \<Longrightarrow> p o' \<Longrightarrow> order_core (f o') = order_core o'"
  shows "keeps capacity_ok (update_where service_orders service_orders_update p f)"
proof (rule keepsI)
  fix s a s'
  assume s: "capacity_ok s" and run: "update_where service_orders service_orders_update p f s = Inr (a, s')"
  have "map order_core (set_rows p f (service_orders s)) = map order_core (service_orders s)"
    using assms [OF s] by (auto simp: set_rows_def)
  with run have "capacity_view s' = capacity_view s" by (auto simp: capacity_view_def)
  with s show "capacity_ok s'" using capacity_ok_view by blast
qed

lemma capacity_attempts: "keeps capacity_ok (update_where service_execution_attempts service_execution_attempts_update p f)"
  "keeps capacity_ok (insert_ignore service_execution_attempts service_execution_attempts_update c r)"
  by (intro capacity_tables same_intros; simp)+

lemma held_not_final: "capacity_ok s \<Longrightarrow> o' \<in> set (service_orders s) \<Longrightarrow> so_capacity_released_at o' = None \<Longrightarrow> \<not> terminal_order (so_state o')"
  unfolding capacity_ok_def by blast

lemma release_keeps: "terminal_order st \<Longrightarrow> keeps capacity_ok (releaseCapacity now tid st)"
  unfolding keeps_def using release_runs [of _ st now tid] by (metis (no_types, lifting) prod.inject sum.inject(2))

lemma close_keeps: "keeps capacity_ok (close_attempts now p st)" "keeps capacity_ok (endAttempts now oid)"
  unfolding close_attempts_def endAttempts_def by (intro keeps_intros capacity_attempts)+

lemma routes_keeps: "keeps capacity_ok (set_routes i f)"
  by (rule capacity_tables) (rule same_set_routes)+

lemma advance_keeps: "keeps capacity_ok (advanceServiceOrder now tid st)"
proof -
  have "keeps capacity_ok (update_where service_orders service_orders_update (holds_capacity tid)
      (\<lambda>o'. o'\<lparr>so_state := st, so_updated_at := to_seconds now\<rparr>))" if "\<not> terminal_order st"
    by (rule capacity_orders) (use that held_not_final in \<open>auto simp: order_core_def holds_capacity_def\<close>)
  then show ?thesis unfolding advanceServiceOrder_def
    by (intro keeps_intros close_keeps routes_keeps release_keeps) simp_all
qed

lemma started_core: "terminal_order O_funded = False" "terminal_order O_executing = False"
  by (simp_all add: terminal_order_def)

lemma accept_keeps: "keeps capacity_ok (acceptWork now tid i o')"
  unfolding acceptWork_def update_attempt_def
  by (intro keeps_intros capacity_attempts capacity_orders advance_keeps) (simp add: order_core_def)

lemma change_keeps: "keeps capacity_ok (changeServiceExecutionAttempt now tid sid i action)"
  unfolding changeServiceExecutionAttempt_def declineWork_def renewLease_def update_attempt_def
  by (auto split: prod.split intro!: keeps_intros accept_keeps capacity_attempts)

lemma start_keeps: "keeps capacity_ok (startServiceOrderExecution now tid sid)"
  unfolding startServiceOrderExecution_def
  by (auto split: option.split prod.split intro!: keeps_intros capacity_orders advance_keeps simp: order_core_def started_core)

lemma keeps_sum_each: "(\<And>x. keeps I (f x)) \<Longrightarrow> keeps I (sum_each xs f)"
  by (induction xs) (auto intro!: keeps_intros)

lemma notify_keeps: "keeps capacity_ok (notify_subscriber tid o' a w)"
  by (rule capacity_tables) (rule same_notify)+

lemma dispatch_keeps: "keeps capacity_ok (queueFundedWorkOrder now fresh tid sid)"
  unfolding queueFundedWorkOrder_def queueServiceExecutionAttempt_def
  by (auto split: prod.split option.split intro!: keeps_intros keeps_sum_each capacity_attempts notify_keeps)

lemma acknowledgments_keep: "keeps capacity_ok (expireServiceAcknowledgmentAttempts now limit)"
proof -
  have "keeps capacity_ok (expire_overdue now i)" for i
    by (rule capacity_tables) (simp_all add: same_def expire_overdue_def)
  then show ?thesis unfolding expireServiceAcknowledgmentAttempts_def by (intro keeps_intros keeps_sum_each)
qed

lemma leases_keep: "keeps capacity_ok (expireServiceExecutionAttempts now limit)"
  unfolding expireServiceExecutionAttempts_def by (intro keeps_intros keeps_sum_each capacity_attempts)

lemma deliver_keeps: "keeps capacity_ok (deliverAttempt now oid i)"
  unfolding deliverAttempt_def by (intro keeps_intros capacity_attempts)

text \<open>The reservation takes the unit that its order holds.\<close>

definition placeOrder :: "millis \<Rightarrow> id \<Rightarrow> service_definition \<Rightarrow> trade \<Rightarrow> id option \<Rightarrow> bool \<Rightarrow> service_order dbtx" where
  "placeOrder now fresh service t share internal =
     andthen (claimCapacity now service) (insertServiceOrder now fresh service t share internal)"

lemma place_keeps: "keeps capacity_ok (placeOrder now fresh service t share internal)"
proof (rule keepsI)
  fix s a s'
  assume s: "capacity_ok s" and run: "placeOrder now fresh service t share internal s = Inr (a, s')"
  define f where "f = (\<lambda>d. d\<lparr>sd_active_orders := sd_active_orders d + 1, sd_updated_at := to_seconds now\<rparr> :: service_definition)"
  have r: "filter (unchanged_terms service) (service_definitions s) \<noteq> []" "so_service_id a = sd_id service" "so_trade_id a = t_id t"
    "so_capacity_released_at a = None" "\<not> terminal_order (so_state a)"
    "service_orders s' = service_orders s @ [a]" "\<forall>o' \<in> set (service_orders s). so_trade_id o' \<noteq> t_id t"
    "service_definitions s' = set_rows (unchanged_terms service) f (service_definitions s)"
    using run by (auto simp: placeOrder_def claimCapacity_def insertServiceOrder_def Let_def run_simps terminal_order_def list_ex_iff f_def)
  from r(1) obtain d0 where d0: "d0 \<in> set (service_definitions s)" "unchanged_terms service d0" by (auto simp: filter_empty_conv)
  have only: "unchanged_terms service d \<longleftrightarrow> sd_id d = sd_id service" if "d \<in> set (service_definitions s)" for d
    using d0 unique_key_eq [OF _ d0(1) that, where k = sd_id] s by (auto simp: unchanged_terms_def capacity_ok_def)
  have keys: "map sd_id (service_definitions s') = map sd_id (service_definitions s)"
    unfolding r(8) by (rule map_set_rows_key) (simp add: f_def)
  show "capacity_ok s'"
    unfolding capacity_ok_def
  proof (intro conjI ballI)
    show "distinct (map sd_id (service_definitions s'))" unfolding keys using s by (simp add: capacity_ok_def)
    show "distinct (map so_trade_id (service_orders s'))" using s r(3,6,7) by (auto simp: capacity_ok_def)
    fix x assume x: "x \<in> set (service_orders s')"
    have ids: "sd_id ` set (service_definitions s') = sd_id ` set (service_definitions s)" using keys by (metis list.set_map)
    have "sd_id service \<in> sd_id ` set (service_definitions s)"
      using imageI [OF d0(1), of sd_id] d0(2) by (simp add: unchanged_terms_def)
    with x s r(2,6) show "so_service_id x \<in> sd_id ` set (service_definitions s')" unfolding ids by (auto simp: capacity_ok_def)
    show "(so_capacity_released_at x \<noteq> None) = terminal_order (so_state x)" using x s r(4-6) unfolding capacity_ok_def by auto
  next
    fix x assume "x \<in> set (service_definitions s')"
    then obtain d where d: "d \<in> set (service_definitions s)" "x = (if unchanged_terms service d then f d else d)"
      unfolding r(8) set_set_rows by blast
    have ok: "sd_active_orders d = used (service_orders s) (sd_id d)" "sd_active_orders d \<le> sd_max_concurrency d"
      using s d(1) by (auto simp: capacity_ok_def)
    have u: "used (service_orders s') i = used (service_orders s) i + (if sd_id service = i then 1 else 0)" for i
      unfolding r(6) used_append using r(2,4) by simp
    show "sd_active_orders x = used (service_orders s') (sd_id x)" "sd_active_orders x \<le> sd_max_concurrency x"
      unfolding d(2) u using ok only [OF d(1)] by (cases "unchanged_terms service d"; auto simp: f_def unchanged_terms_def)+
  qed
qed

subsection \<open>An ended order is final\<close>

definition order_of :: "db \<Rightarrow> id \<Rightarrow> service_order option" where
  "order_of s tid = find (\<lambda>o'. so_trade_id o' = tid) (service_orders s)"

definition ended_order :: "service_order \<Rightarrow> bool" where
  "ended_order o' \<longleftrightarrow> so_capacity_released_at o' \<noteq> None \<and> terminal_order (so_state o')"

definition ended_kept :: "db \<Rightarrow> db \<Rightarrow> bool" where
  "ended_kept s s' \<longleftrightarrow> (\<forall>tid o'. order_of s tid = Some o' \<longrightarrow> ended_order o' \<longrightarrow> order_of s' tid = Some o')"

interpretation ek: preorder_tx ended_kept
  by unfold_locales (auto simp: ended_kept_def)

lemma ended_frame: "same service_orders m \<Longrightarrow> along ended_kept m"
  by (rule ek.unchanged) (auto simp: ended_kept_def order_of_def)

lemma ended_update:
  assumes "\<And>o'. so_trade_id (f o') = so_trade_id o'" and "\<And>o'. p o' \<Longrightarrow> \<not> ended_order o'"
  shows "along ended_kept (update_where service_orders service_orders_update p f)"
  using assms by (auto simp: along_def ended_kept_def order_of_def find_set_rows)

lemma ended_other: "along ended_kept (update_where service_execution_attempts service_execution_attempts_update q g)"
  "along ended_kept (update_where service_definitions service_definitions_update q' g')"
  "along ended_kept (insert_ignore service_execution_attempts service_execution_attempts_update c r)"
  "along ended_kept (close_attempts now q st)" "along ended_kept (endAttempts now oid)" "along ended_kept (set_routes i f)"
  "along ended_kept (notify_subscriber tid o' a w)" "along ended_kept (expire_overdue now i)"
  unfolding endAttempts_def close_attempts_def
  by (intro ek.intros ended_frame same_intros same_set_routes same_notify; simp add: same_def expire_overdue_def)+

lemma funded_not_ended: "so_state o' = O_funded \<Longrightarrow> \<not> ended_order o'" "holds_capacity tid o' \<Longrightarrow> \<not> ended_order o'"
  by (simp_all add: ended_order_def terminal_order_def holds_capacity_def)

lemma advance_ended: "along ended_kept (advanceServiceOrder now tid st)"
  unfolding advanceServiceOrder_def releaseCapacity_def
  by (intro ek.intros ended_other ended_update) (simp_all add: funded_not_ended)

lemma change_ended: "along ended_kept (changeServiceExecutionAttempt now tid sid i action)"
  unfolding changeServiceExecutionAttempt_def acceptWork_def declineWork_def renewLease_def update_attempt_def
  by (auto split: prod.split intro!: ek.intros ended_other ended_update advance_ended simp: funded_not_ended)

lemma start_ended: "along ended_kept (startServiceOrderExecution now tid sid)"
  unfolding startServiceOrderExecution_def
  by (auto split: option.split prod.split intro!: ek.intros ended_update advance_ended simp: funded_not_ended)

lemma dispatch_ended: "along ended_kept (queueFundedWorkOrder now fresh tid sid)"
  unfolding queueFundedWorkOrder_def queueServiceExecutionAttempt_def
  by (auto split: prod.split intro!: ek.intros ended_other)

lemma sweep_ended: "along ended_kept (expireServiceAcknowledgmentAttempts now limit)"
  "along ended_kept (expireServiceExecutionAttempts now limit)" "along ended_kept (deliverAttempt now oid i)"
  unfolding expireServiceAcknowledgmentAttempts_def expireServiceExecutionAttempts_def deliverAttempt_def
  by (intro ek.intros ended_other)+

lemma place_run:
  assumes "placeOrder now fresh service t share internal s = Inr (a, s')"
  shows "service_orders s' = service_orders s @ [a]" and "service_execution_attempts s' = service_execution_attempts s"
  using assms by (auto simp: placeOrder_def claimCapacity_def insertServiceOrder_def Let_def run_simps)

lemma place_ended: "along ended_kept (placeOrder now fresh service t share internal)"
  by (auto simp: along_def ended_kept_def order_of_def find_append dest!: place_run(1))

lemma place_attempts: "along attempts_run (placeOrder now fresh service t share internal)"
  by (auto simp: along_def dest!: place_run(2) intro: attempts_run_same)

section \<open>All operations together\<close>

text \<open>One committed operation on orders and attempts, with any arguments at any time.\<close>

inductive order_operation :: "db \<Rightarrow> db \<Rightarrow> bool" where
  placed: "placeOrder now fresh service t share internal s = Inr (a, s') \<Longrightarrow> order_operation s s'"
| advanced: "advanceServiceOrder now tid st s = Inr (b, s') \<Longrightarrow> order_operation s s'"
| dispatched: "queueFundedWorkOrder now fresh tid sid s = Inr (n, s') \<Longrightarrow> order_operation s s'"
| attempted: "changeServiceExecutionAttempt now tid sid i action s = Inr (r, s') \<Longrightarrow> order_operation s s'"
| started: "startServiceOrderExecution now tid sid s = Inr (r', s') \<Longrightarrow> order_operation s s'"
| unacknowledged: "expireServiceAcknowledgmentAttempts now limit s = Inr (n, s') \<Longrightarrow> order_operation s s'"
| lapsed: "expireServiceExecutionAttempts now limit s = Inr (n, s') \<Longrightarrow> order_operation s s'"
| delivered: "deliverAttempt now oid i s = Inr (b, s') \<Longrightarrow> order_operation s s'"

lemma operation_keeps: "order_operation s s' \<Longrightarrow> capacity_ok s \<Longrightarrow> capacity_ok s'"
  by (induction rule: order_operation.induct)
    (blast dest: keepsD [OF place_keeps] keepsD [OF advance_keeps] keepsD [OF dispatch_keeps] keepsD [OF change_keeps]
      keepsD [OF start_keeps] keepsD [OF acknowledgments_keep] keepsD [OF leases_keep] keepsD [OF deliver_keeps])+

lemma operation_attempts: "order_operation s s' \<Longrightarrow> attempts_run s s'"
  by (induction rule: order_operation.induct)
    (blast dest: alongD [OF place_attempts] alongD [OF advance_attempts] alongD [OF dispatch_attempts] alongD [OF change_attempts]
      alongD [OF start_attempts] alongD [OF expire_acknowledgments_attempts] alongD [OF expire_leases_attempts] alongD [OF deliver_attempts])+

lemma operation_ended: "order_operation s s' \<Longrightarrow> ended_kept s s'"
  by (induction rule: order_operation.induct)
    (blast dest: alongD [OF place_ended] alongD [OF advance_ended] alongD [OF dispatch_ended] alongD [OF change_ended]
      alongD [OF start_ended] alongD [OF sweep_ended(1)] alongD [OF sweep_ended(2)] alongD [OF sweep_ended(3)])+

text \<open>
  C23. Capacity.  Whatever operations run, in whatever order, each service's count of
  active orders is the number of its orders that have not ended, and it never
  exceeds the service's concurrency; an order has given its unit back exactly when
  it has ended, and an ended order never changes again.
\<close>

theorem capacity_is_accounted:
  assumes "order_operation\<^sup>*\<^sup>* s s'" and "capacity_ok s"
  shows "capacity_ok s'
    \<and> (\<forall>d \<in> set (service_definitions s'). 0 \<le> sd_active_orders d \<and> sd_active_orders d \<le> sd_max_concurrency d
         \<and> sd_active_orders d = used (service_orders s') (sd_id d))
    \<and> (\<forall>tid o'. order_of s tid = Some o' \<and> terminal_order (so_state o') \<longrightarrow> order_of s' tid = Some o')"
  using assms
proof (induction rule: rtranclp_induct)
  case base
  then show ?case using used_nonneg by (auto simp: capacity_ok_def)
next
  case (step t u)
  have u: "capacity_ok u" using operation_keeps [OF step.hyps(2)] step by blast
  have "order_of u tid = Some o'" if "order_of s tid = Some o'" "terminal_order (so_state o')" for tid o'
  proof -
    have t: "order_of t tid = Some o'" "capacity_ok t" using step that by blast+
    then have "ended_order o'" using that(2) by (auto simp: ended_order_def capacity_ok_def order_of_def dest!: find_Some_in)
    with t(1) operation_ended [OF step.hyps(2)] show ?thesis by (simp add: ended_kept_def)
  qed
  with u used_nonneg show ?case by (auto simp: capacity_ok_def)
qed

text \<open>
  C29. The provider's attempt.  Whatever operations run, an attempt stays with its
  order and its state makes a run of the attempt machine: queued, then at most
  accepted, then at most one outcome.  Once it has an outcome it keeps it: a lease
  that has expired is not delivered later, and a late sweep does not undo an
  acceptance that was delivered.
\<close>

theorem attempts_have_one_outcome:
  assumes "order_operation\<^sup>*\<^sup>* s s'" and "attempt_at s i = Some a"
  shows "\<exists>a'. attempt_at s' i = Some a' \<and> ea_order_id a' = ea_order_id a
    \<and> attempt_move\<^sup>*\<^sup>* (ea_state a) (ea_state a')
    \<and> (attempt_final (ea_state a) \<longrightarrow> ea_state a' = ea_state a)
    \<and> (ea_state a' = A_delivered \<longrightarrow> ea_state a \<in> {A_queued, A_accepted, A_delivered})"
proof -
  have "attempts_run s s'" using assms(1)
    by (induction rule: rtranclp_induct) (auto intro: ar.refl ar.trans operation_attempts)
  with assms(2) obtain a' where a': "attempt_at s' i = Some a'" "ea_order_id a' = ea_order_id a"
    "attempt_move\<^sup>*\<^sup>* (ea_state a) (ea_state a')" by (auto simp: attempts_run_def)
  have "attempt_final (ea_state a) \<longrightarrow> ea_state a' = ea_state a" using am.final_stays a'(3) by blast
  with a' show ?thesis by (intro exI [of _ a']) (auto simp: attempt_final_def)
qed

section \<open>Accepting and keeping a lease\<close>

text \<open>The primary keys of the two tables.\<close>

definition work_keys :: "db \<Rightarrow> bool" where
  "work_keys s \<longleftrightarrow> distinct (map ea_id (service_execution_attempts s)) \<and> distinct (map so_trade_id (service_orders s))"

lemma work_row_Some:
  assumes "work_row tid i s = Some (t, o', a)" and "work_keys s"
  shows "find (\<lambda>t. t_id t = tid) (trades s) = Some t" and "order_of s tid = Some o'" and "attempt_at s i = Some a"
    and "ea_order_id a = so_id o'" and "ea_id a = i" and "so_trade_id o' = tid"
proof -
  have a: "find (\<lambda>a. ea_order_id a = so_id o' \<and> ea_id a = i) (service_execution_attempts s) = Some a"
    and "find (\<lambda>t. t_id t = tid) (trades s) = Some t" and o: "order_of s tid = Some o'"
    using assms(1) by (auto simp: work_row_def order_of_def split: option.splits)
  then show "find (\<lambda>t. t_id t = tid) (trades s) = Some t" "order_of s tid = Some o'" by simp_all
  have m: "a \<in> set (service_execution_attempts s)" "ea_order_id a = so_id o'" "ea_id a = i" using find_Some_in [OF a] by auto
  then show "ea_order_id a = so_id o'" "ea_id a = i" by simp_all
  show "attempt_at s i = Some a"
    using find_unique [where k = ea_id, OF _ m(1)] assms(2) m(3) by (auto simp: attempt_at_def work_keys_def)
  show "so_trade_id o' = tid" using o by (auto simp: order_of_def dest: find_Some_in)
qed

lemma work_rowI:
  assumes "find (\<lambda>t. t_id t = tid) (trades s) = Some t" and "order_of s tid = Some o'" and "attempt_at s i = Some a"
    and "ea_order_id a = so_id o'" and "work_keys s"
  shows "work_row tid i s = Some (t, o', a)"
proof -
  have a: "a \<in> set (service_execution_attempts s)" "ea_id a = i" using assms(3) by (auto simp: attempt_at_def dest: find_Some_in)
  then have "find (\<lambda>a. ea_order_id a = so_id o' \<and> ea_id a = i) (service_execution_attempts s) \<noteq> None"
    using assms(4) by (auto simp: find_None_iff)
  then obtain b where b: "find (\<lambda>a. ea_order_id a = so_id o' \<and> ea_id a = i) (service_execution_attempts s) = Some b" by blast
  have d: "distinct (map ea_id (service_execution_attempts s))" using assms(5) by (simp add: work_keys_def)
  have "a = b" by (rule unique_key_eq [OF d a(1)]) (use find_Some_in [OF b] a(2) in simp_all)
  with b assms(1,2) show ?thesis by (simp add: work_row_def order_of_def)
qed

text \<open>The handler compares milliseconds and the statement seconds; on stored times the two agree.\<close>

lemma due_agree: "to_seconds now < providerAcknowledgmentDueSql a \<longleftrightarrow> now < providerAcknowledgmentDueAt a"
  by (cases "ea_acknowledgment_due_at a")
    (auto simp: to_seconds_def providerAcknowledgmentDueSql_def providerAcknowledgmentDueAt_def PROVIDER_ACKNOWLEDGMENT_TIMEOUT_SECONDS_def)

lemma lease_agree: "lease_runs now a \<longleftrightarrow> lease_active now a"
  by (auto simp: lease_runs_def lease_active_def to_seconds_def split: option.splits)

lemma update_attempt_one:
  assumes "attempt_at s i = Some a" and "work_keys s" and "p a" and "\<And>b. p b \<Longrightarrow> ea_id b = i" and "\<And>b. ea_id (f b) = ea_id b"
  shows "\<exists>s'. update_attempt p f e s = Inr (f a, s') \<and> attempt_at s' i = Some (f a) \<and> work_keys s'
    \<and> service_orders s' = service_orders s \<and> trades s' = trades s \<and> service_definitions s' = service_definitions s"
proof -
  let ?as = "service_execution_attempts s"
  have fa: "find (\<lambda>b. ea_id b = i) ?as = Some a" using assms(1) by (simp add: attempt_at_def)
  have ne: "filter p ?as \<noteq> []" using find_Some_in [OF fa] assms(3) by (auto simp: filter_empty_conv)
  note fs = found_set [where p = "\<lambda>b. ea_id b = i" and q = p and f = f, OF fa assms(3,4)]
  show ?thesis using ne fs assms(2,5)
    by (simp add: update_attempt_def eval_tx update_where_def attempt_at_def work_keys_def split: list.split)
      (metis (no_types, lifting) list.sel(1) list.simps(9))
qed

lemma advance_executing:
  assumes "order_of s tid = Some o'" and "so_capacity_released_at o' = None"
  shows "\<exists>s'. advanceServiceOrder now tid O_executing s = Inr ((), s')
    \<and> order_of s' tid = Some (o'\<lparr>so_state := O_executing, so_updated_at := to_seconds now\<rparr>)
    \<and> service_execution_attempts s' = service_execution_attempts s \<and> trades s' = trades s
    \<and> (distinct (map so_trade_id (service_orders s)) \<longrightarrow> distinct (map so_trade_id (service_orders s')))"
proof -
  let ?f = "\<lambda>o'. o'\<lparr>so_state := O_executing, so_updated_at := to_seconds now\<rparr>"
  define s1 where "s1 = service_orders_update (\<lambda>_. set_rows (holds_capacity tid) ?f (service_orders s)) s"
  have tid: "so_trade_id o' = tid" using assms(1) by (auto simp: order_of_def dest: find_Some_in)
  have o1: "order_of s1 tid = map_option (\<lambda>r. if holds_capacity tid r then ?f r else r) (order_of s tid)"
    unfolding order_of_def s1_def by (simp add: find_set_rows)
  obtain s2 where s2: "set_routes (so_id o') (\<lambda>r. r\<lparr>rp_state := order_state_name O_executing, rp_updated_at := to_seconds now\<rparr>) s1
      = Inr ((), s2)" "service_orders s2 = service_orders s1" "service_execution_attempts s2 = service_execution_attempts s1"
    "trades s2 = trades s1"
    by (simp add: set_routes_def eval_tx update_where_def)
  have "advanceServiceOrder now tid O_executing s = Inr ((), s2)"
    using assms(1) s2(1) by (simp add: advanceServiceOrder_def terminal_order_def bnd_def andthen_def select_one_def asks_def
        onlyif_def ret_def update_where_def order_of_def s1_def)
  moreover have "order_of s2 tid = Some (?f o')"
    using o1 assms tid s2(2) by (simp add: order_of_def holds_capacity_def)
  moreover have "map so_trade_id (service_orders s2) = map so_trade_id (service_orders s)"
    unfolding s2(2) s1_def by simp
  ultimately show ?thesis using s2(3,4) by (simp add: s1_def)
qed

definition acceptable :: "millis \<Rightarrow> id \<Rightarrow> trade \<Rightarrow> service_order \<Rightarrow> execution_attempt \<Rightarrow> bool" where
  "acceptable now seller t o' a \<longleftrightarrow> t_seller_id t = seller \<and> t_status t = T_escrow_held \<and> so_capacity_released_at o' = None
     \<and> so_state o' = O_funded \<and> ea_state a = A_queued \<and> now < providerAcknowledgmentDueAt a"

lemma accept_runs:
  assumes row: "work_row tid i s = Some (t, o', a)" and keys: "work_keys s" and ok: "acceptable now seller t o' a"
    and fresh: "so_execution_started_at o' = None"
  shows "\<exists>a' s'. changeServiceExecutionAttempt now tid seller i Accept_work s = Inr ((a', False), s')
    \<and> ea_state a' = A_accepted \<and> ea_lease_expires_at a' = Some (to_seconds (now + LEASE_MS))
    \<and> work_row tid i s' = Some (t, o'\<lparr>so_state := O_executing, so_execution_started_at := Some (to_seconds now),
         so_updated_at := to_seconds now\<rparr>, a') \<and> work_keys s'"
proof -
  note w = work_row_Some [OF row keys]
  let ?f = "\<lambda>a. a\<lparr>ea_state := A_accepted, ea_accepted_at := Some (to_seconds now), ea_heartbeat_at := Some (to_seconds now),
      ea_lease_expires_at := Some (to_seconds (now + LEASE_MS)), ea_updated_at := to_seconds now\<rparr>"
  let ?p = "\<lambda>a. ea_id a = i \<and> ea_state a = A_queued \<and> to_seconds now < providerAcknowledgmentDueSql a"
  let ?q = "\<lambda>r. so_id r = so_id o' \<and> so_state r = O_funded \<and> so_execution_started_at r = None"
  let ?g = "\<lambda>r. r\<lparr>so_execution_started_at := Some (to_seconds now), so_updated_at := to_seconds now\<rparr>"
  have pa: "?p a" using ok w(5) by (simp add: acceptable_def due_agree)
  obtain s1 where s1: "update_attempt ?p ?f (ServiceAttemptError ''WORK_ATTEMPT_STATE_CHANGED'' 409) s = Inr (?f a, s1)"
    "attempt_at s1 i = Some (?f a)" "work_keys s1" "service_orders s1 = service_orders s" "trades s1 = trades s"
    using update_attempt_one [where p = ?p and f = ?f, OF w(3) keys pa] by auto
  have o1: "order_of s1 tid = Some o'" using w(2) s1(4) by (simp add: order_of_def)
  have q: "?q o'" using ok fresh by (simp add: acceptable_def)
  define s2 where "s2 = service_orders_update (\<lambda>_. set_rows ?q ?g (service_orders s1)) s1"
  have claimed: "filter ?q (service_orders s1) \<noteq> []" using o1 q by (auto simp: order_of_def filter_empty_conv dest: find_Some_in)
  have o2: "order_of s2 tid = Some (?g o')" using o1 q by (simp add: s2_def order_of_def find_set_rows)
  obtain s3 where s3: "advanceServiceOrder now tid O_executing s2 = Inr ((), s3)"
    "order_of s3 tid = Some ((?g o')\<lparr>so_state := O_executing, so_updated_at := to_seconds now\<rparr>)"
    "service_execution_attempts s3 = service_execution_attempts s2" "trades s3 = trades s2"
    "distinct (map so_trade_id (service_orders s2)) \<longrightarrow> distinct (map so_trade_id (service_orders s3))"
    using advance_executing [OF o2] ok by (auto simp: acceptable_def)
  have "acceptWork now tid i o' s = Inr (?f a, s3)"
    using s1(1) claimed s3(1) by (simp add: acceptWork_def bnd_def andthen_def require_def ret_def update_where_def s2_def)
  then have run: "changeServiceExecutionAttempt now tid seller i Accept_work s = Inr ((?f a, False), s3)"
    using row ok by (simp add: changeServiceExecutionAttempt_def eval_tx acceptable_def)
  have keys3: "work_keys s3" using s1(3) s3(3,5) by (simp add: work_keys_def s2_def)
  have "work_row tid i s3 = Some (t, o'\<lparr>so_state := O_executing, so_execution_started_at := Some (to_seconds now),
      so_updated_at := to_seconds now\<rparr>, ?f a)"
    by (rule work_rowI [OF _ _ _ _ keys3]) (use w s1(2,5) s3 in \<open>auto simp: s2_def attempt_at_def\<close>)
  with run keys3 show ?thesis by (intro exI [of _ "?f a"] exI [of _ s3]) simp
qed

definition refusal :: "millis \<Rightarrow> id \<Rightarrow> trade \<Rightarrow> service_order \<Rightarrow> execution_attempt \<Rightarrow> app_error" where
  "refusal now seller t o' a =
    (if t_seller_id t \<noteq> seller then ServiceAttemptError ''WORK_ORDER_NOT_FOUND'' 404
     else if t_status t \<noteq> T_escrow_held \<or> so_capacity_released_at o' \<noteq> None \<or> so_state o' \<notin> {O_funded, O_executing}
       then ServiceAttemptError ''WORK_ORDER_NOT_FUNDED'' 409
     else if ea_state a = A_acknowledgment_timed_out \<or> ea_state a = A_queued \<and> providerAcknowledgmentDueAt a \<le> now
       then ServiceAttemptError ''WORK_ATTEMPT_ACKNOWLEDGMENT_EXPIRED'' 409
     else ServiceAttemptError ''WORK_ATTEMPT_STATE_CHANGED'' 409)"

lemma refused_runs:
  assumes "work_row tid i s = Some (t, o', a)" and "\<not> acceptable now seller t o' a" and "ea_state a \<noteq> A_accepted"
  shows "changeServiceExecutionAttempt now tid seller i Accept_work s = Inl (refusal now seller t o' a)"
proof -
  define held where "held \<longleftrightarrow> t_status t = T_escrow_held \<and> so_capacity_released_at o' = None \<and> so_state o' \<in> {O_funded, O_executing}"
  define late where "late \<longleftrightarrow> ea_state a = A_acknowledgment_timed_out \<or> ea_state a = A_queued \<and> providerAcknowledgmentDueAt a \<le> now"
  define open' where "open' \<longleftrightarrow> ea_state a = A_queued \<and> so_state o' = O_funded"
  have "\<not> open'" if "t_seller_id t = seller" "held" "\<not> late"
    using assms(2) that by (auto simp: acceptable_def held_def late_def open'_def)
  moreover have "refusal now seller t o' a =
    (if t_seller_id t \<noteq> seller then ServiceAttemptError ''WORK_ORDER_NOT_FOUND'' 404
     else if \<not> held then ServiceAttemptError ''WORK_ORDER_NOT_FUNDED'' 409
     else if late then ServiceAttemptError ''WORK_ATTEMPT_ACKNOWLEDGMENT_EXPIRED'' 409
     else ServiceAttemptError ''WORK_ATTEMPT_STATE_CHANGED'' 409)"
    by (simp add: refusal_def held_def late_def)
  moreover have "changeServiceExecutionAttempt now tid seller i Accept_work s =
      andthen (require (t_seller_id t = seller) (ServiceAttemptError ''WORK_ORDER_NOT_FOUND'' 404))
     (andthen (require held (ServiceAttemptError ''WORK_ORDER_NOT_FUNDED'' 409))
     (andthen (require (\<not> late) (ServiceAttemptError ''WORK_ATTEMPT_ACKNOWLEDGMENT_EXPIRED'' 409))
     (andthen (require open' (ServiceAttemptError ''WORK_ATTEMPT_STATE_CHANGED'' 409))
       (bnd (acceptWork now tid i o') (\<lambda>updated. ret (updated, False)))))) s"
    unfolding changeServiceExecutionAttempt_def held_def late_def open'_def
    using assms(1,3) by (simp add: bnd_Inr [of "asks f" for f, OF asks_run [THEN iffD2, OF HOL.refl]])
  ultimately show ?thesis by (simp add: bnd_def andthen_def require_def throw_def ret_def)
qed

text \<open>
  C31. Accepting work.  A provider's acceptance of an attempt that has not been
  accepted yet succeeds exactly when the seller asks, the trade holds its escrow,
  the order is funded and has not ended, and the attempt is queued with its
  acknowledgment deadline ahead; the guards that the statements repeat in whole
  seconds never refuse what the handler has let through.  Otherwise the answer is
  the refusal of the first guard that fails, and nothing is changed.
\<close>

theorem acceptance_decided:
  assumes "work_row tid i s = Some (t, o', a)" and "work_keys s" and "ea_state a \<noteq> A_accepted" and "so_execution_started_at o' = None"
  shows "if acceptable now seller t o' a
    then \<exists>a' s'. transaction (changeServiceExecutionAttempt now tid seller i Accept_work) s = (Inr (a', False), s')
      \<and> ea_state a' = A_accepted \<and> ea_lease_expires_at a' = Some (to_seconds (now + LEASE_MS))
      \<and> attempt_at s' i = Some a' \<and> (\<exists>x. order_of s' tid = Some x \<and> so_state x = O_executing)
    else transaction (changeServiceExecutionAttempt now tid seller i Accept_work) s = (Inl (refusal now seller t o' a), s)"
proof (cases "acceptable now seller t o' a")
  case True
  obtain a' s' where r: "changeServiceExecutionAttempt now tid seller i Accept_work s = Inr ((a', False), s')"
    "ea_state a' = A_accepted" "ea_lease_expires_at a' = Some (to_seconds (now + LEASE_MS))"
    "work_row tid i s' = Some (t, o'\<lparr>so_state := O_executing, so_execution_started_at := Some (to_seconds now),
       so_updated_at := to_seconds now\<rparr>, a')" "work_keys s'"
    using accept_runs [OF assms(1,2) True assms(4)] by blast
  have "order_of s' tid = Some (o'\<lparr>so_state := O_executing, so_execution_started_at := Some (to_seconds now), so_updated_at := to_seconds now\<rparr>)"
    "attempt_at s' i = Some a'" using work_row_Some [OF r(4,5)] by simp_all
  with True r(1-3) show ?thesis by (auto simp: transaction_def)
next
  case False
  with refused_runs [OF assms(1) False assms(3)] show ?thesis by (simp add: transaction_def)
qed

text \<open>
  C30. Keeping a lease.  Once a provider's acceptance has committed, then until its
  lease ends it can repeat the acceptance, which answers the same attempt again
  and changes nothing, and it can renew the lease, which then lasts ten minutes
  from the renewal.
\<close>

theorem accepted_work_can_continue:
  assumes "work_row tid i s = Some (t, o', a)" and "work_keys s" and "acceptable now seller t o' a"
    and "so_execution_started_at o' = None" and "later < to_seconds (now + LEASE_MS) * 1000"
  shows "\<exists>a' s'. changeServiceExecutionAttempt now tid seller i Accept_work s = Inr ((a', False), s')
    \<and> changeServiceExecutionAttempt later tid seller i Accept_work s' = Inr ((a', True), s')
    \<and> (\<exists>b s''. changeServiceExecutionAttempt later tid seller i Heartbeat s' = Inr ((b, False), s'')
         \<and> attempt_at s'' i = Some b \<and> ea_state b = A_accepted \<and> ea_lease_expires_at b = Some (to_seconds (later + LEASE_MS)))"
proof -
  obtain a' s' where r: "changeServiceExecutionAttempt now tid seller i Accept_work s = Inr ((a', False), s')"
    "ea_state a' = A_accepted" "ea_lease_expires_at a' = Some (to_seconds (now + LEASE_MS))"
    "work_row tid i s' = Some (t, o'\<lparr>so_state := O_executing, so_execution_started_at := Some (to_seconds now),
       so_updated_at := to_seconds now\<rparr>, a')" "work_keys s'"
    using accept_runs [OF assms(1-4)] by blast
  have held: "t_seller_id t = seller" "t_status t = T_escrow_held" "so_capacity_released_at o' = None"
    using assms(3) by (auto simp: acceptable_def)
  have active: "lease_active later a'" using r(3) assms(5) by (simp add: lease_active_def)
  have again: "changeServiceExecutionAttempt later tid seller i Accept_work s' = Inr ((a', True), s')"
    using r(2,4) held active by (simp add: changeServiceExecutionAttempt_def eval_tx)
  let ?f = "\<lambda>a. a\<lparr>ea_heartbeat_at := Some (to_seconds later), ea_lease_expires_at := Some (to_seconds (later + LEASE_MS)),
      ea_updated_at := to_seconds later\<rparr>"
  let ?p = "\<lambda>a. ea_id a = i \<and> ea_state a = A_accepted \<and> lease_runs later a"
  have "?p a'" using r(2) active work_row_Some(5) [OF r(4,5)] by (simp add: lease_agree)
  then obtain s2 where s2: "renewLease later i s' = Inr (?f a', s2)" "attempt_at s2 i = Some (?f a')"
    unfolding renewLease_def using update_attempt_one [where p = ?p and f = ?f, OF work_row_Some(3) [OF r(4,5)] r(5)] by auto
  have "changeServiceExecutionAttempt later tid seller i Heartbeat s' = Inr ((?f a', False), s2)"
    using r(2,4) held active s2(1) by (simp add: changeServiceExecutionAttempt_def bnd_def andthen_def asks_def require_def ret_def)
  with r(1,2) again s2(2) show ?thesis by (intro exI [of _ a'] exI [of _ s']) auto
qed

section \<open>Examples\<close>

definition sample_service :: service_definition where
  "sample_service = \<lparr>sd_organization_only = False, sd_id = ''s1'', sd_seller_id = ''user_agent_a2'', sd_capabilities = ''[]'',
     sd_input_schema = ''{}'', sd_output_schema = ''{}'', sd_price_minor = 2000, sd_estimated_latency_seconds = None,
     sd_max_concurrency = 1, sd_active_orders = 1, sd_leased = True, sd_verification_policy = ''{}'', sd_active = True,
     sd_updated_at = 0\<rparr>"

definition sample_order :: service_order where
  "sample_order = \<lparr>so_private_provider_share_id = None, so_id = ''o1'', so_service_id = ''s1'', so_listing_id = ''l1'',
     so_trade_id = ''t1'', so_buyer_id = ''user_agent_a1'', so_contract_leased = Some True, so_price_minor = 2000,
     so_payment_rail = Credit, so_state = O_funded, so_execution_started_at = None, so_capacity_released_at = None,
     so_updated_at = 0\<rparr>"

definition sample_attempt :: execution_attempt where
  "sample_attempt = \<lparr>ea_id = ''x1'', ea_order_id = ''o1'', ea_state = A_queued, ea_acknowledgment_due_at = Some 600,
     ea_accepted_at = None, ea_heartbeat_at = None, ea_lease_expires_at = None, ea_completed_at = None,
     ea_created_at = 0, ea_updated_at = 0\<rparr>"

definition work_db :: db where
  "work_db = empty_db\<lparr>trades := [sample_trade], service_definitions := [sample_service], service_orders := [sample_order],
     service_execution_attempts := [sample_attempt]\<rparr>"

lemma work_db_facts: "capacity_ok work_db" "work_keys work_db"
  "work_row ''t1'' ''x1'' work_db = Some (sample_trade, sample_order, sample_attempt)"
  "attempt_at work_db ''x1'' = Some sample_attempt"
  by (simp_all add: capacity_ok_def work_keys_def work_row_def attempt_at_def work_db_def sample_trade_def sample_order_def
      sample_attempt_def sample_service_def used_def terminal_order_def)

lemma work_acceptable: "acceptable 1000 ''user_agent_a2'' sample_trade sample_order sample_attempt"
  by (simp add: acceptable_def sample_trade_def sample_order_def sample_attempt_def providerAcknowledgmentDueAt_def)

lemma ended_order_releases_once_witness:
  "\<exists>s'. advanceServiceOrder 0 ''t1'' O_completed work_db = Inr ((), s') \<and> capacity_ok s'"
  using ended_order_releases_once [OF work_db_facts(1), of O_completed O_cancelled 0 "''t1''" 0]
  by (auto simp: terminal_order_def)

lemma accepted_step: "\<exists>r s'. changeServiceExecutionAttempt 1000 ''t1'' ''user_agent_a2'' ''x1'' Accept_work work_db = Inr (r, s')"
  using accept_runs [OF work_db_facts(3,2) work_acceptable] by (auto simp: sample_order_def)

lemma capacity_is_accounted_witness: "\<exists>s'. order_operation work_db s' \<and> capacity_ok s'"
proof -
  obtain r s' where "changeServiceExecutionAttempt 1000 ''t1'' ''user_agent_a2'' ''x1'' Accept_work work_db = Inr (r, s')"
    using accepted_step by blast
  then have op: "order_operation work_db s'" by (rule attempted)
  with capacity_is_accounted [OF r_into_rtranclp [of order_operation] work_db_facts(1)] show ?thesis by blast
qed

lemma attempts_have_one_outcome_witness: "\<exists>s' a'. order_operation work_db s' \<and> attempt_at s' ''x1'' = Some a' \<and> ea_order_id a' = ''o1''"
proof -
  obtain r s' where "changeServiceExecutionAttempt 1000 ''t1'' ''user_agent_a2'' ''x1'' Accept_work work_db = Inr (r, s')"
    using accepted_step by blast
  then have op: "order_operation work_db s'" by (rule attempted)
  with attempts_have_one_outcome [OF r_into_rtranclp [of order_operation] work_db_facts(4)] show ?thesis
    by (force simp: sample_attempt_def)
qed

lemma acceptance_decided_witness:
  "(\<exists>a' s'. transaction (changeServiceExecutionAttempt 1000 ''t1'' ''user_agent_a2'' ''x1'' Accept_work) work_db = (Inr (a', False), s'))
   \<and> transaction (changeServiceExecutionAttempt 600000 ''t1'' ''user_agent_a2'' ''x1'' Accept_work) work_db
     = (Inl (ServiceAttemptError ''WORK_ATTEMPT_ACKNOWLEDGMENT_EXPIRED'' 409), work_db)"
  using acceptance_decided [OF work_db_facts(3,2), of 1000 "''user_agent_a2''"] work_acceptable
    acceptance_decided [OF work_db_facts(3,2), of 600000 "''user_agent_a2''"]
  by (simp add: acceptable_def refusal_def sample_attempt_def sample_order_def sample_trade_def providerAcknowledgmentDueAt_def)
    blast

lemma accepted_work_can_continue_witness:
  "\<exists>a' s'. changeServiceExecutionAttempt 1000 ''t1'' ''user_agent_a2'' ''x1'' Accept_work work_db = Inr ((a', False), s')
     \<and> changeServiceExecutionAttempt 500000 ''t1'' ''user_agent_a2'' ''x1'' Accept_work s' = Inr ((a', True), s')"
  using accepted_work_can_continue [OF work_db_facts(3,2) work_acceptable, of 500000]
  by (auto simp: sample_order_def to_seconds_def LEASE_MS_def)

end
