(* ===== verification/Trades.thy ===== *)
theory Trades
  imports ServiceOrders MarketGuards OrgBudgets ContractSettlement
begin

text \<open>
  Trades: the price of a trade and its creation against the account balance
  (\<open>lib/settlement.ts\<close>) or as an unpaid reservation for an outside payment
  (\<open>app/api/trades/route.ts\<close>); the funding of such a reservation, its expiry and the
  payment that arrives after it (\<open>lib/trade-funding.ts\<close>); the gate before release
  (\<open>lib/trade-acceptance.ts\<close>, \<open>lib/verification-evidence.ts\<close>); completion
  (\<open>lib/trade-escrow.ts\<close>), disputes (\<open>app/api/trades/[id]/dispute/route.ts\<close>) and their
  resolution (\<open>lib/trade-dispute.ts\<close>).

  A handler passes the trade as it read it before the transaction; the statements
  decide by the row they find.  Notifications, which are sent after the commit, are
  not modelled.
\<close>

section \<open>What this theory takes from elsewhere\<close>

text \<open>
  \<open>te_agreed\<close> is the acceptance contract of a trade (\<open>agreedAcceptance\<close>), \<open>te_original\<close>
  says that a trade is the original of a reviewed task or listing, \<open>te_ineligible\<close>
  is the first reason against accepting an outside payment now, and \<open>te_recorded\<close>,
  \<open>te_performed\<close> and \<open>te_decided\<close> are the records that the purchasing, reputation
  and performance parts keep beside a trade.
\<close>

record acceptance =
  ac_methods :: "string list"
  ac_json :: bool
  ac_exact_hash :: bool

record external_funding =
  ef_trade :: trade
  ef_rail :: rail
  ef_tx_hash :: "string option"
  ef_external_id :: string
  ef_payer_address :: string
  ef_token_address :: string
  ef_chain_id :: int
  ef_token_symbol :: string
  ef_token_decimals :: int
  ef_token_amount :: int
  ef_token_usd_price :: num
  ef_usd_value :: num

record trade_env =
  te_deployment :: deployment
  te_dev_wallet :: "string option"
  te_agreed :: "db \<Rightarrow> id \<Rightarrow> app_error + acceptance option"
  te_original :: "db \<Rightarrow> id \<Rightarrow> bool"
  te_ineligible :: "external_funding \<Rightarrow> trade \<Rightarrow> db \<Rightarrow> string option"
  te_recorded :: "id \<Rightarrow> bool \<Rightarrow> unit dbtx"
  te_performed :: "trade \<Rightarrow> unit dbtx"
  te_decided :: "id \<Rightarrow> unit dbtx"

section \<open>Price and creation\<close>

record financials =
  fi_platform_fee :: num
  fi_total_cost :: num
  fi_seller_amount :: num

definition DEV_FEE :: num where
  "DEV_FEE = fl (5 / 100)"

definition calculateTradeFinancials :: "num \<Rightarrow> financials" where
  "calculateTradeFinancials itemPrice =
    (let platformFee = round2 (jmul itemPrice DEV_FEE) in
     \<lparr>fi_platform_fee = platformFee, fi_total_cost = round2 (jadd itemPrice platformFee), fi_seller_amount = itemPrice\<rparr>)"

definition createEscrowSession :: "id \<Rightarrow> id \<Rightarrow> num \<Rightarrow> id dbtx" where
  "createEscrowSession fresh buyerId reservedAmount =
     andthen (insert_row mpp_sessions mpp_sessions_update (\<lambda>m. ms_session_id m = fresh) (SqlError ''UNIQUE mpp_sessions'')
       \<lparr>ms_session_id = fresh, ms_agent_id = buyerId, ms_reserved_amount = reservedAmount, ms_spent_amount = 0,
        ms_status = Session_active, ms_closed_at = None\<rparr>)
     (ret fresh)"

text \<open>A unique index ignores missing values.\<close>

definition clashes :: "string option \<Rightarrow> string option \<Rightarrow> bool" where
  "clashes x y \<longleftrightarrow> x \<noteq> None \<and> x = y"

definition insert_trade :: "trade \<Rightarrow> trade dbtx" where
  "insert_trade t = andthen (insert_row trades trades_update
      (\<lambda>r. t_id r = t_id t \<or> clashes (t_client_reference r) (t_client_reference t)) (SqlError ''UNIQUE trades'') t) (ret t)"

definition new_trade :: "millis \<Rightarrow> id \<Rightarrow> listing \<Rightarrow> id \<Rightarrow> financials \<Rightarrow> rail \<Rightarrow> string option \<Rightarrow> trade" where
  "new_trade now fresh l buyerId fi rail ref =
     \<lparr>t_id = fresh, t_listing_id = l_id l, t_buyer_id = buyerId, t_seller_id = l_seller_id l,
      t_amount = fi_seller_amount fi, t_fee = fi_platform_fee fi, t_item_price = l_price l,
      t_platform_fee = fi_platform_fee fi, t_total_cost = fi_total_cost fi, t_seller_amount = fi_seller_amount fi,
      t_dev_amount = fi_platform_fee fi, t_dev_wallet = None, t_fee_tx_hash = None,
      t_payout_status = Payout_pending, t_payment_rail = rail, t_client_reference = ref, t_status = T_pending,
      t_escrow_session_id = None, t_payment_due_at = None, t_funded_at = None, t_auto_confirm_at = None,
      t_resolution = None, t_resolution_seller_percent = None, t_created_at = to_seconds now,
      t_completed_at = None, t_rating_window_expires_at = None\<rparr>"

text \<open>\<open>{ totalMinor, sellerId, paymentRail, ...spendContext }\<close>, where a given context names all its fields.\<close>

definition trade_context :: "id \<Rightarrow> rail \<Rightarrow> num \<Rightarrow> spend_context option \<Rightarrow> spend_context" where
  "trade_context sellerId rail totalCost given = (case given of
     Some c \<Rightarrow> c\<lparr>sc_totalMinor := to_minor totalCost\<rparr>
   | None \<Rightarrow> \<lparr>sc_purchaseEvidence = None, sc_totalMinor = to_minor totalCost, sc_sellerId = Some sellerId,
       sc_capabilities = None, sc_paymentRail = Some rail, sc_verificationMethods = None, sc_retrySpendMinor = None\<rparr>)"

text \<open>The 72 hours after which an unanswered delivery is released by itself: 259200 seconds.\<close>

definition AUTO_CONFIRM_MS :: int where
  "AUTO_CONFIRM_MS = 259200 * 1000"

definition claim_listing :: "id \<Rightarrow> unit dbtx" where
  "claim_listing listingId =
     bnd (update_where listings listings_update (\<lambda>l. l_id l = listingId \<and> l_status l = L_active) (\<lambda>l. l\<lparr>l_status := L_sold\<rparr>))
       (\<lambda>claimed. require (claimed \<noteq> []) (TradeRaceError ''LISTING_ALREADY_CLAIMED''))"

definition debitLedger :: "id \<Rightarrow> num \<Rightarrow> num \<Rightarrow> unit dbtx" where
  "debitLedger buyerId totalCost sellerAmount =
     bnd (update_where wallets wallets_update (\<lambda>w. w_user_id w = buyerId \<and> totalCost \<le> w_balance w)
        (\<lambda>w. w\<lparr>w_balance := jsub (w_balance w) totalCost, w_escrow := jadd (w_escrow w) sellerAmount\<rparr>))
       (\<lambda>debit. require (debit \<noteq> []) (TradeRaceError ''INSUFFICIENT_FUNDS_AT_COMMIT''))"

definition journal_row :: "id option \<Rightarrow> id option \<Rightarrow> num \<Rightarrow> transaction_type \<Rightarrow> id \<Rightarrow> unit dbtx" where
  "journal_row from' to amount type ref = append_row transactions transactions_update
     \<lparr>tr_from_user_id = from', tr_to_user_id = to, tr_amount = amount, tr_type = type, tr_reference_id = Some ref\<rparr>"

definition createLedgerTrade ::
  "trade_env \<Rightarrow> millis \<Rightarrow> id \<Rightarrow> id \<Rightarrow> listing \<Rightarrow> id \<Rightarrow> id \<Rightarrow> rail \<Rightarrow> id option \<Rightarrow> string option \<Rightarrow> spend_context option \<Rightarrow> trade dbtx" where
  "createLedgerTrade env now fresh session l buyerId feeRecipientId rail agent ref given =
    (let fi = calculateTradeFinancials (l_price l); amount = fi_seller_amount fi; fee = fi_platform_fee fi;
         cost = fi_total_cost fi; context = trade_context (l_seller_id l) rail cost given in
     bnd (asks (\<lambda>s. originalPrivateServiceListing s (l_id l))) (\<lambda>private'.
     andthen (require (\<not> private') (TradeRaceError ''PRIVATE_SERVICE_LISTING''))
    (bnd (asks (\<lambda>s. originalReviewedTaskListing s (l_id l))) (\<lambda>task.
     andthen (require (\<not> task) (TradeRaceError ''ORIGINAL_TASK_LISTING''))
    (bnd (asks (\<lambda>s. originalReviewedListing s (l_id l))) (\<lambda>reviewed.
     andthen (require (\<not> reviewed) (TradeRaceError ''ORIGINAL_LISTING_CHECKOUT_REQUIRED''))
    (bnd (asks (\<lambda>s. originalReviewedContractListing s (l_id l))) (\<lambda>contract.
     andthen (require (\<not> contract) (TradeRaceError ''ORIGINAL_CONTRACT_LISTING''))
    (andthen (require (l_seller_id l \<noteq> buyerId) (PlainError ''Cannot buy your own work''))
    (andthen (require (0 < l_price l) (PlainError ''Invalid listing price''))
    (andthen (requireSellerPaymentRail (l_seller_id l) rail)
    (andthen (require (\<not> (rail = Credit \<and> fl (1 / 1000000) < \<bar>jsub (jmul amount 100) (of_int (to_minor amount))\<bar>))
        (PlainError ''Account credit requires prices in whole cents''))
    (andthen (onlyif (rail = Credit \<and> \<not> truthy agent) (enforceBuyerSpendPolicy buyerId context now))
    (andthen (onlyif (truthy agent)
        (bnd (enforceAgentSpendPolicy (te_deployment env) (the agent) buyerId cost context now) (\<lambda>_. ret ())))
    (andthen (claim_listing (l_id l))
    (andthen (onlyif (rail = Ledger) (debitLedger buyerId cost amount))
    (bnd (createEscrowSession session buyerId cost) (\<lambda>sessionId.
     bnd (insert_trade ((new_trade now fresh l buyerId fi rail (if truthy ref then ref else None))
        \<lparr>t_dev_wallet := te_dev_wallet env, t_payout_status := (if 0 < fee then Payout_fee_sent else Payout_pending),
         t_status := T_escrow_held, t_escrow_session_id := Some sessionId,
         t_auto_confirm_at := Some (now + AUTO_CONFIRM_MS)\<rparr>)) (\<lambda>t.
     andthen (onlyif (rail = Credit)
        (reserveCredit (to_seconds now) fresh buyerId feeRecipientId (to_minor cost) (to_minor amount) (to_minor fee)))
    (andthen (attributeOrganizationTrade agent t (to_minor cost) now)
    (andthen (journal_row (Some buyerId) None amount Escrow_lock fresh)
    (andthen (onlyif (0 < fee)
        (andthen (onlyif (rail = Ledger) (payWallet feeRecipientId fee))
           (journal_row (Some buyerId) (Some feeRecipientId) fee Fee fresh)))
       (ret t)))))))))))))))))))))))"

text \<open>A reservation for an outside payment: thirty minutes to pay.\<close>

definition reserveExternalTrade ::
  "trade_env \<Rightarrow> millis \<Rightarrow> id \<Rightarrow> listing \<Rightarrow> id \<Rightarrow> rail \<Rightarrow> id option \<Rightarrow> string option \<Rightarrow> string option \<Rightarrow> trade dbtx" where
  "reserveExternalTrade env now fresh l buyerId rail agent ref feeWallet =
    (let fi = calculateTradeFinancials (l_price l) in
     andthen (genericListingFundingGuard (l_id l) buyerId)
    (bnd (asks (\<lambda>s. originalReviewedTaskListing s (l_id l))) (\<lambda>task.
     andthen (require (\<not> task) (TradeRaceError ''ORIGINAL_TASK_LISTING''))
    (bnd (asks (\<lambda>s. originalReviewedContractListing s (l_id l))) (\<lambda>contract.
     andthen (require (\<not> contract) (TradeRaceError ''ORIGINAL_CONTRACT_LISTING''))
    (andthen (onlyif (truthy agent)
        (bnd (enforceAgentSpendPolicy (te_deployment env) (the agent) buyerId (fi_total_cost fi)
           (trade_context (l_seller_id l) rail (fi_total_cost fi) None) now) (\<lambda>_. ret ())))
    (bnd (asks (\<lambda>s. originalPrivateServiceListing s (l_id l))) (\<lambda>private'.
     bnd (update_where listings listings_update (\<lambda>r. l_id r = l_id l \<and> l_status r = L_active \<and> \<not> private')
        (\<lambda>r. r\<lparr>l_status := L_sold\<rparr>)) (\<lambda>claimed.
     andthen (require (claimed \<noteq> []) (TradeRaceError ''LISTING_ALREADY_CLAIMED''))
    (andthen (requireSellerPaymentRail (l_seller_id l) rail)
    (bnd (insert_trade ((new_trade now fresh l buyerId fi rail ref)
        \<lparr>t_dev_wallet := feeWallet, t_payment_due_at := Some (now + 30 * 60000),
         t_auto_confirm_at := Some (now + (30 * 60 + 259200) * 1000)\<rparr>)) (\<lambda>t.
     andthen (attributeOrganizationTrade agent t (to_minor (fi_total_cost fi)) now) (ret t)))))))))))))"

section \<open>Outside payments\<close>

definition isExternallyFundedTrade :: "trade \<Rightarrow> bool" where
  "isExternallyFundedTrade t \<longleftrightarrow> t_payment_rail t = Mpp \<or> t_payment_rail t = Evm \<or> truthy (t_fee_tx_hash t)"

definition paymentDeadlinePassed :: "millis \<Rightarrow> trade \<Rightarrow> bool" where
  "paymentDeadlinePassed now t = (case t_payment_due_at t of None \<Rightarrow> False | Some d \<Rightarrow> d \<le> now)"

definition move_trade :: "id \<Rightarrow> trade_status \<Rightarrow> (trade \<Rightarrow> trade) \<Rightarrow> trade list dbtx" where
  "move_trade i from' f = update_where trades trades_update (\<lambda>t. t_id t = i \<and> t_status t = from') f"

text \<open>The listing of a cancelled trade is offered again, unless it belonged to a reviewed original.\<close>

definition reopenListing :: "trade_env \<Rightarrow> trade \<Rightarrow> unit dbtx" where
  "reopenListing env t =
     bnd (select_one service_orders (\<lambda>o'. so_trade_id o' = t_id t)) (\<lambda>order. onlyif (order = None)
      (bnd (asks (\<lambda>s. te_original env s (t_id t))) (\<lambda>original.
       bnd (update_where listings listings_update (\<lambda>l. l_id l = t_listing_id t \<and> l_status l = L_sold)
          (\<lambda>l. l\<lparr>l_status := (if original then L_expired else L_active)\<rparr>)) (\<lambda>_. ret ()))))"

definition expireTradePayment :: "trade_env \<Rightarrow> millis \<Rightarrow> trade \<Rightarrow> trade option dbtx" where
  "expireTradePayment env now t =
     bnd (move_trade (t_id t) T_pending (\<lambda>r. r\<lparr>t_status := T_cancelled\<rparr>)) (\<lambda>rows. case rows of
       [] \<Rightarrow> ret None
     | r # _ \<Rightarrow> andthen (advanceServiceOrder now (t_id t) O_cancelled) (andthen (reopenListing env t) (ret (Some r))))"

definition paymentReceiptValues :: "external_funding \<Rightarrow> payment_receipt" where
  "paymentReceiptValues p =
     \<lparr>pr_route = ''POST /api/trades/'' @ t_id (ef_trade p) @ ''/fund/'' @ (if ef_rail p = Mpp then ''mpp'' else ''evm''),
      pr_trade_id = Some (t_id (ef_trade p)), pr_payment_rail = Some (ef_rail p), pr_amount = t_total_cost (ef_trade p),
      pr_currency = map lower_char (ef_token_address p), pr_tx_hash = ef_tx_hash p,
      pr_payer_address = Some (map lower_char (ef_payer_address p)),
      pr_token_address = Some (map lower_char (ef_token_address p)), pr_chain_id = Some (ef_chain_id p),
      pr_token_symbol = Some (ef_token_symbol p), pr_token_decimals = Some (ef_token_decimals p),
      pr_token_amount = Some (ef_token_amount p), pr_token_usd_price = Some (ef_token_usd_price p),
      pr_usd_value_at_payment = Some (ef_usd_value p), pr_external_id = Some (ef_external_id p)\<rparr>"

definition insertReceipt :: "external_funding \<Rightarrow> unit dbtx" where
  "insertReceipt p = (let r = paymentReceiptValues p in
     insert_row payment_receipts payment_receipts_update
       (\<lambda>q. clashes (pr_tx_hash q) (pr_tx_hash r) \<or> clashes (pr_trade_id q) (pr_trade_id r)
          \<or> pr_payment_rail q = pr_payment_rail r \<and> clashes (pr_external_id q) (pr_external_id r))
       (SqlError ''UNIQUE payment_receipts'') r)"

text \<open>
  A payment whose trade may no longer be funded cancels the trade and is kept for
  the refund: the answer names the reason.
\<close>

definition rejectFunding :: "trade_env \<Rightarrow> millis \<Rightarrow> external_funding \<Rightarrow> trade \<Rightarrow> string \<Rightarrow> (trade \<times> string option) dbtx" where
  "rejectFunding env now p current reason =
     bnd (move_trade (t_id current) T_pending (\<lambda>r. r\<lparr>t_status := T_cancelled, t_payout_status := Payout_processing,
        t_fee_tx_hash := ef_tx_hash p, t_funded_at := Some now\<rparr>)) (\<lambda>rows.
     bnd (first_or (TradeFundingError ''TRADE_FUNDING_RACE'' 409) rows) (\<lambda>cancelled.
     andthen (advanceServiceOrder now (t_id current) O_cancelled)
    (andthen (reopenListing env current)
    (andthen (insertReceipt p)
    (andthen (te_recorded env (t_id current) False)
       (ret (cancelled, Some reason)))))))"

definition acceptFunding :: "trade_env \<Rightarrow> millis \<Rightarrow> id \<Rightarrow> external_funding \<Rightarrow> trade \<Rightarrow> (trade \<times> string option) dbtx" where
  "acceptFunding env now fresh p current =
     bnd (move_trade (t_id (ef_trade p)) T_pending (\<lambda>r. r\<lparr>t_status := T_escrow_held, t_payout_status := Payout_pending,
        t_fee_tx_hash := ef_tx_hash p, t_funded_at := Some now, t_auto_confirm_at := Some (now + AUTO_CONFIRM_MS)\<rparr>)) (\<lambda>rows.
     bnd (first_or (TradeFundingError ''TRADE_FUNDING_RACE'' 409) rows) (\<lambda>funded.
     andthen (advanceServiceOrder now (t_id (ef_trade p)) O_funded)
    (andthen (insertReceipt p)
    (andthen (te_recorded env (t_id current) True)
    (bnd (queueFundedWorkOrder now fresh (t_id (ef_trade p)) (t_seller_id (ef_trade p))) (\<lambda>_.
       ret (funded, None)))))))"

definition fundingCommit :: "trade_env \<Rightarrow> millis \<Rightarrow> id \<Rightarrow> external_funding \<Rightarrow> (trade \<times> string option) dbtx" where
  "fundingCommit env now fresh p =
     bnd (select_one trades (\<lambda>t. t_id t = t_id (ef_trade p))) (\<lambda>row.
     bnd (some_or (TradeFundingError ''TRADE_FUNDING_RACE'' 409) row) (\<lambda>current.
     andthen (require (t_status current = T_pending) (TradeFundingError ''TRADE_FUNDING_RACE'' 409))
    (bnd (if paymentDeadlinePassed now current then ret (Some ''CHECKOUT_EXPIRED'') else asks (te_ineligible env p current))
      (\<lambda>reason. case reason of
         Some r \<Rightarrow> rejectFunding env now p current r
       | None \<Rightarrow> acceptFunding env now fresh p current))))"

text \<open>The funding as its caller sees it: the trade or an error, and the committed state.\<close>

definition recordExternalTradeFunding :: "trade_env \<Rightarrow> millis \<Rightarrow> id \<Rightarrow> external_funding \<Rightarrow> db \<Rightarrow> (app_error + trade) \<times> db" where
  "recordExternalTradeFunding env now fresh p s =
    (let t = ef_trade p in
     if t_status t \<noteq> T_pending then
       (if t_status t = T_escrow_held then (Inr t, s) else (Inl (TradeFundingError ''TRADE_NOT_AWAITING_PAYMENT'' 409), s))
     else if paymentDeadlinePassed now t then
       (case transaction (expireTradePayment env now t) s of
          (Inl e, s') \<Rightarrow> (Inl e, s')
        | (Inr _, s') \<Rightarrow> (Inl (TradeFundingError ''CHECKOUT_EXPIRED'' 410), s'))
     else (case transaction (fundingCommit env now fresh p) s of
          (Inr (r, None), s') \<Rightarrow> (Inr r, s')
        | (Inr (_, Some reason), s') \<Rightarrow> (Inl (TradeFundingError
             (if reason = ''CHECKOUT_EXPIRED'' then ''CHECKOUT_EXPIRED'' else ''PROVIDER_ELIGIBILITY_CHANGED'') 409), s')
        | (Inl e, s') \<Rightarrow>
            (if e = TradeFundingError ''TRADE_FUNDING_RACE'' 409 then
               (if (case find (\<lambda>r. t_id r = t_id t) (trades s') of None \<Rightarrow> False | Some r \<Rightarrow> t_status r = T_cancelled)
                then (Inl (TradeFundingError ''TRADE_NOT_AWAITING_PAYMENT'' 409), s') else (Inl e, s'))
             else if e = SqlError ''UNIQUE payment_receipts'' then (Inl (TradeFundingError ''PAYMENT_PROOF_REUSED'' 409), s')
             else (Inl e, s'))))"

text \<open>A payment for a trade that was cancelled before: recorded once, for the refund.\<close>

definition replayCancelled :: "external_funding \<Rightarrow> db \<Rightarrow> app_error + trade option" where
  "replayCancelled p s = (case find (\<lambda>r. pr_trade_id r = Some (t_id (ef_trade p))) (payment_receipts s) of
     None \<Rightarrow> Inr None
   | Some r \<Rightarrow>
       if \<not> (pr_payment_rail r = Some (ef_rail p) \<and> pr_external_id r = Some (ef_external_id p)
            \<and> (if truthy (pr_tx_hash r) then pr_tx_hash r else None) = ef_tx_hash p)
       then Inl (TradeFundingError ''PAYMENT_PROOF_REUSED'' 409)
       else (case find (\<lambda>t. t_id t = t_id (ef_trade p)) (trades s) of
           None \<Rightarrow> Inl (TradeFundingError ''TRADE_NOT_CANCELLED'' 409)
         | Some t \<Rightarrow> if t_status t = T_cancelled then Inr (Some t) else Inl (TradeFundingError ''TRADE_NOT_CANCELLED'' 409)))"

definition cancelledFunding :: "trade_env \<Rightarrow> millis \<Rightarrow> external_funding \<Rightarrow> trade dbtx" where
  "cancelledFunding env now p =
     bnd (move_trade (t_id (ef_trade p)) T_cancelled (\<lambda>r. r\<lparr>t_payout_status := Payout_processing,
        t_fee_tx_hash := ef_tx_hash p, t_funded_at := Some now\<rparr>)) (\<lambda>rows.
     bnd (first_or (TradeFundingError ''TRADE_NOT_CANCELLED'' 409) rows) (\<lambda>r.
     andthen (insertReceipt p) (andthen (te_recorded env (t_id (ef_trade p)) False) (ret r))))"

definition recordCancelledExternalFunding :: "trade_env \<Rightarrow> millis \<Rightarrow> external_funding \<Rightarrow> db \<Rightarrow> (app_error + trade) \<times> db" where
  "recordCancelledExternalFunding env now p s =
    (case replayCancelled p s of
       Inl e \<Rightarrow> (Inl e, s)
     | Inr (Some t) \<Rightarrow> (Inr t, s)
     | Inr None \<Rightarrow> (case transaction (cancelledFunding env now p) s of
         (Inr r, s') \<Rightarrow> (Inr r, s')
       | (Inl e, s') \<Rightarrow>
           if e = SqlError ''UNIQUE payment_receipts'' then
             (case replayCancelled p s' of Inl e' \<Rightarrow> (Inl e', s') | Inr (Some t) \<Rightarrow> (Inr t, s')
                | Inr None \<Rightarrow> (Inl (TradeFundingError ''PAYMENT_PROOF_REUSED'' 409), s'))
           else (Inl e, s')))"

section \<open>Acceptance\<close>

datatype release_reason = Buyer_confirm | Auto_confirm | Seller_payout

text \<open>
  The checks that the acceptance contract requires of the delivery: a failure, no
  contract at all, or whether the buyer's review has passed and whether the
  decision must name the exact content.
\<close>

definition delivery_of :: "db \<Rightarrow> id \<Rightarrow> trade_delivery option" where
  "delivery_of s tradeId = find (\<lambda>d. td_trade_id d = tradeId) (trade_deliveries s)"

definition passed_check :: "db \<Rightarrow> id \<Rightarrow> trade_delivery \<Rightarrow> string \<Rightarrow> bool" where
  "passed_check s tradeId d method \<longleftrightarrow> list_ex (\<lambda>r. vr_trade_id r = tradeId \<and> vr_delivery_id r = Some (td_id d)
     \<and> vr_content_hash r = td_content_hash d \<and> vr_method r = method \<and> vr_status r = V_passed) (verification_results s)"

definition requiredChecks :: "trade_env \<Rightarrow> db \<Rightarrow> id \<Rightarrow> app_error + (bool \<times> bool) option" where
  "requiredChecks env s tradeId = (case te_agreed env s tradeId of
     Inl e \<Rightarrow> Inl e
   | Inr None \<Rightarrow> Inr None
   | Inr (Some a) \<Rightarrow> (case delivery_of s tradeId of
       None \<Rightarrow> Inl (AcceptanceError ''REQUIRED_VERIFICATION_MISSING'')
     | Some d \<Rightarrow>
         (let passed = passed_check s tradeId d in
          if \<not> list_all (\<lambda>m. m = ''buyer_review'' \<or> passed m) (ac_methods a)
             \<or> ac_json a \<and> \<not> passed ''structure''
             \<or> list_ex (\<lambda>p. pa_delivery_id p = Some (td_id d)) (private_artifacts s) \<and> \<not> passed ''artifact_integrity''
          then Inl (AcceptanceError ''REQUIRED_VERIFICATION_MISSING'')
          else Inr (Some (passed ''buyer_review'', ac_exact_hash a)))))"

definition assertReadyForBuyerAcceptance :: "trade_env \<Rightarrow> id \<Rightarrow> string option \<Rightarrow> unit dbtx" where
  "assertReadyForBuyerAcceptance env tradeId expectedHash =
     bnd (asks (\<lambda>s. requiredChecks env s tradeId)) (\<lambda>r. bnd (lift_result r) (\<lambda>checks.
     andthen (require (\<not> ((case checks of None \<Rightarrow> False | Some (_, exact) \<Rightarrow> exact) \<and> expectedHash = None))
        (AcceptanceError ''EXPLICIT_ACCEPTANCE_REQUIRED''))
       (case expectedHash of None \<Rightarrow> ret ()
        | Some h \<Rightarrow> bnd (asks (\<lambda>s. delivery_of s tradeId)) (\<lambda>d.
            require (case d of None \<Rightarrow> False | Some d \<Rightarrow> td_content_hash d = h) (AcceptanceError ''DELIVERY_CHANGED'')))))"

definition assertTradeReleaseAllowed :: "trade_env \<Rightarrow> id \<Rightarrow> release_reason \<Rightarrow> unit dbtx" where
  "assertTradeReleaseAllowed env tradeId reason =
     bnd (asks (\<lambda>s. requiredChecks env s tradeId)) (\<lambda>r. bnd (lift_result r) (\<lambda>checks.
       require (\<not> (case checks of None \<Rightarrow> False | Some (reviewed, _) \<Rightarrow> reason = Auto_confirm \<or> \<not> reviewed))
         (AcceptanceError ''EXPLICIT_ACCEPTANCE_REQUIRED'')))"

definition tradeAcceptanceStatus :: "trade_env \<Rightarrow> db \<Rightarrow> id \<Rightarrow> app_error + bool \<times> bool \<times> bool" where
  "tradeAcceptanceStatus env s tradeId = (case te_agreed env s tradeId of
     Inl e \<Rightarrow> Inl e
   | Inr None \<Rightarrow> Inr (True, list_ex (\<lambda>r. vr_trade_id r = tradeId \<and> vr_method r = ''buyer_review'' \<and> vr_status r = V_passed
        \<and> list_ex (\<lambda>d. Some (td_id d) = vr_delivery_id r \<and> td_content_hash d = vr_content_hash r) (trade_deliveries s))
        (verification_results s), False)
   | Inr (Some _) \<Rightarrow> (case requiredChecks env s tradeId of
       Inl (AcceptanceError c) \<Rightarrow> Inr (False, False, True)
     | Inl e \<Rightarrow> Inl e
     | Inr checks \<Rightarrow> (let accepted = (case checks of None \<Rightarrow> False | Some (b, _) \<Rightarrow> b) in Inr (False, accepted, \<not> accepted))))"

definition advanceBuyerReview :: "trade_env \<Rightarrow> id \<Rightarrow> verification_status \<Rightarrow> string option \<Rightarrow> bool dbtx" where
  "advanceBuyerReview env tradeId status expectedHash =
     andthen (onlyif (status = V_passed) (assertReadyForBuyerAcceptance env tradeId expectedHash))
    (bnd (update_where verification_results verification_results_update
        (\<lambda>r. vr_trade_id r = tradeId \<and> vr_delivery_id r \<noteq> None \<and> vr_method r = ''buyer_review'' \<and> vr_status r = V_pending)
        (\<lambda>r. r\<lparr>vr_status := status\<rparr>)) (\<lambda>changed. ret (changed \<noteq> [])))"

section \<open>Delivery\<close>

text \<open>
  The evidence of a check: a row that an earlier rejected delivery of the same
  content left behind without a delivery is taken over when it passed; any other
  row of the same key stays.
\<close>

definition store_evidence :: "verification_result \<Rightarrow> unit dbtx" where
  "store_evidence r = bnd (asks (\<lambda>s. list_ex (\<lambda>q. vr_trade_id q = vr_trade_id r \<and> vr_content_hash q = vr_content_hash r
       \<and> vr_method q = vr_method r) (verification_results s))) (\<lambda>known.
     if known then
       bnd (update_where verification_results verification_results_update
          (\<lambda>q. vr_trade_id q = vr_trade_id r \<and> vr_content_hash q = vr_content_hash r \<and> vr_method q = vr_method r
             \<and> vr_delivery_id q = None \<and> vr_status q = V_passed \<and> vr_status r = V_passed)
          (\<lambda>q. q\<lparr>vr_delivery_id := vr_delivery_id r\<rparr>)) (\<lambda>_. ret ())
     else append_row verification_results verification_results_update r)"

text \<open>
  The transaction of a delivery that has passed its checks: \<open>outcomes\<close> are the
  methods with their results, \<open>attempt\<close> the order and attempt of a delivery under
  lease, and \<open>explicit\<close> says that only the buyer's own acceptance releases.
\<close>

definition storeDelivery ::
  "millis \<Rightarrow> id \<Rightarrow> id \<Rightarrow> string \<Rightarrow> (string \<times> verification_status) list \<Rightarrow> (id \<times> id) option \<Rightarrow> bool \<Rightarrow> id list \<Rightarrow> trade dbtx" where
  "storeDelivery now fresh tradeId contentHash outcomes attempt explicit files =
     andthen (case attempt of None \<Rightarrow> ret () | Some (orderId, attemptId) \<Rightarrow> deliverAttempt now orderId attemptId)
    (bnd (move_trade tradeId T_escrow_held (\<lambda>t. t\<lparr>t_status := T_pending_release,
        t_auto_confirm_at := (if explicit then None else Some (now + 86400000))\<rparr>)) (\<lambda>rows.
     bnd (first_or (DeliveryError ''Trade is not awaiting delivery'' 409) rows) (\<lambda>updated.
     andthen (advanceServiceOrder now tradeId O_verifying)
    (andthen (insert_row trade_deliveries trade_deliveries_update (\<lambda>d. td_id d = fresh \<or> td_trade_id d = tradeId)
        (SqlError ''UNIQUE trade_deliveries'') \<lparr>td_id = fresh, td_trade_id = tradeId, td_content_hash = contentHash\<rparr>)
    (andthen (foreach files (\<lambda>i. bnd (update_where private_artifacts private_artifacts_update (\<lambda>p. pa_id p = i)
        (\<lambda>p. p\<lparr>pa_delivery_id := Some fresh\<rparr>)) (\<lambda>_. ret ())))
    (andthen (foreach outcomes (\<lambda>(m, st). store_evidence \<lparr>vr_trade_id = tradeId, vr_delivery_id = Some fresh,
        vr_content_hash = contentHash, vr_method = m, vr_status = st\<rparr>))
       (ret updated)))))))"

section \<open>Completion\<close>

definition ensure_wallet :: "id \<Rightarrow> unit dbtx" where
  "ensure_wallet userId = insert_ignore wallets wallets_update (\<lambda>w. w_user_id w = userId)
     \<lparr>w_user_id = userId, w_balance = 0, w_escrow = 0\<rparr>"

definition closeEscrowSession :: "millis \<Rightarrow> id option \<Rightarrow> unit dbtx" where
  "closeEscrowSession now sessionId =
     bnd (update_where mpp_sessions mpp_sessions_update
        (\<lambda>m. Some (ms_session_id m) = (if truthy sessionId then sessionId else Some []) \<and> ms_status m = Session_active)
        (\<lambda>m. m\<lparr>ms_status := Session_closed, ms_closed_at := Some (to_seconds now)\<rparr>)) (\<lambda>_. ret ())"

text \<open>Releasing the historical account-balance escrow of a trade.\<close>

definition releaseLedger :: "trade \<Rightarrow> unit dbtx" where
  "releaseLedger t =
     andthen (ensure_wallet (t_seller_id t))
    (bnd (update_where wallets wallets_update (\<lambda>w. w_user_id w = t_buyer_id t \<and> t_amount t \<le> w_escrow w)
        (\<lambda>w. w\<lparr>w_escrow := max 0 (jsub (w_escrow w) (t_amount t))\<rparr>)) (\<lambda>released.
     andthen (require (released \<noteq> []) (PlainError ''ESCROW_BALANCE_MISMATCH''))
       (payWallet (t_seller_id t) (t_amount t))))"

definition finalizeTradeCompletion :: "trade_env \<Rightarrow> millis \<Rightarrow> trade \<Rightarrow> release_reason \<Rightarrow> trade dbtx" where
  "finalizeTradeCompletion env now t reason =
     andthen (assertTradeReleaseAllowed env (t_id t) reason)
    (bnd (move_trade (t_id t) T_pending_release (\<lambda>r. r\<lparr>t_status := T_completed, t_completed_at := Some (to_seconds now),
        t_payout_status := Payout_complete, t_rating_window_expires_at := Some (now + 72 * 60 * 60 * 1000)\<rparr>)) (\<lambda>rows.
     bnd (first_or (PlainError ''TRADE_NOT_PENDING_RELEASE'') rows) (\<lambda>updated.
     andthen (advanceServiceOrder now (t_id t) O_completed)
    (andthen (onlyif (reason = Auto_confirm) (bnd (advanceBuyerReview env (t_id t) V_skipped None) (\<lambda>_. ret ())))
    (bnd (select_one task_workspaces (\<lambda>w. tw_trade_id w = Some (t_id t))) (\<lambda>workspace.
     andthen (case workspace of None \<Rightarrow> ret () | Some w \<Rightarrow>
        bnd (update_where tasks tasks_update (\<lambda>k. tk_id k = tw_task_id w \<and> tk_status k = ''assigned'')
          (\<lambda>k. k\<lparr>tk_status := ''completed''\<rparr>)) (\<lambda>_. ret ()))
    (andthen (onlyif (t_payment_rail t = Credit)
        (settleCredit (to_seconds now) (t_id t) (t_buyer_id t) (t_seller_id t) (t_amount t) 0))
    (andthen (onlyif (\<not> isExternallyFundedTrade t \<and> t_payment_rail t \<noteq> Credit) (releaseLedger t))
    (andthen (te_performed env t)
    (andthen (journal_row (Some (t_buyer_id t)) (Some (t_seller_id t)) (t_amount t) Escrow_release (t_id t))
    (andthen (closeEscrowSession now (t_escrow_session_id t))
       (ret updated))))))))))))"

section \<open>Disputes\<close>

text \<open>A dispute is refused once a payout has started; \<open>None\<close> is the answer 409.\<close>

definition openTradeDispute :: "trade_env \<Rightarrow> millis \<Rightarrow> trade \<Rightarrow> trade option dbtx" where
  "openTradeDispute env now t =
     bnd (update_where trades trades_update
        (\<lambda>r. t_id r = t_id t \<and> t_status r = t_status t \<and> t_payout_status r \<noteq> Payout_processing)
        (\<lambda>r. r\<lparr>t_status := T_disputed\<rparr>)) (\<lambda>rows. case rows of
       [] \<Rightarrow> ret None
     | claimed # _ \<Rightarrow> andthen (advanceServiceOrder now (t_id t) O_disputed)
         (andthen (bnd (advanceBuyerReview env (t_id t) V_disputed None) (\<lambda>_. ret ())) (ret (Some claimed))))"

definition postTradeDispute :: "trade_env \<Rightarrow> millis \<Rightarrow> id \<Rightarrow> id \<Rightarrow> db \<Rightarrow> nat \<times> db" where
  "postTradeDispute env now userId tradeId s =
    (case find (\<lambda>t. t_id t = tradeId) (trades s) of None \<Rightarrow> (404, s) | Some t \<Rightarrow>
     if t_buyer_id t \<noteq> userId \<and> t_seller_id t \<noteq> userId then (403, s)
     else if t_status t \<noteq> T_pending_release \<and> t_status t \<noteq> T_escrow_held then (400, s)
     else (case transaction (openTradeDispute env now t) s of
         (Inl e, s') \<Rightarrow> (500, s') | (Inr None, s') \<Rightarrow> (409, s') | (Inr (Some _), s') \<Rightarrow> (200, s')))"

definition trade_seller_share :: "num \<Rightarrow> num \<Rightarrow> num" where
  "trade_seller_share amount percent = of_minor (jround (jmul (jmul amount (jdiv percent 100)) 100))"

definition trade_buyer_share :: "num \<Rightarrow> num \<Rightarrow> num" where
  "trade_buyer_share amount percent = round2 (jsub amount (trade_seller_share amount percent))"

definition takeLedgerEscrow :: "trade \<Rightarrow> unit dbtx" where
  "takeLedgerEscrow t =
     andthen (ensure_wallet (t_buyer_id t))
    (andthen (ensure_wallet (t_seller_id t))
    (bnd (update_where wallets wallets_update (\<lambda>w. w_user_id w = t_buyer_id t \<and> t_amount t \<le> w_escrow w)
        (\<lambda>w. w\<lparr>w_escrow := jsub (w_escrow w) (t_amount t)\<rparr>)) (\<lambda>released.
       require (released \<noteq> []) (PlainError ''ESCROW_BALANCE_MISMATCH''))))"

definition payShare :: "bool \<Rightarrow> trade \<Rightarrow> id option \<Rightarrow> id \<Rightarrow> num \<Rightarrow> transaction_type \<Rightarrow> unit dbtx" where
  "payShare ledger t from' to share type = onlyif (0 < share)
     (andthen (onlyif ledger (payWallet to share)) (journal_row from' (Some to) share type (t_id t)))"

definition finalizeTradeDispute ::
  "trade_env \<Rightarrow> millis \<Rightarrow> trade \<Rightarrow> resolution \<Rightarrow> num \<Rightarrow> bool \<Rightarrow> (trade \<times> num \<times> num) option dbtx" where
  "finalizeTradeDispute env now t resolution splitPercent decided =
    (let sellerShare = trade_seller_share (t_amount t) splitPercent; buyerShare = trade_buyer_share (t_amount t) splitPercent;
         ledger = (\<not> isExternallyFundedTrade t \<and> t_payment_rail t \<noteq> Credit) in
     bnd (move_trade (t_id t) T_disputed (\<lambda>r. r\<lparr>t_status := T_resolved, t_resolution := Some resolution,
        t_resolution_seller_percent := Some splitPercent, t_payout_status := Payout_complete,
        t_completed_at := Some (to_seconds now)\<rparr>)) (\<lambda>rows. case rows of
       [] \<Rightarrow> ret None
     | claimed # _ \<Rightarrow>
         andthen (onlyif decided (te_decided env (t_id t)))
        (andthen (advanceServiceOrder now (t_id t) O_resolved)
        (andthen (onlyif (t_payment_rail t = Credit)
            (settleCredit (to_seconds now) (t_id t) (t_buyer_id t) (t_seller_id t) (t_amount t) (to_minor buyerShare)))
        (andthen (onlyif ledger (takeLedgerEscrow t))
        (andthen (payShare ledger t None (t_buyer_id t) buyerShare Escrow_refund)
        (andthen (payShare ledger t (Some (t_buyer_id t)) (t_seller_id t) sellerShare Escrow_release)
        (andthen (closeEscrowSession now (t_escrow_session_id t))
           (ret (Some (claimed, buyerShare, sellerShare)))))))))))"

text \<open>The resolution of a dispute whose money the marketplace holds itself.\<close>

definition split_percent :: "resolution \<Rightarrow> num option \<Rightarrow> num" where
  "split_percent resolution given = (case resolution of
     To_split \<Rightarrow> (case given of None \<Rightarrow> 50 | Some p \<Rightarrow> p) | To_seller \<Rightarrow> 100 | To_buyer \<Rightarrow> 0)"

definition resolveHeldTrade :: "trade_env \<Rightarrow> millis \<Rightarrow> id \<Rightarrow> resolution \<Rightarrow> num option \<Rightarrow> bool \<Rightarrow> db \<Rightarrow> nat \<times> db" where
  "resolveHeldTrade env now tradeId resolution given decided s =
    (let percent = split_percent resolution given in
     if percent < 0 \<or> 100 < percent then (400, s) else
     case find (\<lambda>t. t_id t = tradeId) (trades s) of None \<Rightarrow> (404, s) | Some t \<Rightarrow>
     if t_status t \<noteq> T_disputed then (400, s)
     else (case transaction (finalizeTradeDispute env now t resolution percent decided) s of
         (Inl e, s') \<Rightarrow> (500, s') | (Inr None, s') \<Rightarrow> (409, s') | (Inr (Some _), s') \<Rightarrow> (200, s')))"

end
