(* ===== verification/TradeSafety.thy ===== *)
theory TradeSafety
  imports Trades
begin

text \<open>
  What the trade operations of \<open>Trades\<close> guarantee: a trade keeps its parties, price and
  rail and its status makes a run of the trade machine; the credit held for a trade
  is its price exactly while its money is in escrow; the settlement pays out once.
\<close>

section \<open>The trade machine\<close>

definition trade_moves :: "trade_status \<Rightarrow> trade_status list" where
  "trade_moves st = (case st of
     T_pending \<Rightarrow> [T_escrow_held, T_cancelled]
   | T_escrow_held \<Rightarrow> [T_pending_release, T_disputed]
   | T_pending_release \<Rightarrow> [T_completed, T_disputed]
   | T_disputed \<Rightarrow> [T_resolved]
   | _ \<Rightarrow> [])"

definition trade_move :: "trade_status \<Rightarrow> trade_status \<Rightarrow> bool" where
  "trade_move p q \<longleftrightarrow> q \<in> set (trade_moves p)"

definition trade_final :: "trade_status \<Rightarrow> bool" where
  "trade_final st \<longleftrightarrow> st \<in> {T_completed, T_complete, T_resolved, T_cancelled}"

definition trade_phase :: "trade_status \<Rightarrow> nat" where
  "trade_phase st = (case st of T_pending \<Rightarrow> 0 | T_escrow_held \<Rightarrow> 1 | T_pending_release \<Rightarrow> 2 | T_disputed \<Rightarrow> 3 | _ \<Rightarrow> 4)"

lemmas trade_machine_defs = trade_move_def trade_moves_def trade_final_def trade_phase_def

interpretation tm: machine trade_move trade_final trade_phase
proof unfold_locales
  fix p q show "trade_final p \<Longrightarrow> \<not> trade_move p q"
    by (cases p) (auto simp: trade_machine_defs)
  show "\<not> trade_final p \<Longrightarrow> \<exists>q. trade_move p q"
    by (cases p) (auto simp: trade_machine_defs)
  show "trade_move p q \<Longrightarrow> trade_phase p \<le> trade_phase q"
    by (cases p) (auto simp: trade_machine_defs)
  have steps: "trade_move T_pending T_cancelled" "trade_move T_escrow_held T_disputed"
    "trade_move T_pending_release T_disputed" "trade_move T_disputed T_resolved" by (simp_all add: trade_machine_defs)
  then have "trade_move\<^sup>*\<^sup>* T_escrow_held T_resolved" "trade_move\<^sup>*\<^sup>* T_pending_release T_resolved"
    by (meson converse_rtranclp_into_rtranclp r_into_rtranclp)+
  with steps show "\<exists>q. trade_move\<^sup>*\<^sup>* p q \<and> trade_final q"
    by (cases p) (auto simp: trade_final_def intro: r_into_rtranclp)
qed

text \<open>The terms of a trade that no operation changes.\<close>

definition terms :: "trade \<Rightarrow> id \<times> id \<times> id \<times> id \<times> num \<times> rail" where
  "terms t = (t_id t, t_listing_id t, t_buyer_id t, t_seller_id t, t_amount t, t_payment_rail t)"

definition trade_at :: "db \<Rightarrow> id \<Rightarrow> trade option" where
  "trade_at s i = find (\<lambda>t. t_id t = i) (trades s)"

definition trades_run :: "db \<Rightarrow> db \<Rightarrow> bool" where
  "trades_run s s' \<longleftrightarrow> (\<forall>i t. trade_at s i = Some t \<longrightarrow> (\<exists>t'. trade_at s' i = Some t'
     \<and> terms t' = terms t \<and> trade_move\<^sup>*\<^sup>* (t_status t) (t_status t')))"

interpretation tr: preorder_tx trades_run
proof unfold_locales
  show "trades_run s s" for s by (simp add: trades_run_def)
  show "trades_run s t \<Longrightarrow> trades_run t u \<Longrightarrow> trades_run s u" for s t u
    unfolding trades_run_def by (metis rtranclp_trans)
qed

lemma trades_run_same: "trades s' = trades s \<Longrightarrow> trades_run s s'"
  by (simp add: trades_run_def trade_at_def)

lemmas trades_frame = tr.unchanged [where v = trades, OF _ trades_run_same]

lemma trades_update:
  assumes "\<And>t. terms (f t) = terms t"
    and "\<And>t. p t \<Longrightarrow> trade_move (t_status t) (t_status (f t)) \<or> t_status (f t) = t_status t"
  shows "along trades_run (update_where trades trades_update p f)"
proof -
  have key: "t_id (f t) = t_id t" for t using assms(1) [of t] by (simp add: terms_def)
  have step: "trade_move\<^sup>*\<^sup>* (t_status t) (t_status (f t))" if "p t" for t using assms(2) [OF that] by auto
  have "trade_at (trades_update (\<lambda>_. set_rows p f (trades s)) s) i = map_option (\<lambda>t. if p t then f t else t) (trade_at s i)" for s i
    by (simp add: trade_at_def find_set_rows key)
  then show ?thesis using assms(1) step by (auto simp: along_def trades_run_def)
qed

lemma move_run:
  assumes "\<And>t. terms (f t) = terms t" and "\<And>t. t_status t = st \<Longrightarrow> trade_move st (t_status (f t)) \<or> t_status (f t) = st"
  shows "along trades_run (move_trade i st f)"
  unfolding move_trade_def using assms by (intro trades_update) auto

lemma insert_run: "along trades_run (insert_trade t)"
  unfolding insert_trade_def
  by (intro tr.intros) (auto simp: along_def trades_run_def trade_at_def find_append)

section \<open>What the other tables' operations leave alone\<close>

definition ledger :: "db \<Rightarrow> trade list \<times> credit_account list \<times> credit_entry list" where
  "ledger s = (trades s, credit_accounts s, credit_entries s)"

lemma same_ledger_trades: "same ledger m \<Longrightarrow> same trades m"
  by (auto simp: same_def ledger_def)

lemma same_ledger_tables:
  "same ledger (update_where listings listings_update p1 f1)"
  "same ledger (update_where wallets wallets_update p2 f2)"
  "same ledger (insert_ignore wallets wallets_update c2 w)"
  "same ledger (update_where mpp_sessions mpp_sessions_update p3 f3)"
  "same ledger (insert_row mpp_sessions mpp_sessions_update c3 e3 m)"
  "same ledger (append_row transactions transactions_update x)"
  "same ledger (update_where verification_results verification_results_update p4 f4)"
  "same ledger (append_row verification_results verification_results_update v)"
  "same ledger (update_where private_artifacts private_artifacts_update p5 f5)"
  "same ledger (insert_row trade_deliveries trade_deliveries_update c6 e6 d)"
  "same ledger (insert_row payment_receipts payment_receipts_update c7 e7 r)"
  "same ledger (update_where tasks tasks_update p8 f8)"
  "same ledger (insert_row organization_trade_attributions organization_trade_attributions_update c9 e9 a)"
  "same ledger (update_where service_orders service_orders_update p10 f10)"
  "same ledger (update_where service_definitions service_definitions_update p11 f11)"
  "same ledger (update_where service_execution_attempts service_execution_attempts_update p12 f12)"
  "same ledger (insert_ignore service_execution_attempts service_execution_attempts_update c12 ea)"
  "same ledger (update_where route_plans route_plans_update p13 f13)"
  "same ledger (insert_ignore webhook_deliveries webhook_deliveries_update c14 wd)"
  by (rule same_update_where same_append_row same_insert_row same_insert_ignore; simp add: ledger_def)+

lemma same_whole: "same (\<lambda>s. s) m \<Longrightarrow> same v m"
  by (auto simp: same_def)

lemma same_releaseCapacity_ledger: "same ledger (releaseCapacity now tid st)"
  unfolding releaseCapacity_def by (rule sameI) (auto simp: run_simps ledger_def split: list.splits)

lemma same_advance: "same ledger (advanceServiceOrder now tid st)"
  unfolding advanceServiceOrder_def endAttempts_def close_attempts_def set_routes_def
  by (intro same_intros same_ledger_tables same_releaseCapacity_ledger)

lemma same_refuse': "same v (refuse f)"
  unfolding refuse_def by (intro same_intros)

lemma same_attributeTrade: "same ledger (attributeOrganizationTrade agent t n now)"
  unfolding attributeOrganizationTrade_def Let_def
  by (intro same_intros same_refuse' same_ledger_tables)

lemma same_notify_ledger: "same ledger (notify_subscriber tid o' a w)"
  unfolding notify_subscriber_def Let_def
  by (rule sameI) (auto simp: run_simps ledger_def split: if_splits option.splits)

lemma same_sum_each: "(\<And>x. same v (f x)) \<Longrightarrow> same v (sum_each xs f)"
  by (induction xs) (auto intro!: same_intros)

lemma same_dispatch: "same ledger (queueFundedWorkOrder now fresh tid sid)"
  unfolding queueFundedWorkOrder_def queueServiceExecutionAttempt_def
  by (auto split: prod.split intro!: same_intros same_sum_each same_notify_ledger same_ledger_tables)

lemma same_reopen: "same ledger (reopenListing env t)"
  unfolding reopenListing_def by (intro same_intros same_ledger_tables)

lemma same_receipt: "same ledger (insertReceipt p)"
  unfolding insertReceipt_def Let_def by (intro same_ledger_tables)

lemma same_acceptance: "same v (assertReadyForBuyerAcceptance env tid h)" "same v (assertTradeReleaseAllowed env tid reason)"
  unfolding assertReadyForBuyerAcceptance_def assertTradeReleaseAllowed_def by (intro same_intros)+

lemma same_review: "same ledger (advanceBuyerReview env tid st h)"
  unfolding advanceBuyerReview_def by (intro same_intros same_acceptance same_ledger_tables)

lemma same_deliverAttempt: "same ledger (deliverAttempt now oid i)"
  unfolding deliverAttempt_def by (intro same_intros same_ledger_tables)

lemma same_store_evidence: "same ledger (store_evidence r)"
  unfolding store_evidence_def by (intro same_intros same_ledger_tables)

lemma same_journal_row: "same ledger (journal_row a b n ty r)"
  unfolding journal_row_def by (intro same_ledger_tables)

lemma same_wallet_payment: "same ledger (payWallet u n)"
  unfolding payWallet_def by (intro same_intros same_ledger_tables)

lemma same_money_moves: "same ledger (releaseLedger t)" "same ledger (takeLedgerEscrow t)" "same ledger (payShare l t f u n ty)"
  "same ledger (closeEscrowSession now sid)" "same ledger (debitLedger b c a)" "same ledger (claim_listing i)"
  "same ledger (createEscrowSession fresh b c)"
  unfolding releaseLedger_def takeLedgerEscrow_def payShare_def closeEscrowSession_def ensure_wallet_def debitLedger_def
    claim_listing_def createEscrowSession_def
  by (intro same_intros same_wallet_payment same_journal_row same_ledger_tables)+

lemmas same_ledger = same_ledger_tables same_dispatch same_reopen same_receipt same_acceptance same_review same_deliverAttempt
  same_store_evidence same_journal_row same_wallet_payment same_money_moves same_advance same_attributeTrade

text \<open>The records kept beside a trade touch neither trades nor credit.\<close>

definition separate :: "trade_env \<Rightarrow> bool" where
  "separate env \<longleftrightarrow> (\<forall>i b. same ledger (te_recorded env i b)) \<and> (\<forall>t. same ledger (te_performed env t))
     \<and> (\<forall>i. same ledger (te_decided env i))"

lemma separateD: "separate env \<Longrightarrow> same ledger (te_recorded env i b)" "separate env \<Longrightarrow> same ledger (te_performed env t)"
  "separate env \<Longrightarrow> same ledger (te_decided env i)"
  by (auto simp: separate_def)

section \<open>The money of a trade\<close>

definition entries_of :: "db \<Rightarrow> string \<Rightarrow> credit_entry list" where
  "entries_of s r = filter (\<lambda>e. ce_reference e = r) (credit_entries s)"

lemma held_entries: "entries_of s' r = entries_of s r \<Longrightarrow> held s' u r = held s u r"
proof -
  have "held s u r = sum_rows (\<lambda>e. ce_user_id e = u) ce_escrow_delta (entries_of s r)" for s
    by (simp add: held_def entries_of_def sum_rows_def conj_commute)
  then show "entries_of s' r = entries_of s r \<Longrightarrow> held s' u r = held s u r" by simp
qed

lemma posted_entries: "entries_of s' r = entries_of s r \<Longrightarrow> posted s' u r k = posted s u r k"
proof -
  have "posted s u r k = map_option (\<lambda>e. (ce_available_delta e, ce_escrow_delta e))
      (find (\<lambda>e. ce_user_id e = u \<and> ce_kind e = k) (entries_of s r))" for s
    unfolding posted_def entries_of_def find_filter by (metis (mono_tags, lifting))
  then show "entries_of s' r = entries_of s r \<Longrightarrow> posted s' u r k = posted s u r k" by simp
qed

lemma entries_change: "r' \<noteq> r \<Longrightarrow> same (\<lambda>s. entries_of s r') (changeCredit now u r k a e)"
  by (rule sameI) (simp add: entries_of_def credit_entries_change)

lemma entries_settle: "r' \<noteq> tid \<Longrightarrow> same (\<lambda>s. entries_of s r') (settleCredit now tid b sl a back)"
  unfolding settleCredit_def Let_def by (intro same_intros entries_change) auto

lemma entries_reserve: "r' \<noteq> ref \<Longrightarrow> same (\<lambda>s. entries_of s r') (reserveCredit now ref b rc t sl fe)"
  unfolding reserveCredit_def by (intro same_intros entries_change) auto

definition in_escrow :: "trade_status \<Rightarrow> bool" where
  "in_escrow st \<longleftrightarrow> st \<in> {T_escrow_held, T_pending_release, T_disputed}"

definition trade_funds :: "db \<Rightarrow> trade \<Rightarrow> bool" where
  "trade_funds s t \<longleftrightarrow> t_status t \<notin> {T_pending, T_cancelled}
     \<and> held s (t_buyer_id t) (t_id t) = (if in_escrow (t_status t) then to_minor (t_amount t) else 0)
     \<and> (in_escrow (t_status t) \<longrightarrow> (\<exists>a. posted s (t_buyer_id t) (t_id t) ''purchase'' = Some (a, to_minor (t_amount t))))"

definition money :: "db \<Rightarrow> bool" where
  "money s \<longleftrightarrow> books s \<and> distinct (map t_id (trades s))
     \<and> (\<forall>t \<in> set (trades s). t_payment_rail t = Credit \<longrightarrow> trade_funds s t)"

lemma trade_funds_cong:
  assumes "terms t' = terms t" and "entries_of s' (t_id t) = entries_of s (t_id t)" and "in_escrow (t_status t') = in_escrow (t_status t)"
    and "t_status t' \<notin> {T_pending, T_cancelled}" and "trade_funds s t"
  shows "trade_funds s' t'"
  using assms held_entries [OF assms(2)] posted_entries [OF assms(2)] by (simp add: trade_funds_def terms_def)

lemma money_ledger: "ledger s' = ledger s \<Longrightarrow> money s' = money s"
proof -
  have "money s \<Longrightarrow> money s'" if eq: "ledger s' = ledger s" for s s'
  proof -
    have e: "entries_of s' r = entries_of s r" for r using eq by (simp add: entries_of_def ledger_def)
    assume "money s"
    then show "money s'"
      using eq books_cong [of s' s] trade_funds_cong [OF refl e refl]
      by (simp add: money_def ledger_def trade_funds_def)
  qed
  then show "ledger s' = ledger s \<Longrightarrow> money s' = money s" by metis
qed

lemma keeps_money_ledger: "same ledger m \<Longrightarrow> keeps money m"
  by (auto simp: keeps_def same_def dest: money_ledger)

lemma money_update:
  assumes "money s" and terms: "\<And>t. terms (f t) = terms t"
    and st: "\<And>t. t \<in> set (trades s) \<Longrightarrow> p t \<Longrightarrow> t_payment_rail t = Credit \<Longrightarrow> trade_funds s t \<Longrightarrow>
      t_status (f t) \<notin> {T_pending, T_cancelled} \<and> in_escrow (t_status (f t)) = in_escrow (t_status t)"
  shows "money (trades_update (\<lambda>_. set_rows p f (trades s)) s)"
proof -
  let ?s = "trades_update (\<lambda>_. set_rows p f (trades s)) s"
  have e: "entries_of ?s r = entries_of s r" for r by (simp add: entries_of_def)
  have key: "t_id (f t) = t_id t" for t using terms [of t] by (simp add: terms_def)
  have "trade_funds ?s t'" if "t' \<in> set (trades ?s)" "t_payment_rail t' = Credit" for t'
  proof -
    from that obtain t where t: "t \<in> set (trades s)" "t' = (if p t then f t else t)" by (auto simp: set_set_rows)
    have same: "terms t' = terms t" using t(2) terms by simp
    with that(2) have "t_payment_rail t = Credit" by (simp add: terms_def)
    with assms(1) t(1) have funds: "trade_funds s t" by (simp add: money_def)
    show ?thesis
      using t(2) st [OF t(1) _ \<open>t_payment_rail t = Credit\<close> funds] funds
      by (intro trade_funds_cong [OF same e _ _ funds]) (auto simp: trade_funds_def)
  qed
  with assms(1) books_cong [of ?s s] key show ?thesis by (simp add: money_def)
qed

lemma keeps_money_move:
  assumes "\<And>t. terms (f t) = terms t"
    and "\<And>t. t_status t = st \<Longrightarrow> st \<in> {T_pending, T_cancelled}
          \<or> t_status (f t) \<notin> {T_pending, T_cancelled} \<and> in_escrow (t_status (f t)) = in_escrow st"
  shows "keeps money (move_trade i st f)"
proof (rule keepsI)
  fix s a s' assume m: "money s" and run: "move_trade i st f s = Inr (a, s')"
  have "money (trades_update (\<lambda>_. set_rows (\<lambda>t. t_id t = i \<and> t_status t = st) f (trades s)) s)"
    using assms(2) by (intro money_update [OF m assms(1)]) (auto simp: trade_funds_def)
  with run show "money s'" by (auto simp: move_trade_def)
qed

text \<open>Between the move of a trade out of escrow and its settlement.\<close>

definition unpaid :: "trade \<Rightarrow> db \<Rightarrow> bool" where
  "unpaid r s \<longleftrightarrow> books s \<and> distinct (map t_id (trades s))
     \<and> (\<forall>t \<in> set (trades s). if t_id t = t_id r
          then terms t = terms r \<and> \<not> in_escrow (t_status t) \<and> t_status t \<notin> {T_pending, T_cancelled}
          else t_payment_rail t = Credit \<longrightarrow> trade_funds s t)
     \<and> held s (t_buyer_id r) (t_id r) = to_minor (t_amount r)"

lemma ledger_cong:
  assumes "ledger s' = ledger s"
  shows "trades s' = trades s" and "books s' = books s" and "held s' = held s" and "posted s' = posted s" and "trade_funds s' = trade_funds s"
proof -
  have eq: "trades s' = trades s" "credit_accounts s' = credit_accounts s" "credit_entries s' = credit_entries s"
    using assms by (simp_all add: ledger_def)
  then show "trades s' = trades s" by simp
  have e: "entries_of s' r = entries_of s r" for r using eq by (simp add: entries_of_def)
  show hp: "held s' = held s" "posted s' = posted s"
    using held_entries [OF e] posted_entries [OF e] by (simp_all add: fun_eq_iff)
  show "books s' = books s" using eq books_cong by blast
  show "trade_funds s' = trade_funds s" using hp by (simp add: fun_eq_iff trade_funds_def)
qed

lemma keeps_unpaid: "same ledger m \<Longrightarrow> keeps (unpaid r) m"
proof -
  have "unpaid r s'" if "unpaid r s" and eq: "ledger s' = ledger s" for s s'
    using that(1) unfolding unpaid_def ledger_cong [OF eq] .
  then show "same ledger m \<Longrightarrow> keeps (unpaid r) m" unfolding keeps_def same_def by blast
qed

definition known :: "db \<Rightarrow> trade \<Rightarrow> bool" where
  "known s t \<longleftrightarrow> (\<exists>r. trade_at s (t_id t) = Some r \<and> terms r = terms t)"

lemma known_row:
  assumes "money s" and "known s t" and "r \<in> set (trades s)" and "t_id r = t_id t"
  shows "terms r = terms t"
  using assms find_unique [of t_id "trades s" r] by (auto simp: money_def known_def trade_at_def)

lemma leads_move_out:
  assumes "t_payment_rail t = Credit" and "in_escrow st" and terms: "\<And>r. terms (f r) = terms r"
    and st: "\<And>r. \<not> in_escrow (t_status (f r)) \<and> t_status (f r) \<notin> {T_pending, T_cancelled}"
  shows "leads (\<lambda>s. money s \<and> known s t) (move_trade (t_id t) st f)
    (\<lambda>rows s. if rows = [] then money s else unpaid t s)"
  unfolding leads_def
proof (intro allI impI, elim conjE)
  fix s rows s' assume m: "money s" and k: "known s t" and run: "move_trade (t_id t) st f s = Inr (rows, s')"
  define q where "q = (\<lambda>r :: trade. t_id r = t_id t \<and> t_status r = st)"
  have s': "s' = trades_update (\<lambda>_. set_rows q f (trades s)) s" and rows: "rows = map f (filter q (trades s))"
    using run by (auto simp: move_trade_def q_def)
  have e: "entries_of s' r = entries_of s r" for r by (simp add: s' entries_of_def)
  have key: "t_id (f r) = t_id r" for r using terms [of r] by (simp add: terms_def)
  show "if rows = [] then money s' else unpaid t s'"
  proof (cases "rows = []")
    case True
    then have "set_rows q f (trades s) = trades s" using rows by (intro set_rows_id) (auto simp: filter_empty_conv)
    then have "s' = s" by (simp add: s')
    with m True show ?thesis by simp
  next
    case False
    then obtain r where r: "r \<in> set (trades s)" "q r" using rows by (auto simp: filter_empty_conv)
    have tr: "terms r = terms t" using known_row [OF m k r(1)] r(2) by (simp add: q_def)
    then have "trade_funds s r" using m r(1) assms(1) by (simp add: money_def terms_def)
    then have h: "held s' (t_buyer_id t) (t_id t) = to_minor (t_amount t)"
      using tr assms(2) r(2) held_entries [OF e] by (simp add: trade_funds_def terms_def q_def)
    have one: "x = r" if "x \<in> set (trades s)" "t_id x = t_id t" for x
      using that r m unique_key_eq [of t_id "trades s" x r] by (simp add: money_def q_def)
    have row: "if t_id x = t_id t then terms x = terms t \<and> \<not> in_escrow (t_status x) \<and> t_status x \<notin> {T_pending, T_cancelled}
        else t_payment_rail x = Credit \<longrightarrow> trade_funds s' x" if "x \<in> set (trades s')" for x
    proof -
      from that obtain y where y: "y \<in> set (trades s)" "x = (if q y then f y else y)" by (auto simp: s' set_set_rows)
      show ?thesis
      proof (cases "t_id y = t_id t")
        case True
        with one y(1) have "y = r" by blast
        with y(2) r(2) st terms tr key True show ?thesis by simp
      next
        case False
        then have "x = y" using y(2) by (simp add: q_def)
        with False y(1) m trade_funds_cong [OF refl e refl] show ?thesis
          by (auto simp: money_def trade_funds_def)
      qed
    qed
    moreover have "books s'" "distinct (map t_id (trades s'))"
      using m books_cong [of s' s] key by (simp_all add: money_def s')
    ultimately have "unpaid t s'" using h unfolding unpaid_def by blast
    with False show ?thesis by simp
  qed
qed

lemma same_trades_settle: "same trades (settleCredit now tid b sl a back)"
  by (rule same_beside [OF same_settleCredit]) simp

lemma leads_settle:
  "leads (unpaid t) (settleCredit now (t_id t) (t_buyer_id t) sl (t_amount t) back) (\<lambda>_. money)"
  unfolding leads_def
proof (intro allI impI)
  let ?m = "settleCredit now (t_id t) (t_buyer_id t) sl (t_amount t) back"
  fix s x s' assume u: "unpaid t s" and run: "?m s = Inr (x, s')"
  have tr: "trades s' = trades s" using same_trades_settle run by (rule sameD)
  have b: "books s" using u by (simp add: unpaid_def)
  have le: "back \<le> to_minor (t_amount t)"
    and run': "pay_out (changeCredit now) (t_buyer_id t) sl (t_id t) ''settlement'' ''sale'' back (to_minor (t_amount t)) s = Inr (x, s')"
    using run by (auto simp: settleCredit_run)
  note laws = cj.pay_out_laws [OF b run' le]
  have "trade_funds s' y" if "y \<in> set (trades s)" "t_payment_rail y = Credit" for y
  proof (cases "t_id y = t_id t")
    case True
    with u that(1) have "terms y = terms t" "\<not> in_escrow (t_status y)" "t_status y \<notin> {T_pending, T_cancelled}"
      by (auto simp: unpaid_def)
    with laws(3) u show ?thesis by (simp add: trade_funds_def unpaid_def terms_def)
  next
    case False
    have e: "entries_of s' (t_id y) = entries_of s (t_id y)" using entries_settle [OF False] run by (rule sameD)
    have "trade_funds s y" using u that False by (auto simp: unpaid_def)
    with trade_funds_cong [OF refl e refl] show ?thesis by (auto simp: trade_funds_def)
  qed
  with laws(1) tr u show "money s'" by (simp add: money_def unpaid_def)
qed

section \<open>Every operation keeps the money with its trade\<close>

definition open_for :: "id \<Rightarrow> db \<Rightarrow> bool" where
  "open_for i s \<longleftrightarrow> money s \<and> entries_of s i = []"

lemma keeps_open: "same ledger m \<Longrightarrow> keeps (open_for i) m"
proof -
  have "open_for i s'" if "open_for i s" and eq: "ledger s' = ledger s" for s s'
    using that(1) money_ledger [OF eq] eq by (simp add: open_for_def entries_of_def ledger_def)
  then show "same ledger m \<Longrightarrow> keeps (open_for i) m" unfolding keeps_def same_def by blast
qed

lemma same_policies: "same v (enforceBuyerSpendPolicy b c now)" "same v (enforceAgentSpendPolicy env a b n c now)"
  by (rule same_whole [OF same_enforceBuyer], rule sameI, simp add: enforceAgent_run)

text \<open>A new trade in escrow, before its money is reserved.\<close>

definition unfunded :: "trade \<Rightarrow> db \<Rightarrow> bool" where
  "unfunded r s \<longleftrightarrow> books s \<and> distinct (map t_id (trades s)) \<and> r \<in> set (trades s) \<and> entries_of s (t_id r) = []
     \<and> (\<forall>t \<in> set (trades s). t \<noteq> r \<longrightarrow> t_payment_rail t = Credit \<longrightarrow> trade_funds s t)"

lemma insert_new:
  assumes "open_for (t_id r) s" and "insert_trade r s = Inr (a, s')"
  shows "unfunded r s'" and "t_payment_rail r \<noteq> Credit \<Longrightarrow> money s'" and "trades s' = trades s @ [r]"
proof -
  have s': "s' = trades_update (\<lambda>_. trades s @ [r]) s" and new: "t_id r \<notin> t_id ` set (trades s)"
    using assms(2) by (auto simp: insert_trade_def run_simps list_ex_iff image_iff)
  have m: "money s" and none: "entries_of s (t_id r) = []" using assms(1) by (simp_all add: open_for_def)
  have e: "entries_of s' i = entries_of s i" for i by (simp add: s' entries_of_def)
  have b: "books s'" "distinct (map t_id (trades s'))" using m new books_cong [of s' s] by (simp_all add: s' money_def)
  have funds: "trade_funds s' t" if "t \<in> set (trades s)" "t_payment_rail t = Credit" for t
    using m that trade_funds_cong [OF refl e refl] by (auto simp: money_def trade_funds_def)
  show "trades s' = trades s @ [r]" by (simp add: s')
  with funds b none e show "unfunded r s'" by (simp add: unfunded_def)
  show "money s'" if "t_payment_rail r \<noteq> Credit" using b funds that by (auto simp: money_def s')
qed

lemma reserve_funds:
  assumes u: "unfunded r s" and "t_status r = T_escrow_held"
    and run: "reserveCredit now (t_id r) (t_buyer_id r) rc t (to_minor (t_amount r)) fe s = Inr (x, s')"
  shows "money s'"
proof -
  have b: "books s" using u by (simp add: unfunded_def)
  note laws = reserve_laws [OF b run]
  have tr: "trades s' = trades s" using same_beside [OF same_reserveCredit, of trades] run by (auto simp: same_def)
  have h0: "held s (t_buyer_id r) (t_id r) = 0"
    using u by (simp add: unfunded_def held_def entries_of_def sum_rows_def filter_empty_conv)
  have "trade_funds s' y" if "y \<in> set (trades s)" "t_payment_rail y = Credit" for y
  proof (cases "y = r")
    case True
    with laws(4) [of "t_buyer_id r" "t_id r"] laws(7) h0 assms(2) show ?thesis by (simp add: trade_funds_def in_escrow_def)
  next
    case False
    then have "t_id y \<noteq> t_id r" using u that(1) unique_key_eq [of t_id "trades s" y r] by (auto simp: unfunded_def)
    then have e: "entries_of s' (t_id y) = entries_of s (t_id y)" using entries_reserve run by (metis sameD)
    have "trade_funds s y" using u that False by (auto simp: unfunded_def)
    with trade_funds_cong [OF refl e refl] show ?thesis by (auto simp: trade_funds_def)
  qed
  with laws(2) tr u show ?thesis by (simp add: money_def unfunded_def)
qed

lemma create_keeps:
  assumes "rail \<in> {Ledger, Credit}"
  shows "leads (open_for fresh) (createLedgerTrade env now fresh session l b rc rail agent ref given) (\<lambda>_. money)"
proof -
  define T where "T sid = ((new_trade now fresh l b (calculateTradeFinancials (l_price l)) rail (if truthy ref then ref else None))
        \<lparr>t_dev_wallet := te_dev_wallet env, t_payout_status := (if 0 < fi_platform_fee (calculateTradeFinancials (l_price l)) then Payout_fee_sent else Payout_pending),
         t_status := T_escrow_held, t_escrow_session_id := Some sid, t_auto_confirm_at := Some (now + AUTO_CONFIRM_MS)\<rparr>)" for sid
  have T: "t_id (T sid) = fresh" "t_buyer_id (T sid) = b" "t_amount (T sid) = fi_seller_amount (calculateTradeFinancials (l_price l))"
    "t_payment_rail (T sid) = rail" "t_status (T sid) = T_escrow_held" for sid
    by (simp_all add: T_def new_trade_def)
  let ?amount = "fi_seller_amount (calculateTradeFinancials (l_price l))"
  have funding: "leads (open_for fresh) (bnd (insert_trade (T sid)) (\<lambda>t. andthen (onlyif (rail = Credit)
        (reserveCredit (to_seconds now) fresh b rc cost (to_minor ?amount) fee)) (rest t))) (\<lambda>_. money)"
    if rest: "\<And>t. same ledger (rest t)" for sid cost fee and rest :: "trade \<Rightarrow> trade dbtx"
    unfolding leads_def
  proof (intro allI impI)
    fix s a s' assume o: "open_for fresh s" and run: "bnd (insert_trade (T sid)) (\<lambda>t. andthen (onlyif (rail = Credit)
        (reserveCredit (to_seconds now) fresh b rc cost (to_minor ?amount) fee)) (rest t)) s = Inr (a, s')"
    from run obtain s1 s2 t x where i: "insert_trade (T sid) s = Inr (t, s1)"
      and r: "onlyif (rail = Credit) (reserveCredit (to_seconds now) fresh b rc cost (to_minor ?amount) fee) s1 = Inr (x, s2)"
      and f: "rest t s2 = Inr (a, s')" by (auto simp: bnd_run andthen_run)
    from o have o': "open_for (t_id (T sid)) s" by (simp add: T)
    have "money s2"
    proof (cases "rail = Credit")
      case True
      with r have "reserveCredit (to_seconds now) (t_id (T sid)) (t_buyer_id (T sid)) rc cost (to_minor (t_amount (T sid))) fee s1 = Inr (x, s2)"
        by (simp add: onlyif_run T)
      from reserve_funds [OF insert_new(1) [OF o' i] _ this] show ?thesis by (simp add: T)
    next
      case False
      with r insert_new(2) [OF o' i] show ?thesis by (simp add: onlyif_run T)
    qed
    with f rest show "money s'" by (metis keepsD keeps_money_ledger)
  qed
  show ?thesis
    unfolding createLedgerTrade_def Let_def
    by ((rule leads_keep_andthen leads_keep_bnd, rule keeps_open,
          (intro same_intros same_policies same_ledger same_requireSellerPaymentRail; fail)[1])+,
        unfold T_def [symmetric], rule funding, intro same_intros same_ledger)
qed

lemma same_genericListingFundingGuard: "same v (genericListingFundingGuard i b)"
  unfolding genericListingFundingGuard_def by (intro same_intros)

lemma reserve_external_keeps:
  assumes "rail \<noteq> Credit"
  shows "leads (open_for fresh) (reserveExternalTrade env now fresh l b rail agent ref fw) (\<lambda>_. money)"
proof -
  have inserted: "leads (open_for (t_id T)) (bnd (insert_trade T) f) (\<lambda>_. money)"
    if "t_payment_rail T \<noteq> Credit" and f: "\<And>t. same ledger (f t)" for T and f :: "trade \<Rightarrow> trade dbtx"
    unfolding leads_def bnd_run using insert_new(2) that(1) keepsD [OF keeps_money_ledger [OF f]] by blast
  show ?thesis
    unfolding reserveExternalTrade_def Let_def
  proof ((rule leads_keep_andthen leads_keep_bnd, rule keeps_open,
        (intro same_intros same_policies same_ledger same_requireSellerPaymentRail same_genericListingFundingGuard; fail)[1])+)
    show "leads (open_for fresh) (bnd (insert_trade (new_trade now fresh l b (calculateTradeFinancials (l_price l)) rail ref
        \<lparr>t_dev_wallet := fw, t_payment_due_at := Some (now + 30 * 60000),
         t_auto_confirm_at := Some (now + (30 * 60 + 259200) * 1000)\<rparr>)) (\<lambda>t.
       andthen (attributeOrganizationTrade agent t (to_minor (fi_total_cost (calculateTradeFinancials (l_price l)))) now) (ret t))) (\<lambda>_. money)"
      using inserted [where T = "new_trade now fresh l b (calculateTradeFinancials (l_price l)) rail ref
        \<lparr>t_dev_wallet := fw, t_payment_due_at := Some (now + 30 * 60000),
         t_auto_confirm_at := Some (now + (30 * 60 + 259200) * 1000)\<rparr>"] assms
      by (simp add: new_trade_def same_intros same_ledger)
  qed
qed

lemma keeps_case_list [keeps_intros]:
  "keeps I m \<Longrightarrow> (\<And>y ys. keeps I (f y ys)) \<Longrightarrow> keeps I (case x of [] \<Rightarrow> m | y # ys \<Rightarrow> f y ys)"
  by (cases x) auto

lemma expire_keeps: "keeps money (expireTradePayment env now t)"
  unfolding expireTradePayment_def
  by (intro keeps_intros keeps_money_move keeps_money_ledger same_ledger) (simp_all add: terms_def)

lemma funding_keeps: "separate env \<Longrightarrow> keeps money (fundingCommit env now fresh p)"
  unfolding fundingCommit_def rejectFunding_def acceptFunding_def
  by (intro keeps_intros keeps_money_move) (auto simp: terms_def intro!: keeps_money_ledger same_ledger same_intros separateD)

lemma cancelled_funding_keeps: "separate env \<Longrightarrow> keeps money (cancelledFunding env now p)"
  unfolding cancelledFunding_def
  by (intro keeps_intros keeps_money_move) (auto simp: terms_def intro!: keeps_money_ledger same_ledger same_intros separateD)

lemma delivery_keeps: "keeps money (storeDelivery now fresh tid h outs att ex files)"
  unfolding storeDelivery_def
  by (intro keeps_intros keeps_money_move)
    (auto simp: terms_def in_escrow_def split: prod.splits intro!: keeps_money_ledger same_ledger same_intros)

lemma dispute_keeps:
  assumes "t_status t \<in> {T_escrow_held, T_pending_release}"
  shows "keeps money (openTradeDispute env now t)"
proof -
  have "keeps money (update_where trades trades_update
      (\<lambda>r. t_id r = t_id t \<and> t_status r = t_status t \<and> t_payout_status r \<noteq> Payout_processing) (\<lambda>r. r\<lparr>t_status := T_disputed\<rparr>))"
  proof (rule keepsI)
    fix s a s' assume m: "money s" and run: "update_where trades trades_update
      (\<lambda>r. t_id r = t_id t \<and> t_status r = t_status t \<and> t_payout_status r \<noteq> Payout_processing) (\<lambda>r. r\<lparr>t_status := T_disputed\<rparr>) s = Inr (a, s')"
    have "money (trades_update (\<lambda>_. set_rows (\<lambda>r. t_id r = t_id t \<and> t_status r = t_status t \<and> t_payout_status r \<noteq> Payout_processing)
        (\<lambda>r. r\<lparr>t_status := T_disputed\<rparr>) (trades s)) s)"
      using assms by (intro money_update [OF m]) (auto simp: terms_def in_escrow_def)
    with run show "money s'" by auto
  qed
  then show ?thesis
    unfolding openTradeDispute_def
    by (intro keeps_intros) (auto intro!: keeps_money_ledger same_ledger same_intros)
qed

text \<open>Completion and resolution take the money out of escrow and pay it.\<close>

lemma keeps_known: "same ledger m \<Longrightarrow> keeps (\<lambda>s. money s \<and> known s t) m"
proof -
  have "money s' \<and> known s' t" if "money s \<and> known s t" and eq: "ledger s' = ledger s" for s s'
    using that(1) money_ledger [OF eq] eq by (simp add: known_def trade_at_def ledger_def)
  then show "same ledger m \<Longrightarrow> keeps (\<lambda>s. money s \<and> known s t) m" unfolding keeps_def same_def by blast
qed

lemma onlyif_simps: "onlyif True m = m" "onlyif False m = ret ()"
  by (simp_all add: onlyif_def)

lemma same_settling [same_intros]: "separate env \<Longrightarrow> same ledger (te_performed env t)"
  "separate env \<Longrightarrow> same ledger (te_decided env i)"
  by (simp_all add: separateD)

lemma completion_settles:
  assumes "separate env" and "t_payment_rail t = Credit"
  shows "leads (\<lambda>s. money s \<and> known s t) (finalizeTradeCompletion env now t reason) (\<lambda>_. money)"
  unfolding finalizeTradeCompletion_def
proof (rule leads_keep_andthen [OF keeps_known [OF same_acceptance(2)]], rule leads_bnd [OF leads_move_out [OF assms(2)]],
    goal_cases)
  case (4 rows)
  show ?case
    unfolding assms(2) simp_thms onlyif_simps
  proof (rule leads_bnd [OF leads_first_or], goal_cases)
    case (1 updated)
    show ?case
      by ((rule leads_keep_andthen leads_keep_bnd, rule keeps_unpaid,
            (intro same_intros same_ledger assms; fail)[1])+,
          rule leads_andthen [OF leads_settle], rule leads_keeps, rule keeps_money_ledger)
        (intro same_intros same_ledger assms)
  qed
qed (simp_all add: in_escrow_def terms_def)

lemma leads_move_other:
  assumes "t_payment_rail t \<noteq> Credit" and "\<And>r. terms (f r) = terms r"
  shows "leads (\<lambda>s. money s \<and> known s t) (move_trade (t_id t) st f) (\<lambda>_. money)"
  unfolding leads_def
proof (intro allI impI, elim conjE)
  fix s a s' assume m: "money s" and k: "known s t" and run: "move_trade (t_id t) st f s = Inr (a, s')"
  have "money (trades_update (\<lambda>_. set_rows (\<lambda>r. t_id r = t_id t \<and> t_status r = st) f (trades s)) s)"
    using known_row [OF m k] assms by (intro money_update [OF m assms(2)]) (auto simp: terms_def)
  with run show "money s'" by (auto simp: move_trade_def)
qed

lemma completion_other:
  assumes "separate env" and "t_payment_rail t \<noteq> Credit"
  shows "leads (\<lambda>s. money s \<and> known s t) (finalizeTradeCompletion env now t reason) (\<lambda>_. money)"
  unfolding finalizeTradeCompletion_def
proof (rule leads_keep_andthen [OF keeps_known [OF same_acceptance(2)]], rule leads_bnd [OF leads_move_other [OF assms(2)]],
    goal_cases)
  case (2 rows)
  show ?case using assms(2)
    by (intro leads_keeps keeps_money_ledger) (auto intro!: same_intros same_ledger assms(1))
qed (simp add: terms_def)

lemma resolution_settles:
  assumes "separate env" and "t_payment_rail t = Credit"
  shows "leads (\<lambda>s. money s \<and> known s t) (finalizeTradeDispute env now t res pc decided) (\<lambda>_. money)"
  unfolding finalizeTradeDispute_def Let_def
proof (rule leads_bnd [OF leads_move_out [OF assms(2)]], goal_cases)
  case (4 rows)
  show ?case
    unfolding assms(2) simp_thms onlyif_simps
  proof (rule leads_cases, goal_cases)
    case 1
    show ?case by (intro leads_keeps keeps_intros)
  next
    case (2 claimed others)
    show ?case
      by ((rule leads_keep_andthen leads_keep_bnd, rule keeps_unpaid,
            (intro same_intros same_ledger assms; fail)[1])+,
          rule leads_andthen [OF leads_settle], rule leads_keeps, rule keeps_money_ledger)
        (intro same_intros same_ledger assms)
  qed
qed (simp_all add: in_escrow_def terms_def)

lemma resolution_other:
  assumes "separate env" and "t_payment_rail t \<noteq> Credit"
  shows "leads (\<lambda>s. money s \<and> known s t) (finalizeTradeDispute env now t res pc decided) (\<lambda>_. money)"
  unfolding finalizeTradeDispute_def Let_def
proof (rule leads_bnd [OF leads_move_other [OF assms(2)]], goal_cases)
  case (2 rows)
  show ?case using assms(2)
    by (intro leads_keeps keeps_money_ledger) (auto split: list.split intro!: same_intros same_ledger assms(1))
qed (simp add: terms_def)

section \<open>Every operation runs the machine\<close>

lemma run_frame: "same ledger m \<Longrightarrow> along trades_run m"
  by (intro trades_frame same_ledger_trades)

lemma run_settle: "along trades_run (settleCredit now tid b sl a back)"
  by (rule trades_frame [OF same_trades_settle])

lemma run_reserve: "along trades_run (reserveCredit now ref b rc t sl fe)"
  by (rule trades_frame [OF same_beside [OF same_reserveCredit]]) simp

lemma create_run: "along trades_run (createLedgerTrade env now fresh session l b rc rail agent ref given)"
  unfolding createLedgerTrade_def Let_def
  by ((intro tr.intros insert_run run_reserve;
      (rule run_frame, intro same_intros same_policies same_ledger same_requireSellerPaymentRail)?)+)

lemma reserve_external_run: "along trades_run (reserveExternalTrade env now fresh l b rail agent ref fw)"
  unfolding reserveExternalTrade_def Let_def
  by ((intro tr.intros insert_run;
      (rule run_frame, intro same_intros same_policies same_ledger same_requireSellerPaymentRail same_genericListingFundingGuard)?)+)

lemmas move_kinds = trade_machine_defs terms_def

lemma expire_run: "along trades_run (expireTradePayment env now t)"
  unfolding expireTradePayment_def
  by (intro tr.intros move_run run_frame same_ledger) (simp_all add: move_kinds)

lemma funding_run: "separate env \<Longrightarrow> along trades_run (fundingCommit env now fresh p)"
  unfolding fundingCommit_def rejectFunding_def acceptFunding_def
  by (intro tr.intros move_run; (rule run_frame, intro same_ledger same_intros separateD)?) (simp_all add: move_kinds)

lemma cancelled_funding_run: "separate env \<Longrightarrow> along trades_run (cancelledFunding env now p)"
  unfolding cancelledFunding_def
  by (intro tr.intros move_run; (rule run_frame, intro same_ledger same_intros separateD)?) (simp_all add: move_kinds)

lemma delivery_run: "along trades_run (storeDelivery now fresh tid h outs att ex files)"
proof -
  have rest: "same ledger (foreach files (\<lambda>i. bnd (update_where private_artifacts private_artifacts_update (\<lambda>p. pa_id p = i)
        (\<lambda>p. p\<lparr>pa_delivery_id := Some fresh\<rparr>)) (\<lambda>_. ret ())))"
    "same ledger (foreach outs (\<lambda>(m, st). store_evidence \<lparr>vr_trade_id = tid, vr_delivery_id = Some fresh,
        vr_content_hash = h, vr_method = m, vr_status = st\<rparr>))"
    "same ledger (case att of None \<Rightarrow> ret () | Some (orderId, attemptId) \<Rightarrow> deliverAttempt now orderId attemptId)"
    by (auto split: option.split prod.splits intro!: same_intros same_ledger)
  show ?thesis
    unfolding storeDelivery_def
    by (intro tr.chain [OF run_frame [OF rest(3)]] tr.chain [OF run_frame [OF rest(2)]] tr.chain [OF run_frame [OF rest(1)]]
        tr.intros move_run run_frame same_ledger) (simp_all add: move_kinds)
qed

lemma review_run: "along trades_run (advanceBuyerReview env tid st h)"
  by (rule run_frame [OF same_review])

lemma dispute_run: "t_status t \<in> {T_escrow_held, T_pending_release} \<Longrightarrow> along trades_run (openTradeDispute env now t)"
  unfolding openTradeDispute_def
  by (intro tr.intros trades_update; (rule run_frame, intro same_ledger same_intros)?) (auto simp: move_kinds)

lemma completion_run: "separate env \<Longrightarrow> along trades_run (finalizeTradeCompletion env now t reason)"
  unfolding finalizeTradeCompletion_def
  by (intro tr.intros move_run run_settle; (rule run_frame, intro same_ledger same_intros)?) (simp_all add: move_kinds)

lemma resolution_run: "separate env \<Longrightarrow> along trades_run (finalizeTradeDispute env now t res pc decided)"
  unfolding finalizeTradeDispute_def Let_def
  by (intro tr.intros move_run run_settle; (rule run_frame, intro same_ledger same_intros)?) (simp_all add: move_kinds)

section \<open>All operations together\<close>

text \<open>
  One committed operation.  A new trade takes an identifier that no entry carries; a
  handler's trade is the row it read earlier, and \<open>elsewhere\<close> is any operation of
  another part, which neither touches the entries of a trade nor its terms and status.
\<close>

definition core :: "trade \<Rightarrow> (id \<times> id \<times> id \<times> id \<times> num \<times> rail) \<times> trade_status" where
  "core t = (terms t, t_status t)"

inductive trade_operation :: "trade_env \<Rightarrow> db \<Rightarrow> db \<Rightarrow> bool" for env where
  bought: "createLedgerTrade env now fresh session l b rc rail agent ref given s = Inr (t, s') \<Longrightarrow> rail \<in> {Ledger, Credit} \<Longrightarrow>
     entries_of s fresh = [] \<Longrightarrow> trade_operation env s s'"
| reserved: "reserveExternalTrade env now fresh l b rail agent ref fw s = Inr (t, s') \<Longrightarrow> rail \<in> {Mpp, Evm} \<Longrightarrow>
     entries_of s fresh = [] \<Longrightarrow> trade_operation env s s'"
| expired: "expireTradePayment env now t s = Inr (x, s') \<Longrightarrow> trade_operation env s s'"
| funded: "fundingCommit env now fresh p s = Inr (y, s') \<Longrightarrow> trade_operation env s s'"
| paid_late: "cancelledFunding env now p s = Inr (t, s') \<Longrightarrow> trade_operation env s s'"
| delivered: "storeDelivery now fresh tid h outs att ex files s = Inr (t, s') \<Longrightarrow> trade_operation env s s'"
| reviewed: "advanceBuyerReview env tid st hash s = Inr (b', s') \<Longrightarrow> trade_operation env s s'"
| completed: "finalizeTradeCompletion env now t reason s = Inr (r, s') \<Longrightarrow> known s t \<Longrightarrow> trade_operation env s s'"
| disputed: "openTradeDispute env now t s = Inr (z, s') \<Longrightarrow> t_status t \<in> {T_escrow_held, T_pending_release} \<Longrightarrow>
     trade_operation env s s'"
| resolved: "finalizeTradeDispute env now t res pc decided s = Inr (w, s') \<Longrightarrow> known s t \<Longrightarrow> trade_operation env s s'"
| elsewhere: "books s' \<Longrightarrow> map core (trades s') = map core (trades s) \<Longrightarrow>
     (\<And>t. t \<in> set (trades s) \<Longrightarrow> entries_of s' (t_id t) = entries_of s (t_id t)) \<Longrightarrow> trade_operation env s s'"

lemma core_rows:
  assumes "map core ts' = map core ts"
  shows "map t_id ts' = map t_id ts"
    and "find (\<lambda>t. t_id t = i) ts = Some t \<Longrightarrow> \<exists>t'. find (\<lambda>t. t_id t = i) ts' = Some t' \<and> core t' = core t"
    and "t' \<in> set ts' \<Longrightarrow> \<exists>t \<in> set ts. core t' = core t"
proof -
  have len: "length ts' = length ts" using assms by (metis length_map)
  have key: "core x = core y \<Longrightarrow> t_id x = t_id y" for x y by (simp add: core_def terms_def)
  show "map t_id ts' = map t_id ts"
    using len assms by (induction ts' ts rule: list_induct2) (auto dest: key)
  show "\<exists>t'. find (\<lambda>t. t_id t = i) ts' = Some t' \<and> core t' = core t" if "find (\<lambda>t. t_id t = i) ts = Some t"
    using len assms that by (induction ts' ts rule: list_induct2) (auto dest: key split: if_splits)
  show "t' \<in> set ts' \<Longrightarrow> \<exists>t \<in> set ts. core t' = core t"
    using assms by (metis (no_types, opaque_lifting) imageE image_eqI list.set_map)
qed

lemma elsewhere_keeps:
  assumes "books s'" and "map core (trades s') = map core (trades s)"
    and e: "\<And>t. t \<in> set (trades s) \<Longrightarrow> entries_of s' (t_id t) = entries_of s (t_id t)" and m: "money s"
  shows "money s'"
proof -
  have "trade_funds s' t'" if t': "t' \<in> set (trades s')" "t_payment_rail t' = Credit" for t'
  proof -
    obtain t where t: "t \<in> set (trades s)" "core t' = core t" using core_rows(3) [OF assms(2) t'(1)] by blast
    then have same: "terms t' = terms t" "t_status t' = t_status t" by (simp_all add: core_def)
    then have "t_payment_rail t = Credit" using t'(2) by (simp add: terms_def)
    with m t(1) have funds: "trade_funds s t" by (simp add: money_def)
    show ?thesis using same funds by (intro trade_funds_cong [OF same(1) e [OF t(1)] _ _ funds]) (simp_all add: trade_funds_def)
  qed
  with assms m core_rows(1) [OF assms(2)] show ?thesis by (simp add: money_def)
qed

lemma elsewhere_run: "map core (trades s') = map core (trades s) \<Longrightarrow> trades_run s s'"
  unfolding trades_run_def trade_at_def by (force dest!: core_rows(2) simp: core_def)

lemma operation_money: "trade_operation env s s' \<Longrightarrow> separate env \<Longrightarrow> money s \<Longrightarrow> money s'"
proof (induction rule: trade_operation.induct)
  case bought then show ?case using leadsD [OF create_keeps] by (simp add: open_for_def)
next
  case (reserved now fresh l b rail)
  then have "rail \<noteq> Credit" by auto
  from leadsD [OF reserve_external_keeps [OF this] _ reserved(1)] reserved show ?case by (simp add: open_for_def)
next
  case expired then show ?case using keepsD [OF expire_keeps] by blast
next
  case funded then show ?case using keepsD [OF funding_keeps] by blast
next
  case paid_late then show ?case using keepsD [OF cancelled_funding_keeps] by blast
next
  case delivered then show ?case using keepsD [OF delivery_keeps] by blast
next
  case reviewed then show ?case using keepsD [OF keeps_money_ledger [OF same_review]] by blast
next
  case (completed now t) then show ?case
    using leadsD [OF completion_settles] leadsD [OF completion_other] by (cases "t_payment_rail t = Credit") blast+
next
  case disputed then show ?case using keepsD [OF dispute_keeps] by blast
next
  case (resolved now t) then show ?case
    using leadsD [OF resolution_settles] leadsD [OF resolution_other] by (cases "t_payment_rail t = Credit") blast+
next
  case elsewhere then show ?case using elsewhere_keeps by blast
qed

lemma operation_run: "trade_operation env s s' \<Longrightarrow> separate env \<Longrightarrow> trades_run s s'"
proof (induction rule: trade_operation.induct)
  case bought then show ?case using alongD [OF create_run] by blast
next
  case reserved then show ?case using alongD [OF reserve_external_run] by blast
next
  case expired then show ?case using alongD [OF expire_run] by blast
next
  case funded then show ?case using alongD [OF funding_run] by blast
next
  case paid_late then show ?case using alongD [OF cancelled_funding_run] by blast
next
  case delivered then show ?case using alongD [OF delivery_run] by blast
next
  case reviewed then show ?case using alongD [OF review_run] by blast
next
  case completed then show ?case using alongD [OF completion_run] by blast
next
  case disputed then show ?case using alongD [OF dispute_run] by blast
next
  case resolved then show ?case using alongD [OF resolution_run] by blast
next
  case elsewhere then show ?case by (intro elsewhere_run)
qed

lemma runs_money: "(trade_operation env)\<^sup>*\<^sup>* s s' \<Longrightarrow> separate env \<Longrightarrow> money s \<Longrightarrow> money s'"
  by (induction rule: rtranclp_induct) (auto intro: operation_money)

lemma runs_run: "(trade_operation env)\<^sup>*\<^sup>* s s' \<Longrightarrow> separate env \<Longrightarrow> trades_run s s'"
  by (induction rule: rtranclp_induct) (auto intro: tr.refl tr.trans operation_run)

text \<open>
  C10. Whatever operations run, in whatever order, a trade keeps its listing, parties,
  price and rail, its status makes a run of the trade machine, and a trade that was
  completed, resolved or cancelled keeps that status: a completed trade is never
  disputed or refunded, a cancelled one never funded.
\<close>

theorem trades_follow_the_machine:
  assumes "(trade_operation env)\<^sup>*\<^sup>* s s'" and "separate env" and "trade_at s i = Some t"
  shows "\<exists>t'. trade_at s' i = Some t' \<and> terms t' = terms t \<and> trade_move\<^sup>*\<^sup>* (t_status t) (t_status t')
    \<and> (trade_final (t_status t) \<longrightarrow> t_status t' = t_status t)
    \<and> (t_status t' = T_completed \<longrightarrow> t_status t \<notin> {T_disputed, T_resolved, T_cancelled})"
proof -
  from runs_run [OF assms(1,2)] assms(3) obtain t' where t': "trade_at s' i = Some t'" "terms t' = terms t"
    "trade_move\<^sup>*\<^sup>* (t_status t) (t_status t')" by (auto simp: trades_run_def)
  have final: "trade_final (t_status t) \<longrightarrow> t_status t' = t_status t" using tm.final_stays t'(3) by blast
  have "t_status t \<noteq> T_disputed" if "t_status t' = T_completed"
  proof
    assume "t_status t = T_disputed"
    with t'(3) have run: "trade_move\<^sup>*\<^sup>* T_disputed T_completed" using that by simp
    then obtain q where q: "trade_move T_disputed q" "trade_move\<^sup>*\<^sup>* q T_completed" by (auto elim: converse_rtranclpE)
    then have "q = T_resolved" by (simp add: trade_machine_defs)
    with q(2) tm.final_stays [of T_resolved T_completed] show False by (simp add: trade_final_def)
  qed
  with t' final show ?thesis by (intro exI [of _ t']) (auto simp: trade_final_def)
qed

text \<open>
  C8. The escrow of the market.  Whatever operations run, the credit held for a trade
  is exactly its price while the trade is funded, delivered or disputed, and nothing
  once it is completed or resolved; the books balance with it.
\<close>

theorem escrow_follows_the_trades:
  assumes "(trade_operation env)\<^sup>*\<^sup>* s s'" and "separate env" and "money s"
  shows "books s' \<and> (\<forall>t \<in> set (trades s'). t_payment_rail t = Credit \<longrightarrow>
     held s' (t_buyer_id t) (t_id t) = (if in_escrow (t_status t) then to_minor (t_amount t) else 0))"
  using runs_money [OF assms] by (simp add: money_def trade_funds_def)

section \<open>What a settlement pays\<close>

text \<open>
  The shares of a resolved trade in cents.  Prices are at most a million dollars
  here, so the four roundings of the code stay far below half a cent together.
\<close>

definition trade_cents :: "num \<Rightarrow> num \<Rightarrow> int" where
  "trade_cents amount percent = jround (jmul (jmul amount (jdiv percent 100)) 100)"

lemma jmul_error:
  assumes "\<bar>x - X\<bar> \<le> e" and "\<bar>y - Y\<bar> \<le> d" and "\<bar>X\<bar> \<le> A" and "\<bar>y\<bar> \<le> B"
  shows "\<bar>jmul x y - X * Y\<bar> \<le> e * B + A * d + (A + e) * B / 2 ^ 53"
proof -
  have nonneg: "0 \<le> e" "0 \<le> d" "0 \<le> A" "0 \<le> B" using assms by linarith+
  have "\<bar>(x - X) * y\<bar> \<le> e * B" using assms(1,4) nonneg by (simp only: abs_mult) (intro mult_mono; simp)
  moreover have "\<bar>X * (y - Y)\<bar> \<le> A * d" using assms(2,3) nonneg by (simp only: abs_mult) (intro mult_mono; simp)
  moreover have "x * y - X * Y = (x - X) * y + X * (y - Y)" by (simp add: algebra_simps)
  ultimately have exact: "\<bar>x * y - X * Y\<bar> \<le> e * B + A * d" by linarith
  have "\<bar>x\<bar> \<le> A + e" using assms(1,3) by linarith
  then have "\<bar>x * y\<bar> \<le> (A + e) * B" using assms(4) nonneg by (simp only: abs_mult) (intro mult_mono; simp)
  from fl_error_abs [OF this] exact show ?thesis unfolding jmul_def by linarith
qed

lemma trade_cents_bounds:
  assumes "0 \<le> n" and "n \<le> 100000000" and "0 \<le> p" and "p \<le> 100"
  shows "0 \<le> trade_cents (of_minor n) p" and "trade_cents (of_minor n) p \<le> n"
    and "\<bar>of_int (trade_cents (of_minor n) p) - of_int n * p / 100\<bar> \<le> 1 / 2 + 1 / 1000000"
proof -
  let ?x = "jmul (jmul (of_minor n) (jdiv p 100)) 100"
  have N: "0 \<le> (of_int n :: rat)" "(of_int n :: rat) \<le> 100000000" using assms(1,2) by simp_all
  have q: "\<bar>jdiv p 100 - p / 100\<bar> \<le> 1 / 2 ^ 53" unfolding jdiv_def using fl_error_abs [of "p / 100" 1] assms(3,4) by simp
  have small: "(1 :: rat) / 2 ^ 53 \<le> 1 / 1000" by simp
  have bq: "\<bar>jdiv p 100\<bar> \<le> 2" using q small assms(3,4) by linarith
  have ba: "\<bar>of_int n / 100 :: rat\<bar> \<le> 1000000" using N by simp
  from jmul_error [OF of_minor_error [OF assms(1,2)] q ba bq]
  have i: "\<bar>jmul (of_minor n) (jdiv p 100) - of_int n / 100 * (p / 100)\<bar> \<le> 3 / 1000000000" by simp
  have np: "0 \<le> of_int n * p" using N assms(3) by simp
  have "of_int n * p \<le> 100000000 * 100" using N assms(3,4) by (intro mult_mono) simp_all
  with np have bp: "\<bar>of_int n / 100 * (p / 100)\<bar> \<le> 1000000" by simp
  have "\<bar>?x - of_int n / 100 * (p / 100) * 100\<bar> \<le> 1 / 1000000"
    using jmul_error [OF i, of 100 100 0 1000000 100] bp by simp
  then have e: "\<bar>?x - of_int n * p / 100\<bar> \<le> 1 / 1000000" by (simp add: field_simps)
  then show "\<bar>of_int (trade_cents (of_minor n) p) - of_int n * p / 100\<bar> \<le> 1 / 2 + 1 / 1000000"
    unfolding trade_cents_def using jround_error [of ?x] by linarith
  have "of_int n * p \<le> of_int n * 100" by (rule mult_left_mono [OF assms(4) N(1)])
  then have hi: "of_int n * p / 100 \<le> of_int n" by simp
  have "- 1 / 2 \<le> ?x" "?x < of_int n + 1 / 2" using e np hi by linarith+
  then show "0 \<le> trade_cents (of_minor n) p" "trade_cents (of_minor n) p \<le> n"
    unfolding trade_cents_def jround_def by (simp_all add: le_floor_iff floor_le_iff)
qed

lemma trade_shares:
  assumes "0 \<le> n" and "n \<le> 100000000" and "0 \<le> p" and "p \<le> 100"
  shows "trade_seller_share (of_minor n) p = of_minor (trade_cents (of_minor n) p)"
    and "trade_buyer_share (of_minor n) p = of_minor (n - trade_cents (of_minor n) p)"
    and "to_minor (trade_buyer_share (of_minor n) p) = n - trade_cents (of_minor n) p"
proof -
  let ?k = "trade_cents (of_minor n) p"
  note k = trade_cents_bounds(1,2) [OF assms]
  show s: "trade_seller_share (of_minor n) p = of_minor ?k" by (simp add: trade_seller_share_def trade_cents_def)
  show b: "trade_buyer_share (of_minor n) p = of_minor (n - ?k)"
    unfolding trade_buyer_share_def s round2_def using buyer_share_cents [OF k assms(2)] by simp
  show "to_minor (trade_buyer_share (of_minor n) p) = n - ?k"
    unfolding b using k assms(2) by (intro to_minor_of_minor) simp
qed

definition credit_view :: "db \<Rightarrow> credit_account list \<times> credit_entry list" where
  "credit_view s = (credit_accounts s, credit_entries s)"

lemma credit_cong:
  assumes "credit_view s' = credit_view s"
  shows "books s' = books s" and "avail s' = avail s" and "escrowed s' = escrowed s" and "total_credit s' = total_credit s"
    and "held s' = held s"
  using assms books_cong [of s' s]
  by (simp_all add: credit_view_def fun_eq_iff avail_def escrowed_def creditBalance_def total_credit_def held_def)

lemma keeps_determined:
  assumes "same ledger m" and "\<And>s s'. ledger s' = ledger s \<Longrightarrow> P s \<Longrightarrow> P s'"
  shows "keeps P m"
  using assms unfolding keeps_def same_def by blast

definition at_status :: "db \<Rightarrow> id \<Rightarrow> trade_status \<Rightarrow> bool" where
  "at_status s i st \<longleftrightarrow> (\<exists>r. trade_at s i = Some r \<and> t_status r = st)"

definition before_payment :: "credit_account list \<times> credit_entry list \<Rightarrow> id \<Rightarrow> trade_status \<Rightarrow> db \<Rightarrow> bool" where
  "before_payment c i st s \<longleftrightarrow> credit_view s = c \<and> at_status s i st"

definition after_payment :: "credit_account list \<times> credit_entry list \<Rightarrow> trade \<Rightarrow> int \<Rightarrow> trade_status \<Rightarrow> db \<Rightarrow> bool" where
  "after_payment c t back st s' \<longleftrightarrow> at_status s' (t_id t) st \<and> (\<exists>now s1 x s2. credit_view s1 = c
     \<and> settleCredit now (t_id t) (t_buyer_id t) (t_seller_id t) (t_amount t) back s1 = Inr (x, s2)
     \<and> credit_view s' = credit_view s2)"

lemma keeps_payment:
  "same ledger m \<Longrightarrow> keeps (before_payment c i st) m" "same ledger m \<Longrightarrow> keeps (after_payment c t back st) m"
  by (rule keeps_determined; simp add: before_payment_def after_payment_def credit_view_def at_status_def trade_at_def ledger_def)+

text \<open>A move that finds its trade puts it into the new status and nothing else.\<close>

lemma leads_move_view:
  assumes "\<And>r. t_id (f r) = t_id r" and "\<And>r. t_status r = st \<Longrightarrow> t_status (f r) = new" and v: "\<And>g s. v (trades_update g s) = v s"
  shows "leads (\<lambda>s. v s = c \<and> distinct (map t_id (trades s))) (move_trade i st f)
    (\<lambda>rows s. if rows = [] then True else v s = c \<and> at_status s i new)"
  unfolding leads_def
proof (intro allI impI, elim conjE)
  fix s rows s' assume c: "v s = c" and d: "distinct (map t_id (trades s))" and run: "move_trade i st f s = Inr (rows, s')"
  have s': "s' = trades_update (\<lambda>_. set_rows (\<lambda>t. t_id t = i \<and> t_status t = st) f (trades s)) s"
    and rows: "rows = map f (filter (\<lambda>t. t_id t = i \<and> t_status t = st) (trades s))"
    using run by (auto simp: move_trade_def)
  have "at_status s' i new" if "rows \<noteq> []"
  proof -
    from that rows obtain r where r: "r \<in> set (trades s)" "t_id r = i" "t_status r = st" by (auto simp: filter_empty_conv)
    have "find (\<lambda>t. t_id t = i) (trades s) = Some r" using find_unique [OF d r(1)] r(2) by simp
    then have "trade_at s' i = Some (f r)" using r(2,3) assms(1) by (simp add: trade_at_def s' find_set_rows)
    with assms(2) [OF r(3)] show ?thesis by (simp add: at_status_def)
  qed
  with c v show "if rows = [] then True else v s' = c \<and> at_status s' i new" by (simp add: s')
qed

lemma leads_move_to:
  assumes "\<And>r. t_id (f r) = t_id r" and "\<And>r. t_status r = st \<Longrightarrow> t_status (f r) = new"
  shows "leads (\<lambda>s. credit_view s = c \<and> distinct (map t_id (trades s))) (move_trade i st f)
    (\<lambda>rows s. if rows = [] then True else before_payment c i new s)"
  unfolding before_payment_def by (rule leads_move_view) (simp_all add: assms credit_view_def)

lemma leads_payment:
  "leads (before_payment c (t_id t) st) (settleCredit now (t_id t) (t_buyer_id t) (t_seller_id t) (t_amount t) back)
     (\<lambda>_. after_payment c t back st)"
  unfolding leads_def
proof (intro allI impI)
  let ?m = "settleCredit now (t_id t) (t_buyer_id t) (t_seller_id t) (t_amount t) back"
  fix s x s' assume b: "before_payment c (t_id t) st s" and run: "?m s = Inr (x, s')"
  have "trades s' = trades s" using same_trades_settle run by (rule sameD)
  with b have "at_status s' (t_id t) st" by (simp add: before_payment_def at_status_def trade_at_def)
  with b run show "after_payment c t back st s'" by (auto simp: after_payment_def before_payment_def)
qed

lemma completion_pays:
  assumes "separate env" and "t_payment_rail t = Credit"
  shows "leads (\<lambda>s. credit_view s = c \<and> distinct (map t_id (trades s))) (finalizeTradeCompletion env now t reason)
    (\<lambda>_. after_payment c t 0 T_completed)"
  unfolding finalizeTradeCompletion_def
proof (rule leads_keep_andthen, rule keeps_determined [OF same_acceptance(2)], goal_cases)
  case 2
  show ?case
  proof (rule leads_bnd [OF leads_move_to [where new = T_completed]], goal_cases)
    case (3 rows)
    show ?case
      unfolding assms(2) simp_thms onlyif_simps
    proof (rule leads_bnd [OF leads_first_or], goal_cases)
      case (1 updated)
      show ?case
        by ((rule leads_keep_andthen leads_keep_bnd, rule keeps_payment(1),
              (intro same_intros same_ledger assms; fail)[1])+,
            rule leads_andthen [OF leads_payment], rule leads_keeps, rule keeps_payment(2))
          (intro same_intros same_ledger assms)
    qed
  qed simp_all
qed (simp add: ledger_def credit_view_def)


lemma after_payment_effect:
  assumes "after_payment (credit_view s) t back st s'" and "books s"
  shows "0 \<le> back \<and> back \<le> to_minor (t_amount t)" and "total_credit s' = total_credit s"
    and "escrowed s' v = escrowed s v - (if v = t_buyer_id t then to_minor (t_amount t) else 0)"
    and "avail s' v = avail s v + (if v = t_buyer_id t then back else 0) + (if v = t_seller_id t then to_minor (t_amount t) - back else 0)"
    and "held s' (t_buyer_id t) (t_id t) = held s (t_buyer_id t) (t_id t) - to_minor (t_amount t)"
proof -
  from assms(1) obtain now s1 x s2 where v1: "credit_view s1 = credit_view s" and v2: "credit_view s' = credit_view s2"
    and run: "settleCredit now (t_id t) (t_buyer_id t) (t_seller_id t) (t_amount t) back s1 = Inr (x, s2)"
    by (auto simp: after_payment_def)
  have b: "books s1" using assms(2) credit_cong(1) [OF v1] by simp
  from run have bounds: "0 \<le> back" "back \<le> to_minor (t_amount t)"
    and p: "pay_out (changeCredit now) (t_buyer_id t) (t_seller_id t) (t_id t) ''settlement'' ''sale'' back (to_minor (t_amount t)) s1 = Inr (x, s2)"
    by (auto simp: settleCredit_run)
  note laws = cj.pay_out_laws [OF b p bounds(2)] and eq = credit_cong [OF v1] credit_cong [OF v2]
  show "0 \<le> back \<and> back \<le> to_minor (t_amount t)" using bounds by simp
  show "total_credit s' = total_credit s" using laws(2) eq by simp
  show "escrowed s' v = escrowed s v - (if v = t_buyer_id t then to_minor (t_amount t) else 0)" using laws(4) eq by simp
  show "avail s' v = avail s v + (if v = t_buyer_id t then back else 0) + (if v = t_seller_id t then to_minor (t_amount t) - back else 0)"
    using laws(5) eq by simp
  show "held s' (t_buyer_id t) (t_id t) = held s (t_buyer_id t) (t_id t) - to_minor (t_amount t)" using laws(3) eq by simp
qed

text \<open>A trade whose status is final is settled by neither path again.\<close>

lemma final_not_moved:
  assumes "at_status s i st" and "distinct (map t_id (trades s))" and "st \<noteq> st'"
  shows "filter (\<lambda>t. t_id t = i \<and> t_status t = st') (trades s) = []"
proof -
  from assms(1) obtain r where r: "r \<in> set (trades s)" "t_id r = i" "t_status r = st"
    by (auto simp: at_status_def trade_at_def dest: find_Some_in)
  have "t_status t \<noteq> st'" if "t \<in> set (trades s)" "t_id t = i" for t
  proof -
    have "t = r" using unique_key_eq [OF assms(2) that(1) r(1)] that(2) r(2) by simp
    with r(3) assms(3) show ?thesis by simp
  qed
  then show ?thesis by (auto simp: filter_empty_conv)
qed

lemma first_after:
  "andthen m (bnd n (\<lambda>rows. bnd (first_or e rows) g)) s = Inr p \<Longrightarrow>
   \<exists>a s1 rows s2. m s = Inr (a, s1) \<and> n s1 = Inr (rows, s2) \<and> rows \<noteq> []"
  by (auto simp: andthen_run bnd_run)

definition settled_for_good :: "trade_env \<Rightarrow> db \<Rightarrow> id \<Rightarrow> bool" where
  "settled_for_good env s i \<longleftrightarrow> (\<forall>t s' now. t_id t = i \<longrightarrow>
     (\<forall>reason r. finalizeTradeCompletion env now t reason s \<noteq> Inr (r, s'))
   \<and> (\<forall>res pc decided a. finalizeTradeDispute env now t res pc decided s = Inr (a, s') \<longrightarrow> a = None))"

lemma final_settled:
  assumes "at_status s i st" and "trade_final st" and "distinct (map t_id (trades s))"
  shows "settled_for_good env s i"
proof -
  have none: "filter (\<lambda>t. t_id t = i \<and> t_status t = T_pending_release) (trades s) = []"
    "filter (\<lambda>t. t_id t = i \<and> t_status t = T_disputed) (trades s) = []"
    using assms(2) by (intro final_not_moved [OF assms(1,3)]; auto simp: trade_final_def)+
  have "\<not> finalizeTradeCompletion env now t reason s = Inr (r, s')" if "t_id t = i" for t now reason r s'
  proof
    assume "finalizeTradeCompletion env now t reason s = Inr (r, s')"
    from first_after [OF this [unfolded finalizeTradeCompletion_def]] obtain a s1 where
      s1: "assertTradeReleaseAllowed env (t_id t) reason s = Inr (a, s1)"
      and moved: "filter (\<lambda>r. t_id r = t_id t \<and> t_status r = T_pending_release) (trades s1) \<noteq> []"
      by (auto simp: move_trade_def)
    have "trades s1 = trades s" using sameD [OF same_acceptance(2) s1] .
    with moved none(1) that show False by simp
  qed
  moreover have "a = None" if "t_id t = i" "finalizeTradeDispute env now t res pc decided s = Inr (a, s')" for t now res pc decided a s'
  proof -
    have "filter (\<lambda>r. t_id r = t_id t \<and> t_status r = T_disputed) (trades s) = []" using none(2) that(1) by simp
    with that(2) show ?thesis
      by (simp add: finalizeTradeDispute_def Let_def bnd_def move_trade_def update_where_def ret_def del: not_None_eq)
  qed
  ultimately show ?thesis by (auto simp: settled_for_good_def)
qed

lemma final_stays_settled:
  assumes "(trade_operation env)\<^sup>*\<^sup>* s s'" and "separate env" and "money s" and "at_status s i st" and "trade_final st"
  shows "settled_for_good env s' i"
proof -
  from assms(4) obtain t where t: "trade_at s i = Some t" "t_status t = st" by (auto simp: at_status_def)
  with runs_run [OF assms(1,2)] obtain t' where t': "trade_at s' i = Some t'" "trade_move\<^sup>*\<^sup>* st (t_status t')"
    by (auto simp: trades_run_def)
  then have "t_status t' = st" using tm.final_stays assms(5) by blast
  with t' have "at_status s' i st" by (simp add: at_status_def)
  then show ?thesis using final_settled runs_money [OF assms(1-3)] assms(5) by (simp add: money_def)
qed

text \<open>
  C9. Completion.  Completing a trade paid in credit moves its whole price from the
  buyer's escrow to the seller, creates and destroys nothing and leaves nothing held;
  whatever happens afterwards, the same trade is neither completed again nor resolved.
\<close>

theorem completion_pays_once:
  assumes "money s" and "known s t" and "separate env" and "t_payment_rail t = Credit"
    and "finalizeTradeCompletion env now t reason s = Inr (r, s1)" and "(trade_operation env)\<^sup>*\<^sup>* s1 s2"
  shows "(\<forall>v. avail s1 v = avail s v + (if v = t_seller_id t then to_minor (t_amount t) else 0))
    \<and> (\<forall>v. escrowed s1 v = escrowed s v - (if v = t_buyer_id t then to_minor (t_amount t) else 0))
    \<and> total_credit s1 = total_credit s \<and> held s1 (t_buyer_id t) (t_id t) = 0
    \<and> settled_for_good env s2 (t_id t)"
proof -
  have m: "books s" "distinct (map t_id (trades s))" using assms(1) by (simp_all add: money_def)
  have paid: "after_payment (credit_view s) t 0 T_completed s1"
    using leadsD [OF completion_pays [OF assms(3,4)] _ assms(5)] m(2) by simp
  have m1: "money s1" using leadsD [OF completion_settles [OF assms(3,4)] _ assms(5)] assms(1,2) by simp
  have st: "at_status s1 (t_id t) T_completed" using paid by (simp add: after_payment_def)
  then obtain q where q: "q \<in> set (trades s1)" "t_id q = t_id t" "t_status q = T_completed"
    by (auto simp: at_status_def trade_at_def dest: find_Some_in)
  have "trades_run s s1" using alongD [OF completion_run [OF assms(3)] assms(5)] .
  then have "known s1 t" using assms(2) by (force simp: known_def trades_run_def)
  then have "terms q = terms t" using known_row [OF m1 _ q(1,2)] by blast
  with q m1 assms(4) have "held s1 (t_buyer_id t) (t_id t) = 0"
    by (auto simp: money_def trade_funds_def terms_def in_escrow_def)
  with after_payment_effect [OF paid m(1)] final_stays_settled [OF assms(6,3) m1 st] show ?thesis
    by (simp add: trade_final_def)
qed


section \<open>Prices\<close>

lemma of_minor_near:
  assumes "\<bar>x - of_int n / 100\<bar> \<le> 1 / 100000000" and "0 \<le> n" and "n \<le> 200000000"
  shows "round2 x = of_minor n" and "to_minor x = n"
proof -
  have N: "0 \<le> (of_int n :: rat)" "(of_int n :: rat) \<le> 200000000" using assms(2,3) by simp_all
  from jmul_error [OF assms(1), of 100 100 0 2000000 100] N
  have "\<bar>jmul x 100 - of_int n\<bar> < 1 / 2" by simp
  then have "jround (jmul x 100) = n" by (rule jround_near)
  then show "round2 x = of_minor n" "to_minor x = n" by (simp_all add: round2_def to_minor_def)
qed

definition fee_cents :: "int \<Rightarrow> int" where
  "fee_cents n = to_minor (jmul (of_minor n) DEV_FEE)"

lemma fee_cents_bounds:
  assumes "0 \<le> n" and "n \<le> 100000000"
  shows "0 \<le> fee_cents n" and "fee_cents n \<le> n" and "\<bar>of_int (fee_cents n) - of_int n * 5 / 100\<bar> \<le> (1 / 2 + 1 / 1000000 :: rat)"
proof -
  let ?x = "jmul (of_minor n) DEV_FEE"
  have N: "0 \<le> (of_int n :: rat)" "(of_int n :: rat) \<le> 100000000" using assms by simp_all
  have q: "\<bar>DEV_FEE - 5 / 100\<bar> \<le> 1 / 2 ^ 53" unfolding DEV_FEE_def using fl_error_abs [of "5 / 100" 1] by simp
  have small: "(1 :: rat) / 2 ^ 53 \<le> 1 / 1000" by simp
  have bq: "\<bar>DEV_FEE\<bar> \<le> 2" using q small by linarith
  have "\<bar>of_int n / 100 :: rat\<bar> \<le> 1000000" using N by simp
  from jmul_error [OF of_minor_error [OF assms] q this bq]
  have i: "\<bar>?x - of_int n / 100 * (5 / 100)\<bar> \<le> 3 / 1000000000" by simp
  have "\<bar>jmul ?x 100 - of_int n / 100 * (5 / 100) * 100\<bar> \<le> 1 / 1000000"
    using jmul_error [OF i, of 100 100 0 1000000 100] N by simp
  then have e: "\<bar>jmul ?x 100 - of_int n * 5 / 100\<bar> \<le> 1 / 1000000" by (simp add: field_simps)
  then show near: "\<bar>of_int (fee_cents n) - of_int n * 5 / 100\<bar> \<le> (1 / 2 + 1 / 1000000 :: rat)"
    unfolding fee_cents_def to_minor_def using jround_error [of "jmul ?x 100"] by linarith
  have "- 1 < (of_int (fee_cents n) :: rat)" using near N(1) by linarith
  then show "0 \<le> fee_cents n" by linarith
  show "fee_cents n \<le> n"
  proof (cases "n = 0")
    case True
    then have "(of_int n :: rat) = 0" by simp
    with near have "(of_int (fee_cents n) :: rat) < 1" by linarith
    then show ?thesis using True by linarith
  next
    case False
    with assms(1) have "1 \<le> n" by simp
    then have "(1 :: rat) \<le> of_int n" by simp
    then have "(of_int (fee_cents n) :: rat) < of_int n + 1" using near by linarith
    then show ?thesis by linarith
  qed
qed

text \<open>
  C32. Prices.  For a price in whole cents, up to a million dollars, the fee is five
  per cent to the nearest cent, the total is exactly price plus fee, and the three
  amounts convert back to the cents that the reservation adds up, so that the check
  of the reservation never refuses a price.
\<close>

theorem price_adds_up:
  assumes "0 < n" and "n \<le> 100000000"
  shows "\<exists>f. 0 \<le> f \<and> \<bar>of_int f - of_int n * 5 / 100\<bar> \<le> (1 / 2 + 1 / 1000000 :: rat)
    \<and> calculateTradeFinancials (of_minor n)
        = \<lparr>fi_platform_fee = of_minor f, fi_total_cost = of_minor (n + f), fi_seller_amount = of_minor n\<rparr>
    \<and> to_minor (of_minor n) = n \<and> to_minor (of_minor f) = f \<and> to_minor (of_minor (n + f)) = n + f"
proof -
  let ?f = "fee_cents n"
  have n: "0 \<le> n" using assms(1) by simp
  note f = fee_cents_bounds [OF n assms(2)]
  have fee: "round2 (jmul (of_minor n) DEV_FEE) = of_minor ?f" by (simp add: round2_minor fee_cents_def)
  have fb: "?f \<le> 100000000" using f(2) assms(2) by simp
  have F: "(of_int ?f :: rat) \<le> 100000000" "0 \<le> (of_int ?f :: rat)" "(of_int n :: rat) \<le> 100000000" "0 \<le> (of_int n :: rat)"
    using fb f(1) assms(2) n by simp_all
  have a: "\<bar>of_minor n - of_int n / 100\<bar> \<le> 1 / 1000000000" "\<bar>of_minor ?f - of_int ?f / 100\<bar> \<le> 1 / 1000000000"
    using of_minor_error [OF n assms(2)] of_minor_error [OF f(1) fb] by simp_all
  then have "\<bar>of_minor n + of_minor ?f\<bar> \<le> 2000001" using F by linarith
  from fl_error_abs [OF this] have "\<bar>jadd (of_minor n) (of_minor ?f) - (of_minor n + of_minor ?f)\<bar> \<le> 1 / 1000000000"
    unfolding jadd_def by simp
  with a have "\<bar>jadd (of_minor n) (of_minor ?f) - of_int (n + ?f) / 100\<bar> \<le> 1 / 100000000" unfolding of_int_add add_divide_distrib by linarith
  from of_minor_near(1) [OF this] have total: "round2 (jadd (of_minor n) (of_minor ?f)) = of_minor (n + ?f)" using n f fb assms(2) by simp
  have minor: "to_minor (of_minor k) = k" if "0 \<le> k" "k \<le> 200000000" for k using that by (intro to_minor_of_minor) simp
  show ?thesis
    using f fee total minor [of n] minor [of ?f] minor [of "n + ?f"] assms fb
    by (intro exI [of _ ?f]) (simp add: calculateTradeFinancials_def Let_def)
qed

lemma price_adds_up_witness:
  "\<exists>f. calculateTradeFinancials (of_minor 2000)
     = \<lparr>fi_platform_fee = of_minor f, fi_total_cost = of_minor (2000 + f), fi_seller_amount = of_minor 2000\<rparr> \<and> f = 100"
proof -
  from price_adds_up [of 2000] obtain f :: int where f: "\<bar>of_int f - 100\<bar> \<le> (1 / 2 + 1 / 1000000 :: rat)"
    "calculateTradeFinancials (of_minor 2000)
     = \<lparr>fi_platform_fee = of_minor f, fi_total_cost = of_minor (2000 + f), fi_seller_amount = of_minor 2000\<rparr>" by auto
  from f(1) have "(of_int f :: rat) < 101" "99 < (of_int f :: rat)" by linarith+
  then have "f = 100" by linarith
  with f(2) show ?thesis by blast
qed

section \<open>Examples\<close>

definition plain_env :: trade_env where
  "plain_env = \<lparr>te_deployment = plain_deployment, te_dev_wallet = None, te_agreed = (\<lambda>_ _. Inr None), te_original = (\<lambda>_ _. False),
     te_ineligible = (\<lambda>_ _ _. None), te_recorded = (\<lambda>_ _. ret ()), te_performed = (\<lambda>_. ret ()), te_decided = (\<lambda>_. ret ())\<rparr>"

lemma separate_plain: "separate plain_env"
  by (simp add: separate_def plain_env_def same_ret)

text \<open>A trade of twenty dollars in credit, at the given status.\<close>

definition market_trade :: "trade_status \<Rightarrow> trade" where
  "market_trade st = sample_trade\<lparr>t_status := st\<rparr>"

definition market_db :: "trade_status \<Rightarrow> db" where
  "market_db st = empty_db\<lparr>trades := [market_trade st],
     credit_accounts := [\<lparr>ca_user_id = ''user_agent_a1'', ca_available_minor = 0, ca_escrow_minor = 2000\<rparr>],
     credit_entries := [
       \<lparr>ce_user_id = ''user_agent_a1'', ce_reference = ''d1'', ce_kind = ''deposit'', ce_available_delta = 2000, ce_escrow_delta = 0, ce_created_at = 0\<rparr>,
       \<lparr>ce_user_id = ''user_agent_a1'', ce_reference = ''t1'', ce_kind = ''purchase'', ce_available_delta = - 2000, ce_escrow_delta = 2000, ce_created_at = 0\<rparr>]\<rparr>"

lemma money_market: "in_escrow st \<Longrightarrow> money (market_db st)"
  using to_minor_numeral [of "num.Bit0 (num.Bit0 (num.Bit1 (num.Bit0 num.One)))"]
  by (auto simp: money_def trade_funds_def books_def market_db_def market_trade_def sample_trade_def avail_def escrowed_def
      creditBalance_def held_def posted_def in_escrow_def)

lemma market_known: "known (market_db st) (market_trade st')" "trade_at (market_db st) ''t1'' = Some (market_trade st)"
  by (simp_all add: known_def trade_at_def market_db_def market_trade_def sample_trade_def terms_def)

lemmas eval_market = plain_env_def market_db_def market_trade_def sample_trade_def empty_db_tables eval_tx eval_table
  move_trade_def advanceServiceOrder_def endAttempts_def close_attempts_def set_routes_def releaseCapacity_def
  assertTradeReleaseAllowed_def requiredChecks_def lift_result_def closeEscrowSession_def journal_row_def Let_def

lemma market_completes:
  "\<exists>r s'. finalizeTradeCompletion plain_env 1000 (market_trade T_pending_release) Buyer_confirm (market_db T_pending_release) = Inr (r, s')"
proof -
  have m: "to_minor 20 = 2000" using to_minor_numeral by simp
  show ?thesis
    by (simp add: finalizeTradeCompletion_def eval_market isExternallyFundedTrade_def terminal_order_def eval_credit m)
qed

lemma market_resolves:
  "\<exists>r s'. finalizeTradeDispute plain_env 1000 (market_trade T_disputed) To_split 50 False (market_db T_disputed) = Inr (Some r, s')"
proof -
  have m: "to_minor 20 = 2000" using to_minor_numeral by simp
  have "trade_buyer_share (of_minor 2000) 50 = of_minor (2000 - trade_cents (of_minor 2000) 50)" "of_minor 2000 = (20 :: num)"
    "to_minor (trade_buyer_share (of_minor 2000) 50) = 2000 - trade_cents (of_minor 2000) 50"
    using trade_shares [of 2000 50] by (simp_all add: of_minor_def jdiv_def fl_numeral)
  moreover have "0 \<le> trade_cents (of_minor 2000) 50" "trade_cents (of_minor 2000) 50 \<le> 2000"
    using trade_cents_bounds [of 2000 50] by simp_all
  ultimately obtain k where k: "to_minor (trade_buyer_share 20 50) = 2000 - k" "0 \<le> k" "k \<le> 2000" by metis
  show ?thesis
    using k
    by (simp add: finalizeTradeDispute_def eval_market isExternallyFundedTrade_def terminal_order_def eval_credit m payShare_def)
qed

lemma market_operations:
  "\<exists>s'. trade_operation plain_env (market_db T_pending_release) s'"
  "\<exists>s'. trade_operation plain_env (market_db T_disputed) s'"
proof -
  obtain r s' where "finalizeTradeCompletion plain_env 1000 (market_trade T_pending_release) Buyer_confirm (market_db T_pending_release) = Inr (r, s')"
    using market_completes by blast
  from trade_operation.completed [OF this market_known(1)] show "\<exists>s'. trade_operation plain_env (market_db T_pending_release) s'" ..
  obtain q s'' where "finalizeTradeDispute plain_env 1000 (market_trade T_disputed) To_split 50 False (market_db T_disputed) = Inr (Some q, s'')"
    using market_resolves by blast
  from trade_operation.resolved [OF this market_known(1)] show "\<exists>s'. trade_operation plain_env (market_db T_disputed) s'" ..
qed

lemma trades_follow_the_machine_witness:
  "\<exists>s' t'. trade_operation plain_env (market_db T_disputed) s' \<and> trade_at s' ''t1'' = Some t'
     \<and> terms t' = terms (market_trade T_disputed) \<and> t_status t' \<noteq> T_completed"
proof -
  obtain s' where s': "trade_operation plain_env (market_db T_disputed) s'" using market_operations(2) by blast
  from trades_follow_the_machine [OF r_into_rtranclp [where r = "trade_operation plain_env", OF s'] separate_plain market_known(2)] s' show ?thesis
    by (auto simp: market_trade_def)
qed

lemma escrow_follows_the_trades_witness:
  "\<exists>s'. trade_operation plain_env (market_db T_pending_release) s' \<and> books s'
     \<and> (\<forall>t \<in> set (trades s'). t_payment_rail t = Credit \<longrightarrow>
          held s' (t_buyer_id t) (t_id t) = (if in_escrow (t_status t) then to_minor (t_amount t) else 0))"
proof -
  obtain s' where s': "trade_operation plain_env (market_db T_pending_release) s'" using market_operations(1) by blast
  from escrow_follows_the_trades [OF r_into_rtranclp [where r = "trade_operation plain_env", OF s'] separate_plain money_market] s' show ?thesis
    by (auto simp: in_escrow_def)
qed

lemma completion_pays_once_witness:
  "\<exists>s1. avail s1 ''user_agent_a2'' = 2000 \<and> held s1 ''user_agent_a1'' ''t1'' = 0 \<and> total_credit s1 = 2000
     \<and> settled_for_good plain_env s1 ''t1''"
proof -
  have m: "to_minor 20 = 2000" using to_minor_numeral by simp
  obtain r s1 where run: "finalizeTradeCompletion plain_env 1000 (market_trade T_pending_release) Buyer_confirm (market_db T_pending_release) = Inr (r, s1)"
    using market_completes by blast
  have "t_payment_rail (market_trade T_pending_release) = Credit" by (simp add: market_trade_def sample_trade_def)
  from completion_pays_once [OF money_market market_known(1) separate_plain this run rtranclp.rtrancl_refl] show ?thesis
    by (intro exI [of _ s1]) (simp add: in_escrow_def market_trade_def sample_trade_def m avail_def creditBalance_def market_db_def total_credit_def)
qed


end
