(* ===== verification/FundingSafety.thy ===== *)
theory FundingSafety
  imports TradeSafety
begin

text \<open>
  What the funding of a trade from outside and the gate before its release guarantee:
  a verified payment funds its trade or is kept for a refund, a payment proof counts
  once across trades and deposits, and an agreed acceptance gate cannot be passed by.
\<close>

section \<open>Release\<close>

lemma requiredChecks_Some:
  assumes "te_agreed env s i = Inr (Some a)" and "requiredChecks env s i = Inr c"
  obtains d where "delivery_of s i = Some d" and "c = Some (passed_check s i d ''buyer_review'', ac_exact_hash a)"
    and "\<And>m. m \<in> set (ac_methods a) \<Longrightarrow> m \<noteq> ''buyer_review'' \<Longrightarrow> passed_check s i d m"
    and "ac_json a \<Longrightarrow> passed_check s i d ''structure''"
    and "list_ex (\<lambda>p. pa_delivery_id p = Some (td_id d)) (private_artifacts s) \<Longrightarrow> passed_check s i d ''artifact_integrity''"
  using assms by (auto simp: requiredChecks_def Let_def list_all_iff split: option.splits if_splits)


text \<open>
  C27. Acceptance.  The buyer's review of a gated trade is marked as passed only when
  every other agreed check has passed, and, where the terms were reviewed, only when
  the decision names the hash of the delivery that is stored; it marks only results
  of a stored delivery that were pending.
\<close>

theorem acceptance_names_the_delivery:
  assumes "te_agreed env s i = Inr (Some a)" and "advanceBuyerReview env i V_passed h s = Inr (changed, s')"
  shows "\<exists>d. delivery_of s i = Some d \<and> (\<forall>m \<in> set (ac_methods a) - {''buyer_review''}. passed_check s i d m)
    \<and> (ac_exact_hash a \<longrightarrow> h \<noteq> None) \<and> (h \<noteq> None \<longrightarrow> h = Some (td_content_hash d))
    \<and> verification_results s' = map (\<lambda>r. if vr_trade_id r = i \<and> vr_delivery_id r \<noteq> None \<and> vr_method r = ''buyer_review''
        \<and> vr_status r = V_pending then r\<lparr>vr_status := V_passed\<rparr> else r) (verification_results s)"
proof -
  from assms(2) obtain x s1 where ready: "assertReadyForBuyerAcceptance env i h s = Inr (x, s1)"
    and upd: "s' = verification_results_update (\<lambda>_. set_rows (\<lambda>r. vr_trade_id r = i \<and> vr_delivery_id r \<noteq> None
        \<and> vr_method r = ''buyer_review'' \<and> vr_status r = V_pending) (\<lambda>r. r\<lparr>vr_status := V_passed\<rparr>) (verification_results s1)) s1"
    by (auto simp: advanceBuyerReview_def andthen_run bnd_run onlyif_def)
  have s1: "s1 = s" using sameD [OF same_acceptance(1) [where v = "\<lambda>s. s"] ready] .
  from ready obtain c where c: "requiredChecks env s i = Inr c"
    and exact: "\<not> ((case c of None \<Rightarrow> False | Some (_, exact) \<Rightarrow> exact) \<and> h = None)"
    and hash: "\<And>x. h = Some x \<Longrightarrow> case delivery_of s i of None \<Rightarrow> False | Some d \<Rightarrow> td_content_hash d = x"
    by (auto simp: assertReadyForBuyerAcceptance_def bnd_run andthen_run split: option.splits)
  from requiredChecks_Some [OF assms(1) c] obtain d where d: "delivery_of s i = Some d"
    "c = Some (passed_check s i d ''buyer_review'', ac_exact_hash a)"
    "\<And>m. m \<in> set (ac_methods a) \<Longrightarrow> m \<noteq> ''buyer_review'' \<Longrightarrow> passed_check s i d m" by blast
  have "h \<noteq> None \<longrightarrow> h = Some (td_content_hash d)" using hash d(1) by auto
  moreover have "ac_exact_hash a \<longrightarrow> h \<noteq> None" using exact d(2) by auto
  moreover have "verification_results s' = map (\<lambda>r. if vr_trade_id r = i \<and> vr_delivery_id r \<noteq> None \<and> vr_method r = ''buyer_review''
        \<and> vr_status r = V_pending then r\<lparr>vr_status := V_passed\<rparr> else r) (verification_results s)"
    unfolding upd s1 by (simp add: set_rows_def)
  ultimately show ?thesis using d by blast
qed

section \<open>Funding\<close>

text \<open>The trades and the receipts, which the parts around a funding leave alone.\<close>

definition funds_view :: "db \<Rightarrow> trade list \<times> payment_receipt list" where
  "funds_view s = (trades s, payment_receipts s)"

lemma same_funds_tables:
  "same funds_view (update_where listings listings_update p1 f1)"
  "same funds_view (update_where service_orders service_orders_update p10 f10)"
  "same funds_view (update_where service_definitions service_definitions_update p11 f11)"
  "same funds_view (update_where service_execution_attempts service_execution_attempts_update p12 f12)"
  "same funds_view (insert_ignore service_execution_attempts service_execution_attempts_update c12 ea)"
  "same funds_view (update_where route_plans route_plans_update p13 f13)"
  "same funds_view (insert_ignore webhook_deliveries webhook_deliveries_update c14 wd)"
  by (rule same_update_where same_insert_ignore; simp add: funds_view_def)+

lemma same_funds_release: "same funds_view (releaseCapacity now tid st)"
  unfolding releaseCapacity_def by (rule sameI) (auto simp: run_simps funds_view_def split: list.splits)

lemma same_funds_advance: "same funds_view (advanceServiceOrder now tid st)"
  unfolding advanceServiceOrder_def endAttempts_def close_attempts_def set_routes_def
  by (intro same_intros same_funds_tables same_funds_release)

lemma same_funds_notify: "same funds_view (notify_subscriber tid o' a w)"
  unfolding notify_subscriber_def Let_def
  by (rule sameI) (auto simp: run_simps funds_view_def split: if_splits option.splits)

lemma same_funds_dispatch: "same funds_view (queueFundedWorkOrder now fresh tid sid)"
  unfolding queueFundedWorkOrder_def queueServiceExecutionAttempt_def
  by (auto split: prod.split intro!: same_intros same_sum_each same_funds_notify same_funds_tables)

lemma same_funds_reopen: "same funds_view (reopenListing env t)"
  unfolding reopenListing_def by (intro same_intros same_funds_tables)

lemmas same_funds = same_funds_tables same_funds_advance same_funds_dispatch same_funds_reopen

definition recording_apart :: "trade_env \<Rightarrow> bool" where
  "recording_apart env \<longleftrightarrow> (\<forall>i b. same funds_view (te_recorded env i b))"

lemma recording_apartD: "recording_apart env \<Longrightarrow> same funds_view (te_recorded env i b)"
  by (simp add: recording_apart_def)

lemma keeps_funds:
  assumes "same funds_view m" and "\<And>s s'. funds_view s' = funds_view s \<Longrightarrow> P s \<Longrightarrow> P s'"
  shows "keeps P m"
  using assms unfolding keeps_def same_def by blast

text \<open>The receipt list and the status of one trade.\<close>

definition standing :: "payment_receipt list \<Rightarrow> id \<Rightarrow> trade_status \<Rightarrow> db \<Rightarrow> bool" where
  "standing rs i st s \<longleftrightarrow> payment_receipts s = rs \<and> at_status s i st"

lemma keeps_standing: "same funds_view m \<Longrightarrow> keeps (standing rs i st) m"
  by (rule keeps_funds) (simp_all add: standing_def funds_view_def at_status_def trade_at_def)

definition proof_unused :: "external_funding \<Rightarrow> payment_receipt list \<Rightarrow> bool" where
  "proof_unused p rs \<longleftrightarrow> (\<forall>q \<in> set rs. \<not> clashes (pr_tx_hash q) (ef_tx_hash p) \<and> pr_trade_id q \<noteq> Some (t_id (ef_trade p))
     \<and> \<not> (pr_payment_rail q = Some (ef_rail p) \<and> pr_external_id q = Some (ef_external_id p)))"

lemma insertReceipt_run:
  "insertReceipt p s = Inr (x, s') \<longleftrightarrow> proof_unused p (payment_receipts s)
     \<and> s' = payment_receipts_update (\<lambda>_. payment_receipts s @ [paymentReceiptValues p]) s"
  by (auto simp: insertReceipt_def Let_def proof_unused_def paymentReceiptValues_def clashes_def list_ex_iff)

lemma leads_receipt: "leads (standing rs i st) (insertReceipt p) (\<lambda>_ s. standing (rs @ [paymentReceiptValues p]) i st s \<and> proof_unused p rs)"
  by (auto simp: leads_def insertReceipt_run standing_def at_status_def trade_at_def)

definition recorded :: "external_funding \<Rightarrow> payment_receipt list \<Rightarrow> trade_status \<Rightarrow> db \<Rightarrow> bool" where
  "recorded p rs st s \<longleftrightarrow> standing (rs @ [paymentReceiptValues p]) (t_id (ef_trade p)) st s \<and> proof_unused p rs"

lemma keeps_recorded: "same funds_view m \<Longrightarrow> keeps (recorded p rs st) m"
  by (rule keeps_funds) (simp_all add: recorded_def standing_def funds_view_def at_status_def trade_at_def)

lemma leads_recorded: "leads (standing rs (t_id (ef_trade p)) st) (insertReceipt p) (\<lambda>_. recorded p rs st)"
  unfolding recorded_def by (rule leads_receipt)

lemmas leads_move_receipts = leads_move_view [where v = payment_receipts, folded standing_def]

lemma accept_funds:
  assumes "recording_apart env"
  shows "leads (\<lambda>s. payment_receipts s = rs \<and> distinct (map t_id (trades s))) (acceptFunding env now fresh p current)
    (\<lambda>a s. snd a = None \<and> recorded p rs T_escrow_held s)"
  unfolding acceptFunding_def
proof (rule leads_bnd [OF leads_move_receipts [where new = T_escrow_held]], goal_cases)
  case (4 rows)
  show ?case
  proof (rule leads_bnd [OF leads_first_or], goal_cases)
    case (1 funded)
    show ?case
      by (rule leads_keep_andthen [OF keeps_standing [OF same_funds_advance]], rule leads_andthen [OF leads_recorded],
          rule leads_keep_andthen [OF keeps_recorded [OF recording_apartD [OF assms]]],
          rule leads_keep_bnd [OF keeps_recorded [OF same_funds_dispatch]])
        (simp add: leads_def)
  qed
qed simp_all

lemma reject_funds:
  assumes "recording_apart env" and "t_id current = t_id (ef_trade p)"
  shows "leads (\<lambda>s. payment_receipts s = rs \<and> distinct (map t_id (trades s))) (rejectFunding env now p current reason)
    (\<lambda>a s. snd a = Some reason \<and> recorded p rs T_cancelled s)"
  unfolding rejectFunding_def assms(2)
proof (rule leads_bnd [OF leads_move_receipts [where new = T_cancelled]], goal_cases)
  case (4 rows)
  show ?case
  proof (rule leads_bnd [OF leads_first_or], goal_cases)
    case (1 cancelled)
    show ?case
      by (rule leads_keep_andthen [OF keeps_standing [OF same_funds_advance]],
          rule leads_keep_andthen [OF keeps_standing [OF same_funds_reopen]], rule leads_andthen [OF leads_recorded],
          rule leads_keep_andthen [OF keeps_recorded [OF recording_apartD [OF assms(1)]]])
        (simp add: leads_def)
  qed
qed simp_all

lemma commit_funds:
  assumes "recording_apart env" and "distinct (map t_id (trades s))" and run: "fundingCommit env now fresh p s = Inr ((t, reason), s')"
  shows "recorded p (payment_receipts s) (if reason = None then T_escrow_held else T_cancelled) s'"
    and "at_status s (t_id (ef_trade p)) T_pending"
proof -
  let ?i = "t_id (ef_trade p)"
  from run obtain current where cur: "find (\<lambda>t. t_id t = ?i) (trades s) = Some current" "t_status current = T_pending"
    and rest: "(\<exists>r. rejectFunding env now p current r s = Inr ((t, reason), s'))
      \<or> acceptFunding env now fresh p current s = Inr ((t, reason), s')"
    unfolding fundingCommit_def by (auto simp: run_simps split: if_splits option.splits)
  then show "at_status s ?i T_pending" by (simp add: at_status_def trade_at_def)
  have i: "t_id current = ?i" using cur(1) by (auto dest: find_Some_in)
  from rest show "recorded p (payment_receipts s) (if reason = None then T_escrow_held else T_cancelled) s'"
    using leadsD [OF reject_funds [OF assms(1) i]] leadsD [OF accept_funds [OF assms(1)]] assms(2) by fastforce
qed

lemma cancelled_funds:
  assumes "recording_apart env" and "distinct (map t_id (trades s))" and run: "cancelledFunding env now p s = Inr (t, s')"
  shows "recorded p (payment_receipts s) T_cancelled s'"
proof -
  have "leads (\<lambda>u. payment_receipts u = payment_receipts s \<and> distinct (map t_id (trades u))) (cancelledFunding env now p)
      (\<lambda>_. recorded p (payment_receipts s) T_cancelled)"
    unfolding cancelledFunding_def
  proof (rule leads_bnd [OF leads_move_receipts [where new = T_cancelled]], goal_cases)
    case (4 rows)
    show ?case
    proof (rule leads_bnd [OF leads_first_or], goal_cases)
      case (1 r)
      show ?case
        by (rule leads_andthen [OF leads_recorded], rule leads_keep_andthen [OF keeps_recorded [OF recording_apartD [OF assms(1)]]])
          (simp add: leads_def)
    qed
  qed simp_all
  from leadsD [OF this _ run] assms(2) show ?thesis by simp
qed

lemma move_none:
  assumes "move_trade i st f s = Inr ([], s')"
  shows "s' = s"
proof -
  define q where "q = (\<lambda>t :: trade. t_id t = i \<and> t_status t = st)"
  have "filter q (trades s) = []" and s': "s' = trades_update (\<lambda>_. set_rows q f (trades s)) s"
    using assms by (simp_all add: move_trade_def q_def)
  then have "set_rows q f (trades s) = trades s" by (intro set_rows_id) (auto simp: filter_empty_conv)
  with s' show ?thesis by simp
qed

lemma expire_outcome:
  assumes "distinct (map t_id (trades s))" and run: "expireTradePayment env now t s = Inr (x, s')"
  shows "payment_receipts s' = payment_receipts s"
    and "(x = None \<and> s' = s) \<or> (x \<noteq> None \<and> at_status s' (t_id t) T_cancelled)"
proof -
  have "leads (\<lambda>u. payment_receipts u = payment_receipts s \<and> distinct (map t_id (trades u))) (expireTradePayment env now t)
      (\<lambda>x s'. x \<noteq> None \<longrightarrow> standing (payment_receipts s) (t_id t) T_cancelled s')"
    unfolding expireTradePayment_def
  proof (rule leads_bnd [OF leads_move_receipts [where new = T_cancelled]], goal_cases)
    case (4 rows)
    show ?case
    proof (rule leads_cases, goal_cases)
      case 1
      show ?case by (simp add: leads_def)
    next
      case (2 r others)
      show ?case
        by (rule leads_keep_andthen [OF keeps_standing [OF same_funds_advance]],
            rule leads_keep_andthen [OF keeps_standing [OF same_funds_reopen]]) (simp add: leads_def)
    qed
  qed simp_all
  from leadsD [OF this _ run] assms(1) have some: "x \<noteq> None \<Longrightarrow> standing (payment_receipts s) (t_id t) T_cancelled s'" by simp
  have none: "s' = s" if "x = None"
  proof -
    from run obtain rows s1 where m: "move_trade (t_id t) T_pending (\<lambda>r. r\<lparr>t_status := T_cancelled\<rparr>) s = Inr (rows, s1)"
      and r: "(case rows of [] \<Rightarrow> ret None | r # _ \<Rightarrow>
        andthen (advanceServiceOrder now (t_id t) O_cancelled) (andthen (reopenListing env t) (ret (Some r)))) s1 = Inr (x, s')"
      unfolding expireTradePayment_def bnd_run by blast
    have "rows = []" "s' = s1" using r that by (auto simp: andthen_run split: list.splits)
    with m move_none show ?thesis by blast
  qed
  show "payment_receipts s' = payment_receipts s" using some none by (cases x) (auto simp: standing_def)
  show "(x = None \<and> s' = s) \<or> (x \<noteq> None \<and> at_status s' (t_id t) T_cancelled)"
    using some none by (cases x) (auto simp: standing_def)
qed

text \<open>
  C11. A verified payment is never lost.  Whatever the outcome of recording it, the
  trade is in escrow with this receipt, or it is cancelled with this receipt, which
  the refund reads, or nothing changed; only a payment after the deadline is turned
  away without a receipt, and then the unpaid trade is cancelled.
\<close>

theorem funding_outcome:
  assumes "distinct (map t_id (trades s))" and "recording_apart env"
    and "recordExternalTradeFunding env now fresh p s = (answer, s')"
  shows "case answer of
      Inr t \<Rightarrow> (t = ef_trade p \<and> t_status t = T_escrow_held \<and> s' = s) \<or> recorded p (payment_receipts s) T_escrow_held s'
    | Inl e \<Rightarrow> s' = s \<or> recorded p (payment_receipts s) T_cancelled s'
        \<or> (paymentDeadlinePassed now (ef_trade p) \<and> e = TradeFundingError ''CHECKOUT_EXPIRED'' 410
            \<and> payment_receipts s' = payment_receipts s \<and> at_status s' (t_id (ef_trade p)) T_cancelled)"
proof -
  consider (other) "t_status (ef_trade p) \<noteq> T_pending"
    | (late) "t_status (ef_trade p) = T_pending" "paymentDeadlinePassed now (ef_trade p)"
    | (pending) "t_status (ef_trade p) = T_pending" "\<not> paymentDeadlinePassed now (ef_trade p)" by blast
  then show ?thesis
  proof cases
    case other
    with assms(3) show ?thesis by (auto simp: recordExternalTradeFunding_def Let_def split: if_splits)
  next
    case late
    show ?thesis
    proof (cases "expireTradePayment env now (ef_trade p) s")
      case (Inl e)
      with assms(3) late show ?thesis by (auto simp: recordExternalTradeFunding_def transaction_def)
    next
      case (Inr q)
      then obtain x s1 where run: "expireTradePayment env now (ef_trade p) s = Inr (x, s1)" by (cases q) auto
      with assms(3) late have "answer = Inl (TradeFundingError ''CHECKOUT_EXPIRED'' 410)" "s' = s1"
        by (auto simp: recordExternalTradeFunding_def transaction_def)
      with expire_outcome [OF assms(1) run] late show ?thesis by auto
    qed
  next
    case pending
    show ?thesis
    proof (cases "fundingCommit env now fresh p s")
      case (Inl e)
      then have "s' = s" "\<exists>e'. answer = Inl e'"
        using assms(3) pending by (auto simp: recordExternalTradeFunding_def transaction_def Let_def split: if_splits)
      then show ?thesis by auto
    next
      case (Inr q)
      then obtain t reason s1 where run: "fundingCommit env now fresh p s = Inr ((t, reason), s1)" by (cases q) auto
      with commit_funds(1) [OF assms(2,1) run] assms(3) pending show ?thesis
        by (auto simp: recordExternalTradeFunding_def transaction_def split: option.splits)
    qed
  qed
qed

section \<open>One proof, one use\<close>

text \<open>The transactions that take a payment with a given transaction hash: as a trade's funding, for its refund, or as a deposit.\<close>

inductive proof_spent :: "trade_env \<Rightarrow> string \<Rightarrow> db \<Rightarrow> db \<Rightarrow> bool" for env h where
  funded_trade: "fundingCommit env now fresh p s = Inr (a, s') \<Longrightarrow> ef_tx_hash p = Some h \<Longrightarrow> proof_spent env h s s'"
| paid_cancelled: "cancelledFunding env now p s = Inr (t, s') \<Longrightarrow> ef_tx_hash p = Some h \<Longrightarrow> proof_spent env h s s'"
| credited: "commitDeposit now u intent h tokens s = Inr (d, s') \<Longrightarrow>
    find (\<lambda>d. cd_id d = cd_id intent) (credit_deposits s) = Some cur \<Longrightarrow> cd_state cur = Deposit_pending \<Longrightarrow> proof_spent env h s s'"

definition proof_known :: "db \<Rightarrow> string \<Rightarrow> bool" where
  "proof_known s h \<longleftrightarrow> (\<exists>q \<in> set (payment_receipts s). pr_tx_hash q = Some h)"

lemma recorded_proof: "recorded p rs st s \<Longrightarrow> ef_tx_hash p = Some h \<Longrightarrow> proof_known s h"
  by (auto simp: recorded_def standing_def proof_known_def paymentReceiptValues_def)

lemma unused_proof: "recorded p (payment_receipts s) st s' \<Longrightarrow> ef_tx_hash p = Some h \<Longrightarrow> \<not> proof_known s h"
  by (auto simp: recorded_def proof_unused_def proof_known_def clashes_def)

lemma same_receipts_change: "same payment_receipts (changeCredit now u r k a e)"
  by (rule same_beside [OF same_changeCredit]) simp

lemma deposit_spends:
  assumes "commitDeposit now u intent h tokens s = Inr (d, s')"
    and "find (\<lambda>d. cd_id d = cd_id intent) (credit_deposits s) = Some cur" and "cd_state cur = Deposit_pending"
  shows "\<not> proof_known s h" and "proof_known s' h"
  using assms
  by (auto simp: commitDeposit_def run_simps proof_known_def find_None_iff dest!: sameD [OF same_receipts_change])

lemma spent_known:
  assumes "proof_spent env h s s'" and "recording_apart env" and "distinct (map t_id (trades s))"
  shows "\<not> proof_known s h" and "proof_known s' h"
proof -
  have "\<not> proof_known s h \<and> proof_known s' h"
    using assms
  proof (induction rule: proof_spent.induct)
    case (funded_trade now fresh p s a s')
    obtain t reason where a: "a = (t, reason)" by (cases a)
    from commit_funds(1) [OF funded_trade(3,4) funded_trade(1) [unfolded a]] funded_trade(2)
    show ?case using recorded_proof unused_proof by blast
  next
    case (paid_cancelled now p s t s')
    from cancelled_funds [OF paid_cancelled(3,4,1)] paid_cancelled(2)
    show ?case using recorded_proof unused_proof by blast
  next
    case credited
    then show ?case using deposit_spends by blast
  qed
  then show "\<not> proof_known s h" "proof_known s' h" by blast+
qed

text \<open>
  C13. One proof, one use.  A transaction hash that has funded a trade, or was kept for
  the refund of a cancelled one, or was credited as a deposit, is refused in all three
  roles as long as its receipt stands.
\<close>

theorem payment_proof_used_once:
  assumes "proof_spent env h s s1" and "recording_apart env" and "distinct (map t_id (trades s))"
    and "set (payment_receipts s1) \<subseteq> set (payment_receipts s2)" and "distinct (map t_id (trades s2))"
  shows "\<not> proof_spent env h s2 s3"
proof
  assume "proof_spent env h s2 s3"
  then have "\<not> proof_known s2 h" using spent_known(1) assms(2,5) by blast
  moreover have "proof_known s1 h" using spent_known(2) assms(1-3) by blast
  ultimately show False using assms(4) by (auto simp: proof_known_def)
qed




section \<open>Examples\<close>

text \<open>A delivered trade with a gate: a review and a check of the sources, on the exact content.\<close>

definition gated_env :: trade_env where
  "gated_env = plain_env\<lparr>te_agreed := (\<lambda>_ _. Inr (Some \<lparr>ac_methods = [''buyer_review'', ''source_urls''], ac_json = False, ac_exact_hash = True\<rparr>))\<rparr>"

definition gated_db :: "verification_status \<Rightarrow> db" where
  "gated_db st = (market_db T_pending_release)\<lparr>
     trade_deliveries := [\<lparr>td_id = ''v1'', td_trade_id = ''t1'', td_content_hash = ''h1''\<rparr>],
     verification_results := [
       \<lparr>vr_trade_id = ''t1'', vr_delivery_id = Some ''v1'', vr_content_hash = ''h1'', vr_method = ''source_urls'', vr_status = V_passed\<rparr>,
       \<lparr>vr_trade_id = ''t1'', vr_delivery_id = Some ''v1'', vr_content_hash = ''h1'', vr_method = ''buyer_review'', vr_status = st\<rparr>]\<rparr>"

lemmas eval_gate = gated_env_def gated_db_def delivery_of_def passed_check_def


lemma acceptance_names_the_delivery_witness:
  "\<exists>s' :: db. verification_results s' = verification_results (gated_db V_passed) \<and> delivery_of (gated_db V_pending) ''t1'' \<noteq> None"
proof -
  have "\<exists>s'. advanceBuyerReview gated_env ''t1'' V_passed (Some ''h1'') (gated_db V_pending) = Inr (True, s')"
    by (simp add: advanceBuyerReview_def assertReadyForBuyerAcceptance_def eval_gate eval_market)
  then obtain s' where "advanceBuyerReview gated_env ''t1'' V_passed (Some ''h1'') (gated_db V_pending) = Inr (True, s')" by blast
  note run = this
  have a: "te_agreed gated_env (gated_db V_pending) ''t1''
      = Inr (Some \<lparr>ac_methods = [''buyer_review'', ''source_urls''], ac_json = False, ac_exact_hash = True\<rparr>)" by (simp add: gated_env_def)
  from acceptance_names_the_delivery [OF a run] show ?thesis
    by - (rule exI [of _ s'], auto simp: gated_db_def)
qed

text \<open>A reservation to be paid on the network, and its payment.\<close>

definition reservation :: trade where
  "reservation = sample_trade\<lparr>t_status := T_pending, t_payment_rail := Mpp, t_payment_due_at := Some 1800000\<rparr>"

definition arrival :: external_funding where
  "arrival = \<lparr>ef_trade = reservation, ef_rail = Mpp, ef_tx_hash = Some ''0xaa'', ef_external_id = ''e1'', ef_payer_address = ''0xb'',
     ef_token_address = ''0xc'', ef_chain_id = 4217, ef_token_symbol = ''pathUSD'', ef_token_decimals = 6, ef_token_amount = 20000000,
     ef_token_usd_price = 1, ef_usd_value = 20\<rparr>"

definition reserved_db :: db where
  "reserved_db = empty_db\<lparr>trades := [reservation]\<rparr>"

lemma recording_plain: "recording_apart plain_env"
  by (simp add: recording_apart_def plain_env_def same_ret)

lemma distinct_reserved: "distinct (map t_id (trades reserved_db))"
  by (simp add: reserved_db_def)

lemma arrival_funds:
  "\<exists>a s'. fundingCommit plain_env 1000 ''x1'' arrival reserved_db = Inr (a, s') \<and> snd a = None"
  by (simp add: fundingCommit_def acceptFunding_def arrival_def reservation_def reserved_db_def eval_market paymentDeadlinePassed_def
      terminal_order_def insertReceipt_def paymentReceiptValues_def queueFundedWorkOrder_def)

lemma funding_outcome_witness:
  "\<exists>t s'. recordExternalTradeFunding plain_env 1000 ''x1'' arrival reserved_db = (Inr t, s') \<and> recorded arrival [] T_escrow_held s'"
proof -
  obtain a s' where run: "fundingCommit plain_env 1000 ''x1'' arrival reserved_db = Inr (a, s')" "snd a = None" using arrival_funds by blast
  then have r: "recordExternalTradeFunding plain_env 1000 ''x1'' arrival reserved_db = (Inr (fst a), s')"
    by (cases a) (simp add: recordExternalTradeFunding_def transaction_def arrival_def reservation_def paymentDeadlinePassed_def Let_def)
  have "t_status (ef_trade arrival) = T_pending" "payment_receipts reserved_db = []"
    by (simp_all add: arrival_def reservation_def reserved_db_def)
  with funding_outcome [OF distinct_reserved recording_plain r] r show ?thesis by auto
qed

lemma payment_proof_used_once_witness:
  "\<exists>s1. proof_spent plain_env ''0xaa'' reserved_db s1 \<and> (\<forall>s2. \<not> proof_spent plain_env ''0xaa'' s1 s2)"
proof -
  obtain a s1 where run: "fundingCommit plain_env 1000 ''x1'' arrival reserved_db = Inr (a, s1)" using arrival_funds by blast
  have spent: "proof_spent plain_env ''0xaa'' reserved_db s1" by (rule proof_spent.funded_trade [OF run]) (simp add: arrival_def)
  have "distinct (map t_id (trades s1))"
    using run by (auto simp: fundingCommit_def acceptFunding_def arrival_def reservation_def reserved_db_def eval_market paymentDeadlinePassed_def
      terminal_order_def insertReceipt_def paymentReceiptValues_def queueFundedWorkOrder_def)
  from payment_proof_used_once [OF spent recording_plain distinct_reserved order_refl this] spent show ?thesis by blast
qed


end
