(* ===== verification/VerificationPolicy.thy ===== *)
theory VerificationPolicy
  imports JsJson SpendPolicy
begin

text \<open>
  The bounded JSON schemas of \<open>lib/verification-policy.ts\<close>: how a schema is read
  from JSON, how an artifact is checked against it, and the typing relation that
  the check decides.  An artifact is the entries of a parsed JSON object, in
  order; a JSON number is a finite one.
\<close>

section \<open>Schemas\<close>

definition field_type_name :: "field_type \<Rightarrow> string" where
  "field_type_name t = (case t of F_string \<Rightarrow> ''string'' | F_number \<Rightarrow> ''number'' | F_integer \<Rightarrow> ''integer''
     | F_boolean \<Rightarrow> ''boolean'' | F_object \<Rightarrow> ''object'' | F_array \<Rightarrow> ''array'' | F_null \<Rightarrow> ''null'')"

definition field_types :: "field_type list" where
  "field_types = [F_string, F_number, F_integer, F_boolean, F_object, F_array, F_null]"

text \<open>\<open>z.object({ type: z.enum(...) }).strict()\<close>.\<close>

definition fieldSchema :: "json \<Rightarrow> field_type option" where
  "fieldSchema v = (case v of
     J_obj [(k, J_str t)] \<Rightarrow> if k = ''type'' then find (\<lambda>f. field_type_name f = t) field_types else None
   | _ \<Rightarrow> None)"

definition key_input :: "string \<Rightarrow> string option" where
  "key_input k = (if 1 \<le> length k \<and> length k \<le> 100 then Some k else None)"

text \<open>\<open>z.record\<close> passes over a property of the name \<open>__proto__\<close>.\<close>

definition properties_input :: "json option \<Rightarrow> (string \<times> field_type) list option" where
  "properties_input v = (case v of
     None \<Rightarrow> Some []
   | Some (J_obj es) \<Rightarrow> parse_list (\<lambda>(k, d). Option.bind (key_input k) (\<lambda>k. map_option (Pair k) (fieldSchema d)))
       (filter (\<lambda>(k, d). k \<noteq> ''__proto__'') es)
   | _ \<Rightarrow> None)"

definition required_key :: "json \<Rightarrow> string option" where
  "required_key v = (case v of J_str k \<Rightarrow> key_input k | _ \<Rightarrow> None)"

definition required_input :: "json option \<Rightarrow> string list option" where
  "required_input v = (case v of
     None \<Rightarrow> Some []
   | Some (J_arr xs) \<Rightarrow> if length xs \<le> 30 then parse_list required_key xs else None
   | _ \<Rightarrow> None)"

definition additional_input :: "json option \<Rightarrow> bool option option" where
  "additional_input v = (case v of None \<Rightarrow> Some None | Some (J_bool b) \<Rightarrow> Some (Some b) | _ \<Rightarrow> None)"

definition schema_keys :: "string list" where
  "schema_keys = [''type'', ''properties'', ''required'', ''additionalProperties'']"

definition declares :: "(string \<times> 'a) list \<Rightarrow> string \<Rightarrow> bool" where
  "declares ps k \<longleftrightarrow> map_of ps k \<noteq> None"

definition outputSchemaV1 :: "json \<Rightarrow> output_schema option" where
  "outputSchemaV1 v = (case v of
     J_obj es \<Rightarrow>
       if own_entry ''type'' es = Some (J_str ''object'') \<and> list_all (\<lambda>(k, d). k \<in> set schema_keys) es then
         Option.bind (properties_input (own_entry ''properties'' es)) (\<lambda>ps.
         Option.bind (required_input (own_entry ''required'' es)) (\<lambda>rs.
         Option.bind (additional_input (own_entry ''additionalProperties'' es)) (\<lambda>a.
           if list_all (declares ps) rs
           then Some \<lparr>os_properties = ps, os_required = rs, os_additional = a\<rparr> else None)))
       else None
   | _ \<Rightarrow> None)"

text \<open>The JSON value of a schema, as \<open>JSON.parse\<close> of the stored column gives it.\<close>

definition schema_json :: "output_schema \<Rightarrow> json" where
  "schema_json sc = J_obj ([(''type'', J_str ''object''),
      (''properties'', J_obj (map (\<lambda>(k, t). (k, J_obj [(''type'', J_str (field_type_name t))])) (os_properties sc))),
      (''required'', J_arr (map J_str (os_required sc)))]
    @ (case os_additional sc of None \<Rightarrow> [] | Some b \<Rightarrow> [(''additionalProperties'', J_bool b)]))"

section \<open>The check\<close>

definition matchesType :: "json \<Rightarrow> field_type \<Rightarrow> bool" where
  "matchesType v t = (case t of
     F_string \<Rightarrow> (case v of J_str _ \<Rightarrow> True | _ \<Rightarrow> False)
   | F_number \<Rightarrow> (case v of J_num _ \<Rightarrow> True | _ \<Rightarrow> False)
   | F_integer \<Rightarrow> (case v of J_num n \<Rightarrow> n = of_int \<lfloor>n\<rfloor> \<and> safe_int \<lfloor>n\<rfloor> | _ \<Rightarrow> False)
   | F_boolean \<Rightarrow> (case v of J_bool _ \<Rightarrow> True | _ \<Rightarrow> False)
   | F_object \<Rightarrow> (case v of J_obj _ \<Rightarrow> True | _ \<Rightarrow> False)
   | F_array \<Rightarrow> (case v of J_arr _ \<Rightarrow> True | _ \<Rightarrow> False)
   | F_null \<Rightarrow> v = J_null)"

text \<open>
  \<open>VerificationResult\<close>; the verifier and the version of a check that ran are
  constants.  The evidence is the object of the source.
\<close>

record check_outcome =
  vo_method :: string
  vo_status :: verification_status
  vo_score :: num
  vo_evidence :: "(string \<times> json) list"
  vo_failure :: "string option"

definition entry_failure :: "output_schema \<Rightarrow> string \<times> json \<Rightarrow> string list" where
  "entry_failure sc = (\<lambda>(k, v). case map_of (os_properties sc) k of
      None \<Rightarrow> if os_additional sc = Some False then [''unexpected:'' @ k] else []
    | Some t \<Rightarrow> if matchesType v t then [] else [''type:'' @ k])"

definition schema_failures :: "(string \<times> json) list option \<Rightarrow> output_schema \<Rightarrow> string list" where
  "schema_failures artifact sc = (case artifact of
     None \<Rightarrow> [''artifact_required'']
   | Some es \<Rightarrow> map (\<lambda>k. ''missing:'' @ k) (filter (\<lambda>k. own_entry k es = None) (os_required sc))
       @ concat (map (entry_failure sc) es))"

definition verifyOutputSchema :: "(string \<times> json) list option \<Rightarrow> json \<Rightarrow> check_outcome option" where
  "verifyOutputSchema artifact schemaInput = map_option (\<lambda>sc. let failures = schema_failures artifact sc in
     \<lparr>vo_method = ''schema'', vo_status = (if failures \<noteq> [] then V_failed else V_passed),
      vo_score = (if failures \<noteq> [] then 0 else 1),
      vo_evidence = [(''schema_kind'', J_str ''bounded-json-schema-v1''),
        (''checked_properties'', J_num (of_nat (length (os_properties sc))))],
      vo_failure = (if failures \<noteq> [] then Some (separated failures) else None)\<rparr>) (outputSchemaV1 schemaInput)"

datatype input_status = Input_valid | Input_invalid | Input_unsupported

definition checkServiceInput :: "(string \<times> json) list \<Rightarrow> json \<Rightarrow> input_status \<times> string option" where
  "checkServiceInput input schemaInput =
    (if schemaInput = J_obj [] then (Input_valid, None)
     else (case outputSchemaV1 schemaInput of
        None \<Rightarrow> (Input_unsupported, Some ''unsupported_input_schema'')
      | Some sc \<Rightarrow> (case verifyOutputSchema (Some input) (schema_json sc) of
          None \<Rightarrow> (Input_unsupported, None)
        | Some r \<Rightarrow> (if vo_status r = V_passed then Input_valid else Input_invalid, vo_failure r))))"

section \<open>Typing\<close>

text \<open>What the check decides: a typing relation between JSON values and field types, and its lifting to objects.\<close>

inductive has_type :: "json \<Rightarrow> field_type \<Rightarrow> bool" where
  typed_string: "has_type (J_str s) F_string"
| typed_number: "has_type (J_num n) F_number"
| typed_integer: "safe_int i \<Longrightarrow> has_type (J_num (of_int i)) F_integer"
| typed_boolean: "has_type (J_bool b) F_boolean"
| typed_object: "has_type (J_obj es) F_object"
| typed_array: "has_type (J_arr xs) F_array"
| typed_null: "has_type J_null F_null"

inductive_simps has_type_simps:
  "has_type v F_string" "has_type v F_number" "has_type v F_integer" "has_type v F_boolean"
  "has_type v F_object" "has_type v F_array" "has_type v F_null"

definition well_typed :: "output_schema \<Rightarrow> (string \<times> json) list \<Rightarrow> bool" where
  "well_typed sc es \<longleftrightarrow> set (os_required sc) \<subseteq> fst ` set es
     \<and> (\<forall>(k, v) \<in> set es. case map_of (os_properties sc) k of
          None \<Rightarrow> os_additional sc \<noteq> Some False | Some t \<Rightarrow> has_type v t)"

lemma matchesType_iff: "matchesType v t \<longleftrightarrow> has_type v t"
proof (cases t)
  case F_integer
  show ?thesis unfolding F_integer matchesType_def has_type_simps
    by (cases v) (auto simp: floor_of_int intro!: exI [of _ "\<lfloor>_\<rfloor>"])
qed (cases v; simp add: matchesType_def has_type_simps)+

lemma entry_failure_Nil: "entry_failure sc (k, v) = [] \<longleftrightarrow>
    (case map_of (os_properties sc) k of None \<Rightarrow> os_additional sc \<noteq> Some False | Some t \<Rightarrow> has_type v t)"
  by (simp add: entry_failure_def matchesType_iff split: option.split)

lemma schema_failures_Nil: "schema_failures (Some es) sc = [] \<longleftrightarrow> well_typed sc es"
proof -
  have "filter (\<lambda>k. own_entry k es = None) (os_required sc) = [] \<longleftrightarrow> set (os_required sc) \<subseteq> fst ` set es"
    by (auto simp: filter_empty_conv own_entry_def map_of_eq_None_iff)
  then show ?thesis
    by (auto simp: schema_failures_def well_typed_def entry_failure_Nil simp del: split_paired_All)
qed

section \<open>A schema is read as it was written\<close>

definition schema_ok :: "output_schema \<Rightarrow> bool" where
  "schema_ok sc \<longleftrightarrow> (\<forall>(k, t) \<in> set (os_properties sc). key_input k = Some k \<and> k \<noteq> ''__proto__'')
     \<and> length (os_required sc) \<le> 30
     \<and> (\<forall>k \<in> set (os_required sc). key_input k = Some k \<and> declares (os_properties sc) k)"

lemma field_type_found: "find (\<lambda>f. field_type_name f = field_type_name t) field_types = Some t"
  by (cases t) (simp_all add: field_types_def field_type_name_def)

lemma key_input_Some: "key_input k = Some k' \<Longrightarrow> k' = k \<and> key_input k = Some k"
  by (simp add: key_input_def split: if_splits)

lemma parse_list_all:
  assumes "parse_list f xs = Some ys" and "\<And>x y. x \<in> set xs \<Longrightarrow> f x = Some y \<Longrightarrow> P y"
  shows "\<forall>y \<in> set ys. P y"
  using assms
proof (induction xs arbitrary: ys)
  case (Cons x xs)
  then obtain y zs where "f x = Some y" "parse_list f xs = Some zs" "ys = y # zs"
    by (auto split: option.splits)
  with Cons show ?case by auto
qed simp

lemma parse_list_length: "parse_list f xs = Some ys \<Longrightarrow> length ys = length xs"
  by (induction xs arbitrary: ys) (auto split: option.splits)

lemma parse_list_map: "(\<And>y. y \<in> set ys \<Longrightarrow> f (g y) = Some y) \<Longrightarrow> parse_list f (map g ys) = Some ys"
  by (induction ys) auto

lemma required_key_Some: "required_key x = Some y \<Longrightarrow> key_input y = Some y"
  by (cases x) (auto simp: required_key_def dest: key_input_Some)

lemma property_Some: "(case x of (k, d) \<Rightarrow> Option.bind (key_input k) (\<lambda>k. map_option (Pair k) (fieldSchema d))) = Some p \<Longrightarrow>
    fst p = fst x \<and> key_input (fst p) = Some (fst p)"
  by (cases x) (auto split: bind_splits dest: key_input_Some)

lemma properties_ok:
  assumes "properties_input v = Some ps"
  shows "\<forall>p \<in> set ps. key_input (fst p) = Some (fst p) \<and> fst p \<noteq> ''__proto__''"
proof -
  consider "ps = []" | es where "parse_list (\<lambda>(k, d). Option.bind (key_input k) (\<lambda>k. map_option (Pair k) (fieldSchema d)))
      (filter (\<lambda>(k, d). k \<noteq> ''__proto__'') es) = Some ps"
    using assms unfolding properties_input_def by (cases v; simp) (rename_tac j, case_tac j; simp)
  then show ?thesis
  proof cases
    case 2
    then show ?thesis
    proof (rule parse_list_all)
      fix x p
      assume x: "x \<in> set (filter (\<lambda>(k, d). k \<noteq> ''__proto__'') es)"
        and "(case x of (k, d) \<Rightarrow> Option.bind (key_input k) (\<lambda>k. map_option (Pair k) (fieldSchema d))) = Some p"
      from property_Some [OF this(2)] x show "key_input (fst p) = Some (fst p) \<and> fst p \<noteq> ''__proto__''"
        by auto
    qed
  qed simp
qed

lemma required_ok:
  assumes "required_input v = Some rs"
  shows "length rs \<le> 30 \<and> (\<forall>k \<in> set rs. key_input k = Some k)"
proof -
  consider "rs = []" | xs where "length xs \<le> 30" "parse_list required_key xs = Some rs"
    using assms unfolding required_input_def by (cases v; simp) (rename_tac j, case_tac j; simp split: if_splits)
  then show ?thesis
  proof cases
    case 2
    then show ?thesis using parse_list_length [OF 2(2)] parse_list_all [OF 2(2) required_key_Some] by simp
  qed simp
qed

lemma outputSchema_ok:
  assumes "outputSchemaV1 v = Some sc"
  shows "schema_ok sc"
proof -
  obtain es ps rs a where "properties_input (own_entry ''properties'' es) = Some ps"
    "required_input (own_entry ''required'' es) = Some rs" "list_all (declares ps) rs"
    "sc = \<lparr>os_properties = ps, os_required = rs, os_additional = a\<rparr>"
    using assms unfolding outputSchemaV1_def by (cases v; simp split: if_splits bind_splits) (metis)
  then show ?thesis using properties_ok [of _ ps] required_ok [of _ rs]
    by (simp add: schema_ok_def list_all_iff case_prod_unfold)
qed

lemma reread_properties:
  assumes "schema_ok sc"
  shows "properties_input (Some (J_obj (map (\<lambda>(k, t). (k, J_obj [(''type'', J_str (field_type_name t))]))
     (os_properties sc)))) = Some (os_properties sc)"
proof -
  let ?g = "\<lambda>(k :: string, t). (k, J_obj [(''type'', J_str (field_type_name t))])"
  have "filter (\<lambda>(k, d). k \<noteq> ''__proto__'') (map ?g (os_properties sc)) = map ?g (os_properties sc)"
    using assms by (auto simp: schema_ok_def filter_id_conv)
  then show ?thesis unfolding properties_input_def
    using assms by (auto simp: schema_ok_def fieldSchema_def field_type_found intro!: parse_list_map)
qed

lemma reread_required: "schema_ok sc \<Longrightarrow> required_input (Some (J_arr (map J_str (os_required sc)))) = Some (os_required sc)"
  by (auto simp: required_input_def schema_ok_def required_key_def intro!: parse_list_map)

lemma schema_reload_fact: "schema_ok sc \<Longrightarrow> outputSchemaV1 (schema_json sc) = Some sc"
  using reread_properties [of sc] reread_required [of sc]
  by (cases "os_additional sc")
    (auto simp: outputSchemaV1_def schema_json_def own_entry_def additional_input_def schema_keys_def list_all_iff
      schema_ok_def)

lemma schema_json_ne: "schema_json sc \<noteq> J_obj []"
  by (simp add: schema_json_def)

lemma verify_accepted:
  assumes "schema_ok sc"
  shows "verifyOutputSchema (Some es) (schema_json sc) = Some r \<Longrightarrow> vo_status r = V_passed \<longleftrightarrow> well_typed sc es"
    and "\<exists>r. verifyOutputSchema a (schema_json sc) = Some r"
  using assms schema_failures_Nil [of es sc]
  by (auto simp: verifyOutputSchema_def schema_reload_fact Let_def)

lemma check_accepted:
  assumes "schema_ok sc"
  shows "fst (checkServiceInput es (schema_json sc)) = (if well_typed sc es then Input_valid else Input_invalid)"
  using assms schema_failures_Nil [of es sc]
  by (auto simp: checkServiceInput_def schema_json_ne schema_reload_fact verifyOutputSchema_def Let_def)

section \<open>What a service offers and what is asked for\<close>

text \<open>A policy, as far as it is compared: the rules of its assertions are their canonical texts.\<close>

record isolated_policy =
  ip_adapter :: string
  ip_verifier_agent_id :: string
  ip_suite_sha256 :: string
  ip_max_runtime_seconds :: int

record source_policy =
  sp_minimum_sources :: int
  sp_max_age_days :: int
  sp_require_claim_links :: bool

record verification_policy =
  vp_methods :: "string list"
  vp_minimum_sources :: "int option"
  vp_acceptance_mode :: "string option"
  vp_isolated_checks :: "isolated_policy option"
  vp_assertions :: "string list option"
  vp_source_evidence :: "source_policy option"

definition supportsVerification :: "verification_policy \<Rightarrow> verification_policy \<Rightarrow> bool" where
  "supportsVerification offered requested \<longleftrightarrow>
     set (vp_methods requested) \<subseteq> set (vp_methods offered)
     \<and> (case vp_minimum_sources requested of None \<Rightarrow> True
          | Some n \<Rightarrow> n = 0 \<or> n \<le> (case vp_minimum_sources offered of None \<Rightarrow> 0 | Some m \<Rightarrow> m))
     \<and> (case vp_acceptance_mode requested of None \<Rightarrow> True | Some m \<Rightarrow> vp_acceptance_mode offered = Some m)
     \<and> (case vp_isolated_checks requested of None \<Rightarrow> True
          | Some r \<Rightarrow> (case vp_isolated_checks offered of None \<Rightarrow> False
              | Some p \<Rightarrow> ip_adapter p = ip_adapter r \<and> ip_verifier_agent_id p = ip_verifier_agent_id r
                  \<and> ip_suite_sha256 p = ip_suite_sha256 r \<and> ip_max_runtime_seconds p \<le> ip_max_runtime_seconds r))
     \<and> (case vp_assertions requested of None \<Rightarrow> True
          | Some rules \<Rightarrow> list_all (\<lambda>r. case vp_assertions offered of None \<Rightarrow> False | Some ps \<Rightarrow> r \<in> set ps) rules)
     \<and> (case vp_source_evidence requested of None \<Rightarrow> True
          | Some r \<Rightarrow> (case vp_source_evidence offered of None \<Rightarrow> False
              | Some p \<Rightarrow> sp_minimum_sources r \<le> sp_minimum_sources p \<and> sp_max_age_days p \<le> sp_max_age_days r
                  \<and> (sp_require_claim_links r \<longrightarrow> sp_require_claim_links p)))"

end
