(* ===== verification/RouteControl.thy ===== *)
theory RouteControl
  imports Schema JsDate
begin

text \<open>
  The switch that admits new routed work (\<open>lib/route-control.ts\<close>): it is paused by
  the environment, by an operator, by a failed audit of the money, or because the
  monitor has gone quiet, and the monitor opens it again only after a recovery.

  A parameter stands for the audit queries of \<open>route-admission-health.mjs\<close>, which
  answer whether the money is healthy or fail.
\<close>

section \<open>The control\<close>

record route_env =
  rt_environment_paused :: bool
  rt_production :: bool
  rt_inspect :: "db \<Rightarrow> app_error + bool"

definition route_key :: string where
  "route_key = ''new_routes''"

definition staleSeconds :: int where "staleSeconds = 900"
definition recoverySeconds :: int where "recoverySeconds = 120"
definition recoveryChecks :: int where "recoveryChecks = 3"
definition sampleGapSeconds :: int where "sampleGapSeconds = 30"

definition reasons :: "string list" where
  "reasons = [''OPERATOR_PAUSE'', ''FINANCIAL_UNCERTAINTY'', ''MONITOR_FAILURE'']"

datatype control_source = From_environment | From_monitor | From_database

record control_view =
  cv_paused :: bool
  cv_database_paused :: bool
  cv_reason_code :: "string option"
  cv_healthy_check_count :: int
  cv_healthy_since_at :: "seconds option"
  cv_revision :: int
  cv_last_checked_at :: "seconds option"
  cv_source :: control_source

definition route_row :: "db \<Rightarrow> route_control option" where
  "route_row s = find (\<lambda>r. rc_key r = route_key) (route_controls s)"

text \<open>\<open>now - time > 900 s\<close>, or no time, or one to come.\<close>

definition stale :: "millis \<Rightarrow> seconds option \<Rightarrow> bool" where
  "stale now checked = (case checked of None \<Rightarrow> True
     | Some c \<Rightarrow> now < c * 1000 \<or> staleSeconds * 1000 < now - c * 1000)"

definition last_checked :: "route_control option \<Rightarrow> seconds option" where
  "last_checked row = Option.bind row rc_last_checked_at"

definition row_paused :: "route_control option \<Rightarrow> bool" where
  "row_paused row \<longleftrightarrow> (case row of None \<Rightarrow> False | Some r \<Rightarrow> rc_paused r)"

definition getRouteControl :: "route_env \<Rightarrow> millis \<Rightarrow> db \<Rightarrow> control_view" where
  "getRouteControl env now s =
    (let row = route_row s; environment = rt_environment_paused env;
         monitorStale = rt_production env \<and> stale now (last_checked row) in
     \<lparr>cv_paused = (environment \<or> row_paused row \<or> monitorStale), cv_database_paused = row_paused row,
      cv_reason_code = (if environment then Some ''ENVIRONMENT_PAUSE''
        else if row_paused row then
          (case Option.bind row rc_reason_code of
             Some r \<Rightarrow> if r \<in> set reasons then Some r else Some ''FINANCIAL_UNCERTAINTY''
           | None \<Rightarrow> Some ''FINANCIAL_UNCERTAINTY'')
        else if monitorStale then Some ''MONITOR_STALE'' else None),
      cv_healthy_check_count = (case row of None \<Rightarrow> 0 | Some r \<Rightarrow> rc_healthy_check_count r),
      cv_healthy_since_at = Option.bind row rc_healthy_since_at,
      cv_revision = (case row of None \<Rightarrow> 0 | Some r \<Rightarrow> rc_revision r),
      cv_last_checked_at = last_checked row,
      cv_source = (if environment then From_environment else if monitorStale then From_monitor else From_database)\<rparr>)"

definition routeAdmissionFailure :: "route_env \<Rightarrow> millis \<Rightarrow> db \<Rightarrow> string option" where
  "routeAdmissionFailure env now s =
     (if cv_paused (getRouteControl env now s) then Some ''ROUTE_EXECUTION_PAUSED'' else None)"

section \<open>Writing it\<close>

record control_write =
  cw_paused :: bool
  cw_reason :: string
  cw_actor :: "id option"
  cw_automaticResume :: bool

type_synonym progress = "seconds option \<times> seconds option \<times> int"

definition writeControl ::
  "route_env \<Rightarrow> millis \<Rightarrow> control_write \<Rightarrow> seconds option \<Rightarrow> progress \<Rightarrow> control_view dbtx" where
  "writeControl env now input checkedAt progress =
    bnd (asks route_row) (\<lambda>prior.
    (let changed = (cw_actor input \<noteq> None \<or> row_paused prior \<noteq> cw_paused input
           \<or> cw_paused input \<and> Option.bind prior rc_reason_code \<noteq> Some (cw_reason input));
         revision = (case prior of None \<Rightarrow> 0 | Some r \<Rightarrow> rc_revision r) + (if changed then 1 else 0);
         values = \<lparr>rc_key = route_key, rc_paused = cw_paused input,
           rc_reason_code = (if cw_paused input then Some (cw_reason input) else None), rc_revision = revision,
           rc_last_checked_at = (if checkedAt \<noteq> None then checkedAt else last_checked prior),
           rc_healthy_since_at = fst progress, rc_healthy_sampled_at = fst (snd progress),
           rc_healthy_check_count = snd (snd progress), rc_updated_at = to_seconds now\<rparr> in
     andthen (\<lambda>s. Inr ((), s\<lparr>route_controls :=
        (if list_ex (\<lambda>r. rc_key r = route_key) (route_controls s)
         then set_rows (\<lambda>r. rc_key r = route_key) (\<lambda>_. values) (route_controls s)
         else route_controls s @ [values])\<rparr>))
    (andthen (onlyif changed (append_row route_control_events route_control_events_update
        \<lparr>re_control_key = route_key, re_paused = cw_paused input,
         re_reason_code = (if cw_paused input then cw_reason input
           else if cw_automaticResume input then ''AUTOMATIC_HEALTHY_RESUME'' else ''OPERATOR_RESUME''),
         re_revision = revision, re_actor_user_id = cw_actor input, re_created_at = to_seconds now\<rparr>))
       (asks (getRouteControl env now)))))"

definition no_progress :: progress where
  "no_progress = (None, None, 0)"

section \<open>The monitor\<close>

definition at_most :: "seconds option \<Rightarrow> millis \<Rightarrow> bool" where
  "at_most t now = (case t of None \<Rightarrow> False | Some x \<Rightarrow> x * 1000 \<le> now)"

text \<open>\<open>continuous\<close>: the row records an unbroken series of samples up to this one.\<close>

definition continuous :: "millis \<Rightarrow> route_control option \<Rightarrow> bool" where
  "continuous now prior = (case prior of None \<Rightarrow> False | Some r \<Rightarrow>
     at_most (rc_last_checked_at r) now \<and> at_most (rc_healthy_since_at r) now \<and> at_most (rc_healthy_sampled_at r) now
   \<and> now - the (rc_last_checked_at r) * 1000 \<le> staleSeconds * 1000)"

definition healthy_progress :: "millis \<Rightarrow> bool \<Rightarrow> route_control option \<Rightarrow> progress" where
  "healthy_progress now healthy prior =
    (if \<not> healthy then no_progress
     else if continuous now prior then
       (let r = the prior; due = (sampleGapSeconds * 1000 \<le> now - the (rc_healthy_sampled_at r) * 1000) in
        (rc_healthy_since_at r, if due then Some (to_seconds now) else rc_healthy_sampled_at r,
         rc_healthy_check_count r + (if due then 1 else 0)))
     else (Some (to_seconds now), Some (to_seconds now), 1))"

text \<open>
  \<open>healthySince\<close> is the time now, to the millisecond, or a stored one; the waiting
  time is counted from it.
\<close>

definition since_millis :: "millis \<Rightarrow> route_control option \<Rightarrow> millis" where
  "since_millis now prior = (if continuous now prior then the (rc_healthy_since_at (the prior)) * 1000 else now)"

definition previousHold :: "route_env \<Rightarrow> millis \<Rightarrow> route_control option \<Rightarrow> bool" where
  "previousHold env now prior \<longleftrightarrow> row_paused prior \<or> rt_production env \<and> stale now (last_checked prior)"

definition reopens :: "route_env \<Rightarrow> millis \<Rightarrow> bool \<Rightarrow> route_control option \<Rightarrow> bool" where
  "reopens env now healthy prior \<longleftrightarrow> healthy \<and> previousHold env now prior
     \<and> recoveryChecks \<le> snd (snd (healthy_progress now healthy prior))
     \<and> recoverySeconds * 1000 \<le> now - since_millis now prior"

definition monitor_write :: "route_env \<Rightarrow> millis \<Rightarrow> bool \<Rightarrow> route_control option \<Rightarrow> control_write" where
  "monitor_write env now healthy prior =
     \<lparr>cw_paused = (\<not> healthy \<or> previousHold env now prior \<and> \<not> reopens env now healthy prior),
      cw_reason = (if row_paused prior then
          (case Option.bind prior rc_reason_code of Some r \<Rightarrow> if r \<noteq> [] then r else ''FINANCIAL_UNCERTAINTY''
           | None \<Rightarrow> ''FINANCIAL_UNCERTAINTY'') else ''FINANCIAL_UNCERTAINTY''),
      cw_actor = None, cw_automaticResume = reopens env now healthy prior\<rparr>"

definition monitor_tx :: "route_env \<Rightarrow> millis \<Rightarrow> (control_view \<times> bool) dbtx" where
  "monitor_tx env now =
     bnd (asks (rt_inspect env)) (\<lambda>audit.
     bnd (lift_result audit) (\<lambda>healthy.
     bnd (asks route_row) (\<lambda>prior.
     bnd (writeControl env now (monitor_write env now healthy prior) (Some (to_seconds now))
            (healthy_progress now healthy prior))
       (\<lambda>control. ret (control, healthy)))))"

definition monitor_failure :: control_write where
  "monitor_failure = \<lparr>cw_paused = True, cw_reason = ''MONITOR_FAILURE'', cw_actor = None, cw_automaticResume = False\<rparr>"

text \<open>What the caller is told, and the state left behind.\<close>

definition monitorRouteAdmission :: "route_env \<Rightarrow> millis \<Rightarrow> db \<Rightarrow> (bool \<times> bool) \<times> db" where
  "monitorRouteAdmission env now s = (case transaction (monitor_tx env now) s of
     (Inr (control, healthy), s') \<Rightarrow> ((cv_paused control, healthy), s')
   | (Inl _, _) \<Rightarrow> ((True, False), snd (transaction (writeControl env now monitor_failure None no_progress) s)))"

definition setRouteControl :: "route_env \<Rightarrow> millis \<Rightarrow> bool \<Rightarrow> int \<Rightarrow> id \<Rightarrow> control_view dbtx" where
  "setRouteControl env now paused expectedRevision actor =
     andthen (require (\<not> (\<not> paused \<and> rt_environment_paused env)) (RouteControlError ''ENVIRONMENT_ROUTE_PAUSE'' 409))
    (bnd (asks (getRouteControl env now)) (\<lambda>current.
     andthen (require (cv_revision current = expectedRevision) (RouteControlError ''ROUTE_CONTROL_REVISION_CHANGED'' 409))
       (if paused then writeControl env now
            \<lparr>cw_paused = True, cw_reason = ''OPERATOR_PAUSE'', cw_actor = Some actor, cw_automaticResume = False\<rparr>
            None no_progress
        else bnd (asks (rt_inspect env)) (\<lambda>audit.
          bnd (lift_result audit) (\<lambda>healthy.
          andthen (require healthy (RouteControlError ''ROUTE_FINANCIAL_UNCERTAINTY'' 409))
            (writeControl env now
              \<lparr>cw_paused = False, cw_reason = ''OPERATOR_PAUSE'', cw_actor = Some actor, cw_automaticResume = False\<rparr>
              (Some (to_seconds now)) no_progress))))))"

end
