(* ===== verification/InstantExecution.thy ===== *)
theory InstantExecution
  imports AccountCredit MarketGuards VerificationPolicy RouteControl
begin

text \<open>
  Instant execution (\<open>lib/instant-execution.ts\<close>): a buyer opens a session with a
  service and puts a budget of deposited credit into it; each call of the session
  holds its unit price until the provider has answered, failed or run out of time;
  what is left when the session closes goes back to the buyer.

  The columns that hold JSON text of a schema or of the agreed terms hold the
  value here.  Parameters of the model (\<open>instant_env\<close>): the deployment's switches,
  which agents belong to the reference fleet, SHA-256, and the text of a number.
  Every exported operation is one transaction under a lock; the retry after a
  busy database runs the same transaction again.
\<close>

section \<open>Requests\<close>

record request_principal =
  who_user :: id
  who_agent :: "id option"

record instant_env =
  ie_enabled :: bool
  ie_credit :: bool
  ie_paused :: bool
  ie_route :: route_env
  ie_fleet :: "id \<Rightarrow> bool"
  ie_hash :: "string \<Rightarrow> string"
  ie_show :: "num \<Rightarrow> string"
  ie_spend :: deployment

definition reference_input :: "string \<Rightarrow> string option" where
  "reference_input v = (let r = trim v in if 8 \<le> length r \<and> length r \<le> 128 then Some r else None)"

definition payload_input :: "(num \<Rightarrow> string) \<Rightarrow> (string \<times> json) list \<Rightarrow> (string \<times> json) list option" where
  "payload_input show es = (let v = filter (\<lambda>(k, x). k \<noteq> ''__proto__'') es in
     if list_all (\<lambda>(k, x). length k \<le> 100) v \<and> utf8_length (json_text show (J_obj v)) \<le> 8192 then Some v else None)"

record service_form =
  sf_title :: string
  sf_capabilities :: "string list"
  sf_input_schema :: json
  sf_output_schema :: json
  sf_unit_price_minor :: int
  sf_max_concurrency :: "int option"
  sf_deadline_seconds :: "int option"

record service_input =
  si_title :: string
  si_capabilities :: "string list"
  si_input_schema :: output_schema
  si_output_schema :: output_schema
  si_unit_price_minor :: int
  si_max_concurrency :: int
  si_deadline_seconds :: int

definition ranged :: "int \<Rightarrow> int \<Rightarrow> int \<Rightarrow> int option" where
  "ranged lo hi n = (if lo \<le> n \<and> n \<le> hi then Some n else None)"

definition with_default :: "'a \<Rightarrow> 'a option \<Rightarrow> 'a" where
  "with_default d v = (case v of None \<Rightarrow> d | Some x \<Rightarrow> x)"

definition instantServiceInput :: "service_form \<Rightarrow> service_input option" where
  "instantServiceInput f =
    (let title = trim (sf_title f) in
     if \<not> (5 \<le> length title \<and> length title \<le> 100) then None else
     Option.bind (parse_list normalizeCapability (sf_capabilities f)) (\<lambda>cs.
     if \<not> (1 \<le> length cs \<and> length cs \<le> 20) then None else
     Option.bind (outputSchemaV1 (sf_input_schema f)) (\<lambda>inp.
     Option.bind (outputSchemaV1 (sf_output_schema f)) (\<lambda>out.
     Option.bind (ranged 1 100 (sf_unit_price_minor f)) (\<lambda>price.
     Option.bind (ranged 1 100 (with_default 1 (sf_max_concurrency f))) (\<lambda>concurrency.
     Option.bind (ranged 1 60 (with_default 30 (sf_deadline_seconds f))) (\<lambda>deadline.
       Some \<lparr>si_title = title, si_capabilities = cs, si_input_schema = inp, si_output_schema = out,
         si_unit_price_minor = price, si_max_concurrency = concurrency, si_deadline_seconds = deadline\<rparr>)))))))"

record session_form =
  xf_client_reference :: string
  xf_budget_minor :: int
  xf_expected_unit_price_minor :: int
  xf_expires_in_seconds :: int

definition instantSessionInput :: "session_form \<Rightarrow> session_form option" where
  "instantSessionInput f =
     Option.bind (reference_input (xf_client_reference f)) (\<lambda>r.
     Option.bind (ranged 1 10000 (xf_budget_minor f)) (\<lambda>b.
     Option.bind (ranged 1 100 (xf_expected_unit_price_minor f)) (\<lambda>p.
     Option.bind (ranged 60 3600 (xf_expires_in_seconds f)) (\<lambda>e.
       Some \<lparr>xf_client_reference = r, xf_budget_minor = b, xf_expected_unit_price_minor = p, xf_expires_in_seconds = e\<rparr>))))"

definition instantClaimInput :: "string \<Rightarrow> string option" where
  "instantClaimInput token = (if 32 \<le> length token \<and> length token \<le> 128 then Some token else None)"

text \<open>\<open>instantResultInput\<close>, a union on the outcome.\<close>

datatype instant_result = Answered "(string \<times> json) list" | Gave_up

section \<open>Rows\<close>

definition live_state :: "call_state \<Rightarrow> bool" where
  "live_state st \<longleftrightarrow> st = C_pending \<or> st = C_claimed"

text \<open>The CHECK constraints of the three tables.\<close>

definition service_bounds :: "instant_service \<Rightarrow> bool" where
  "service_bounds d \<longleftrightarrow> 1 \<le> is_unit_price_minor d \<and> is_unit_price_minor d \<le> 100
     \<and> 1 \<le> is_max_concurrency d \<and> is_max_concurrency d \<le> 100
     \<and> 1 \<le> is_deadline_seconds d \<and> is_deadline_seconds d \<le> 60"

definition session_conservation :: "instant_session \<Rightarrow> bool" where
  "session_conservation x \<longleftrightarrow> 1 \<le> in_budget_minor x \<and> in_budget_minor x \<le> 10000 \<and> 0 \<le> in_balance_minor x
     \<and> 0 \<le> in_held_minor x \<and> in_held_minor x \<le> in_balance_minor x \<and> 0 \<le> in_spent_minor x \<and> 0 \<le> in_refunded_minor x
     \<and> in_budget_minor x = in_balance_minor x + in_spent_minor x + in_refunded_minor x"

definition call_receipt :: "instant_call \<Rightarrow> bool" where
  "call_receipt c \<longleftrightarrow> (if ic_state c = C_completed then ic_receipt c \<noteq> None \<and> ic_output_json c \<noteq> None
     else ic_receipt c = None \<and> ic_output_json c = None)"

definition update_sessions :: "id \<Rightarrow> (instant_session \<Rightarrow> instant_session) \<Rightarrow> instant_session list dbtx" where
  "update_sessions i f = bnd (update_where instant_sessions instant_sessions_update (\<lambda>x. in_id x = i) f) (\<lambda>rows.
     andthen (require (list_all session_conservation rows) (SqlError ''CHECK instant_session_conservation'')) (ret rows))"

definition update_calls ::
  "(instant_call \<Rightarrow> bool) \<Rightarrow> (instant_call \<Rightarrow> instant_call) \<Rightarrow> instant_call list dbtx" where
  "update_calls p f = bnd (update_where instant_calls instant_calls_update p f) (\<lambda>rows.
     andthen (require (list_all call_receipt rows) (SqlError ''CHECK instant_call_receipt'')) (ret rows))"

definition instantSessionDto :: "instant_session \<Rightarrow> instant_session \<times> int" where
  "instantSessionDto x = (x, in_balance_minor x - in_held_minor x)"

definition instantCallDto :: "instant_call \<Rightarrow> instant_call" where
  "instantCallDto c = c\<lparr>ic_lease_token_hash := None\<rparr>"

definition sessionRow :: "id \<Rightarrow> instant_session dbtx" where
  "sessionRow i = bnd (select_one instant_sessions (\<lambda>x. in_id x = i))
     (some_or (InstantError ''INSTANT_SESSION_NOT_FOUND'' 404))"

definition callRow :: "id \<Rightarrow> instant_call dbtx" where
  "callRow i = bnd (select_one instant_calls (\<lambda>c. ic_id c = i)) (some_or (InstantError ''INSTANT_CALL_NOT_FOUND'' 404))"

section \<open>Who may start something new\<close>

definition requireEnabled :: "instant_env \<Rightarrow> unit dbtx" where
  "requireEnabled env = require (ie_enabled env) (InstantError ''INSTANT_EXECUTION_DISABLED'' 503)"

definition newAuthority :: "instant_env \<Rightarrow> millis \<Rightarrow> unit dbtx" where
  "newAuthority env now =
     andthen (requireEnabled env)
    (andthen (require (ie_credit env) (InstantError ''CREDIT_UNAVAILABLE'' 503))
    (bnd (asks (getNewPaymentControl (ie_paused env))) (\<lambda>paused.
     andthen (require (\<not> paused) (InstantError ''NEW_PAYMENTS_PAUSED'' 503))
    (bnd (asks (routeAdmissionFailure (ie_route env) now)) (\<lambda>failure.
       require (failure = None) (InstantError ''ROUTE_EXECUTION_PAUSED'' 503))))))"

definition referenceFleetLocked :: "instant_env \<Rightarrow> id option \<Rightarrow> bool" where
  "referenceFleetLocked env agentId = (case agentId of None \<Rightarrow> False | Some a \<Rightarrow> a \<noteq> [] \<and> ie_fleet env a)"

definition agent_of_seller :: "id \<Rightarrow> id option" where
  "agent_of_seller u = (if starts_with agent_prefix u then Some (drop (length agent_prefix) u) else None)"

definition sells_for_credit :: "db \<Rightarrow> id \<Rightarrow> bool" where
  "sells_for_credit s u \<longleftrightarrow> Credit \<in> set (fst (sellerPaymentRails s u))"

text \<open>\<open>[...new Set(xs)]\<close>.\<close>

definition first_of_each :: "'a list \<Rightarrow> 'a list" where
  "first_of_each xs = rev (remdups (rev xs))"

definition createInstantService :: "instant_env \<Rightarrow> id \<Rightarrow> request_principal \<Rightarrow> service_input \<Rightarrow> instant_service dbtx" where
  "createInstantService env fresh who input =
     andthen (requireEnabled env)
    (bnd (asks (\<lambda>s. sells_for_credit s (who_user who))) (\<lambda>sells.
     andthen (require sells (InstantError ''SELLER_PAYMENT_RAIL_UNSUPPORTED'' 409))
    (andthen (require (\<not> referenceFleetLocked env (who_agent who)) (InstantError ''REFERENCE_FLEET_PAID_SERVICES_LOCKED'' 409))
    (bnd (asks (\<lambda>s. isPublicMarketplaceSeller s (who_user who))) (\<lambda>public.
     andthen (require public (InstantError ''SELLER_NOT_PUBLIC'' 409))
    (let row = \<lparr>is_id = fresh, is_seller_id = who_user who, is_title = si_title input,
         is_capabilities = first_of_each (si_capabilities input), is_input_schema = si_input_schema input,
         is_output_schema = si_output_schema input, is_unit_price_minor = si_unit_price_minor input,
         is_max_concurrency = si_max_concurrency input, is_deadline_seconds = si_deadline_seconds input,
         is_active = True\<rparr> in
     andthen (require (service_bounds row) (SqlError ''CHECK instant_service_bounds''))
    (andthen (insert_row instant_services instant_services_update (\<lambda>d. is_id d = fresh)
        (SqlError ''UNIQUE instant_services'') row)
       (ret row))))))))"

section \<open>Opening a session\<close>

definition notOrganization :: "request_principal \<Rightarrow> unit dbtx" where
  "notOrganization who = onlyif (truthy (who_agent who))
     (bnd (select_one organization_agent_assignments (\<lambda>a. Some (aa_agent_id a) = who_agent who)) (\<lambda>assignment.
        require (assignment = None) (InstantError ''INSTANT_ORGANIZATION_UNSUPPORTED'' 409)))"

definition service_terms :: "instant_service \<Rightarrow> instant_terms" where
  "service_terms d = \<lparr>it_seller_id = is_seller_id d, it_capabilities = is_capabilities d,
     it_input_schema = is_input_schema d, it_output_schema = is_output_schema d,
     it_unit_price_minor = is_unit_price_minor d, it_deadline_seconds = is_deadline_seconds d,
     it_max_concurrency = is_max_concurrency d\<rparr>"

definition instant_context :: "instant_terms \<Rightarrow> int \<Rightarrow> spend_context" where
  "instant_context agreed amount = \<lparr>sc_purchaseEvidence = None, sc_totalMinor = amount,
     sc_sellerId = Some (it_seller_id agreed), sc_capabilities = Some (it_capabilities agreed),
     sc_paymentRail = Some Credit, sc_verificationMethods = Some [''schema''], sc_retrySpendMinor = None\<rparr>"

definition needs_providers :: "buyer_policy option \<Rightarrow> bool" where
  "needs_providers p \<longleftrightarrow> (case p of None \<Rightarrow> False | Some q \<Rightarrow> bp_has_provider_requirements q)"

definition enforceOpening :: "instant_env \<Rightarrow> millis \<Rightarrow> request_principal \<Rightarrow> instant_terms \<Rightarrow> int \<Rightarrow> unit dbtx" where
  "enforceOpening env now who terms budget =
     bnd (loadBuyerSpendPolicy (who_user who)) (\<lambda>loaded.
     andthen (require (\<not> needs_providers loaded) (InstantError ''INSTANT_PROVIDER_REQUIREMENTS_UNSUPPORTED'' 409))
       (if truthy (who_agent who)
        then bnd (enforceAgentSpendPolicy (ie_spend env) (the (who_agent who)) (who_user who) (of_minor budget)
                    (instant_context terms budget) now) (\<lambda>_. ret ())
        else enforceBuyerSpendPolicy (who_user who) (instant_context terms budget) now))"

definition fundSession :: "millis \<Rightarrow> id \<Rightarrow> id \<Rightarrow> id \<Rightarrow> session_form \<Rightarrow> instant_terms \<Rightarrow> instant_session dbtx" where
  "fundSession now fresh buyer serviceId input terms =
    (let row = \<lparr>in_id = fresh, in_buyer_id = buyer, in_service_id = serviceId,
         in_client_reference = xf_client_reference input, in_terms = terms, in_budget_minor = xf_budget_minor input,
         in_balance_minor = xf_budget_minor input, in_held_minor = 0, in_spent_minor = 0, in_refunded_minor = 0,
         in_status = I_open, in_created_at = to_seconds now,
         in_expires_at = to_seconds now + xf_expires_in_seconds input, in_closed_at = None\<rparr> in
     andthen (changeCredit (to_seconds now) buyer fresh ''instant_funding'' (- xf_budget_minor input) 0)
    (andthen (require (session_conservation row) (SqlError ''CHECK instant_session_conservation''))
    (andthen (insert_row instant_sessions instant_sessions_update
        (\<lambda>x. in_id x = fresh \<or> in_buyer_id x = buyer \<and> in_client_reference x = xf_client_reference input)
        (SqlError ''UNIQUE instant_sessions'') row)
       (ret row))))"

definition same_session_request :: "id \<Rightarrow> session_form \<Rightarrow> instant_session \<Rightarrow> bool" where
  "same_session_request serviceId input prior \<longleftrightarrow> in_service_id prior = serviceId
     \<and> in_budget_minor prior = xf_budget_minor input
     \<and> it_unit_price_minor (in_terms prior) = xf_expected_unit_price_minor input
     \<and> in_expires_at prior - in_created_at prior = xf_expires_in_seconds input"

definition openInstantSession ::
  "instant_env \<Rightarrow> millis \<Rightarrow> id \<Rightarrow> request_principal \<Rightarrow> id \<Rightarrow> session_form \<Rightarrow> ((instant_session \<times> int) \<times> bool) dbtx" where
  "openInstantSession env now fresh who serviceId input =
     bnd (select_one instant_sessions (\<lambda>x. in_buyer_id x = who_user who \<and> in_client_reference x = xf_client_reference input))
      (\<lambda>prior. case prior of
        Some p \<Rightarrow>
          andthen (require (same_session_request serviceId input p) (InstantError ''IDEMPOTENCY_CONFLICT'' 409))
            (ret (instantSessionDto p, True))
      | None \<Rightarrow>
          andthen (newAuthority env now)
         (bnd (select_one instant_services (\<lambda>d. is_id d = serviceId)) (\<lambda>found.
          bnd (some_or (InstantError ''INSTANT_SERVICE_UNAVAILABLE'' 404)
              (case found of None \<Rightarrow> None | Some d \<Rightarrow> if is_active d then Some d else None)) (\<lambda>service.
          andthen (require (who_user who \<noteq> is_seller_id service) (InstantError ''SELF_PURCHASE_BLOCKED'' 409))
         (bnd (asks (\<lambda>s. sells_for_credit s (is_seller_id service))) (\<lambda>sells.
          andthen (require sells (InstantError ''SELLER_PAYMENT_RAIL_UNSUPPORTED'' 409))
         (bnd (asks (\<lambda>s. isPublicMarketplaceSeller s (is_seller_id service))) (\<lambda>public.
          andthen (require public (InstantError ''SELLER_NOT_PUBLIC'' 409))
         (andthen (require (\<not> referenceFleetLocked env (agent_of_seller (is_seller_id service)))
              (InstantError ''REFERENCE_FLEET_PAID_SERVICES_LOCKED'' 409))
         (andthen (require (is_unit_price_minor service = xf_expected_unit_price_minor input
                \<and> is_unit_price_minor service \<le> xf_budget_minor input)
              (InstantError ''PRICE_OR_BUDGET_MISMATCH'' 409))
         (andthen (notOrganization who)
         (andthen (enforceOpening env now who (service_terms service) (xf_budget_minor input))
         (bnd (fundSession now fresh (who_user who) serviceId input (service_terms service)) (\<lambda>row.
            ret (instantSessionDto row, False)))))))))))))))"

section \<open>Failing calls and closing sessions\<close>

definition failed_call :: "millis \<Rightarrow> string \<Rightarrow> instant_call \<Rightarrow> instant_call" where
  "failed_call now code c = c\<lparr>ic_state := C_failed, ic_failure_code := Some code, ic_completed_at := Some (to_seconds now)\<rparr>"

definition release :: "int \<Rightarrow> instant_session \<Rightarrow> instant_session" where
  "release n x = x\<lparr>in_held_minor := in_held_minor x - n\<rparr>"

definition failCall :: "millis \<Rightarrow> instant_call \<Rightarrow> string \<Rightarrow> instant_call dbtx" where
  "failCall now call code =
     bnd (update_calls (\<lambda>c. ic_id c = ic_id call \<and> live_state (ic_state c)) (failed_call now code)) (\<lambda>rows.
     case rows of
       failed # _ \<Rightarrow> bnd (update_sessions (ic_session_id call) (release (ic_unit_price_minor call))) (\<lambda>_. ret failed)
     | [] \<Rightarrow> ret call)"

definition fail_each :: "millis \<Rightarrow> (instant_call \<Rightarrow> string) \<Rightarrow> instant_call list \<Rightarrow> unit dbtx" where
  "fail_each now code calls = foreach calls (\<lambda>c. bnd (failCall now c (code c)) (\<lambda>_. ret ()))"

definition overdue_call :: "millis \<Rightarrow> instant_call \<Rightarrow> bool" where
  "overdue_call now c \<longleftrightarrow> ic_deadline_at c \<le> to_seconds now"

definition closing_code :: "millis \<Rightarrow> instant_call \<Rightarrow> string" where
  "closing_code now c = (if ic_deadline_at c * 1000 \<le> now then ''CALL_DEADLINE_EXCEEDED'' else ''SESSION_CLOSED'')"

definition closing :: "instant_session \<Rightarrow> instant_session" where
  "closing x = x\<lparr>in_status := I_closing\<rparr>"

definition closed_with :: "millis \<Rightarrow> int \<Rightarrow> instant_session \<Rightarrow> instant_session" where
  "closed_with now refund x = x\<lparr>in_status := I_closed, in_balance_minor := 0,
     in_refunded_minor := in_refunded_minor x + refund, in_closed_at := Some (to_seconds now)\<rparr>"

definition settleSession :: "millis \<Rightarrow> id \<Rightarrow> instant_session dbtx" where
  "settleSession now i =
     bnd (sessionRow i) (\<lambda>session.
     if 0 < in_held_minor session
     then bnd (update_sessions i closing) (first_or (PlainError ''TypeError''))
     else andthen (onlyif (in_balance_minor session \<noteq> 0)
            (changeCredit (to_seconds now) (in_buyer_id session) i ''instant_refund'' (in_balance_minor session) 0))
         (bnd (update_sessions i (closed_with now (in_balance_minor session))) (first_or (PlainError ''TypeError''))))"

definition finalizeSession :: "millis \<Rightarrow> id \<Rightarrow> instant_session dbtx" where
  "finalizeSession now i =
     bnd (sessionRow i) (\<lambda>session.
     if in_status session = I_closed then ret session
     else if in_status session = I_open \<and> now < in_expires_at session * 1000 then ret session
     else bnd (asks (\<lambda>s. take 1000 (filter (\<lambda>c. ic_session_id c = i \<and> live_state (ic_state c)
             \<and> (overdue_call now c \<or> ic_state c = C_pending)) (instant_calls s)))) (\<lambda>abandoned.
       andthen (fail_each now (closing_code now) abandoned) (settleSession now i)))"

definition expireCalls :: "millis \<Rightarrow> id \<Rightarrow> unit dbtx" where
  "expireCalls now i =
     bnd (asks (\<lambda>s. take 1000 (filter (\<lambda>c. ic_session_id c = i \<and> live_state (ic_state c) \<and> overdue_call now c)
         (instant_calls s)))) (\<lambda>expired.
     andthen (fail_each now (\<lambda>_. ''CALL_DEADLINE_EXCEEDED'') expired)
       (bnd (finalizeSession now i) (\<lambda>_. ret ())))"

definition readInstantSession :: "millis \<Rightarrow> id \<Rightarrow> id \<Rightarrow> bool \<Rightarrow> (instant_session \<times> int) dbtx" where
  "readInstantSession now buyerId i close =
     bnd (sessionRow i) (\<lambda>session.
     andthen (require (in_buyer_id session = buyerId) (InstantError ''INSTANT_SESSION_NOT_FOUND'' 404))
    (andthen (onlyif (close \<and> in_status session = I_open)
        (bnd (update_sessions i closing) (\<lambda>_. ret ())))
    (andthen (expireCalls now i)
       (bnd (sessionRow i) (\<lambda>x. ret (instantSessionDto x))))))"

section \<open>Calls\<close>

definition enforceCall :: "instant_env \<Rightarrow> millis \<Rightarrow> request_principal \<Rightarrow> instant_terms \<Rightarrow> unit dbtx" where
  "enforceCall env now who terms =
     bnd (loadBuyerSpendPolicy (who_user who)) (\<lambda>loaded.
     andthen (case loaded of None \<Rightarrow> ret () | Some p \<Rightarrow>
        andthen (case checkBuyerPolicyConstraints p (instant_context terms (it_unit_price_minor terms)) of
            None \<Rightarrow> ret () | Some reason \<Rightarrow> throw (BuyerSpendPolicyError reason))
       (bnd (asks (\<lambda>s. buyerPolicyUsage s (who_user who) now)) (\<lambda>usage.
        andthen (require (\<not> above (fst usage) (bp_max_daily p)) (BuyerSpendPolicyError ''BUYER_DAILY_LIMIT''))
       (andthen (require (\<not> above (snd usage) (bp_max_monthly p)) (BuyerSpendPolicyError ''BUYER_MONTHLY_LIMIT''))
          (require (\<not> bp_has_provider_requirements p)
            (InstantError ''INSTANT_PROVIDER_REQUIREMENTS_UNSUPPORTED'' 409))))))
    (andthen (notOrganization who)
       (onlyif (truthy (who_agent who))
         (bnd (asks (getAgentSpendSnapshot (ie_spend env) (the (who_agent who)) (who_user who) now)) (\<lambda>snapshot.
            require (\<not> (ss_per_trade_limit snapshot < of_minor (it_unit_price_minor terms)
                \<or> ss_daily_limit snapshot < ss_spent_today snapshot)) (InstantError ''AGENT_SPEND_LIMIT'' 409))))))"

text \<open>Calls that take up the service's capacity.\<close>

definition calls_in_flight :: "millis \<Rightarrow> db \<Rightarrow> id \<Rightarrow> nat" where
  "calls_in_flight now s serviceId = length (filter (\<lambda>c. ic_service_id c = serviceId \<and> live_state (ic_state c)
     \<and> to_seconds now < ic_deadline_at c) (instant_calls s))"

definition checkCapacity :: "millis \<Rightarrow> instant_session \<Rightarrow> unit dbtx" where
  "checkCapacity now session =
     bnd (asks (\<lambda>s. calls_in_flight now s (in_service_id session))) (\<lambda>count.
     bnd (select_one instant_services (\<lambda>d. is_id d = in_service_id session)) (\<lambda>found.
     bnd (some_or (InstantError ''INSTANT_SERVICE_UNAVAILABLE'' 409)
         (case found of None \<Rightarrow> None | Some d \<Rightarrow> if is_active d then Some d else None)) (\<lambda>service.
       require (int count < min (is_max_concurrency service) (it_max_concurrency (in_terms session)))
         (InstantError ''CAPACITY_FULL'' 409))))"

definition hold :: "int \<Rightarrow> instant_session \<Rightarrow> instant_session" where
  "hold n x = x\<lparr>in_held_minor := in_held_minor x + n\<rparr>"

definition new_call :: "instant_env \<Rightarrow> millis \<Rightarrow> id \<Rightarrow> instant_session \<Rightarrow> string \<Rightarrow> string \<Rightarrow> instant_call" where
  "new_call env now fresh session reference inputJson =
    (let terms = in_terms session in \<lparr>ic_id = fresh, ic_session_id = in_id session, ic_service_id = in_service_id session,
       ic_seller_id = it_seller_id terms, ic_client_reference = reference, ic_input_json = inputJson,
       ic_input_hash = ie_hash env inputJson, ic_unit_price_minor = it_unit_price_minor terms, ic_state = C_pending,
       ic_lease_token_hash = None, ic_output_json = None, ic_receipt = None, ic_failure_code = None,
       ic_deadline_at = min (in_expires_at session) (to_seconds now + it_deadline_seconds terms), ic_completed_at = None\<rparr>)"

definition insertCall ::
  "instant_env \<Rightarrow> millis \<Rightarrow> id \<Rightarrow> instant_session \<Rightarrow> string \<Rightarrow> string \<Rightarrow> instant_call dbtx" where
  "insertCall env now fresh session reference inputJson =
    (let row = new_call env now fresh session reference inputJson in
     bnd (update_sessions (in_id session) (hold (it_unit_price_minor (in_terms session)))) (\<lambda>_.
     andthen (insert_row instant_calls instant_calls_update
        (\<lambda>c. ic_id c = fresh \<or> ic_session_id c = in_id session \<and> ic_client_reference c = reference)
        (SqlError ''UNIQUE instant_calls'') row)
       (ret row)))"

definition newCall ::
  "instant_env \<Rightarrow> millis \<Rightarrow> id \<Rightarrow> request_principal \<Rightarrow> instant_session \<Rightarrow> string \<Rightarrow> (string \<times> json) list \<Rightarrow> instant_call dbtx" where
  "newCall env now fresh who session reference input =
    (let terms = in_terms session in
     andthen (newAuthority env now)
    (andthen (require (in_status session = I_open \<and> now < in_expires_at session * 1000)
        (InstantError ''INSTANT_SESSION_CLOSED'' 409))
    (andthen (require (\<not> referenceFleetLocked env (agent_of_seller (it_seller_id terms)))
        (InstantError ''REFERENCE_FLEET_PAID_SERVICES_LOCKED'' 409))
    (bnd (asks (\<lambda>s. isPublicMarketplaceSeller s (it_seller_id terms))) (\<lambda>public.
     andthen (require public (InstantError ''SELLER_NOT_PUBLIC'' 409))
    (andthen (require (fst (checkServiceInput input (schema_json (it_input_schema terms))) = Input_valid)
        (InstantError ''INSTANT_INPUT_INVALID'' 422))
    (andthen (enforceCall env now who terms)
    (andthen (checkCapacity now session)
    (andthen (require (\<not> in_balance_minor session - in_held_minor session < it_unit_price_minor terms)
        (InstantError ''SESSION_BUDGET_EXHAUSTED'' 402))
    (bnd (asks (\<lambda>s. length (filter (\<lambda>c. ic_session_id c = in_id session) (instant_calls s)))) (\<lambda>count.
     andthen (require (count < 1000) (InstantError ''SESSION_CALL_LIMIT'' 409))
       (insertCall env now fresh session reference (canonicalJSON (ie_show env) (J_obj input))))))))))))))"

definition createInstantCall ::
  "instant_env \<Rightarrow> millis \<Rightarrow> id \<Rightarrow> request_principal \<Rightarrow> id \<Rightarrow> string \<Rightarrow> (string \<times> json) list \<Rightarrow> (instant_call \<times> bool) dbtx" where
  "createInstantCall env now fresh who i reference input =
     bnd (sessionRow i) (\<lambda>session.
     andthen (require (in_buyer_id session = who_user who) (InstantError ''INSTANT_SESSION_NOT_FOUND'' 404))
    (bnd (select_one instant_calls (\<lambda>c. ic_session_id c = i \<and> ic_client_reference c = reference)) (\<lambda>prior. case prior of
        Some p \<Rightarrow>
          andthen (require (ic_input_hash p = ie_hash env (canonicalJSON (ie_show env) (J_obj input)))
              (InstantError ''IDEMPOTENCY_CONFLICT'' 409))
         (andthen (expireCalls now i)
            (bnd (callRow (ic_id p)) (\<lambda>c. ret (instantCallDto c, True))))
      | None \<Rightarrow> bnd (newCall env now fresh who session reference input) (\<lambda>c. ret (instantCallDto c, False)))))"

definition readInstantCall :: "millis \<Rightarrow> id \<Rightarrow> id \<Rightarrow> instant_call dbtx" where
  "readInstantCall now userId i =
     bnd (callRow i) (\<lambda>call.
     bnd (sessionRow (ic_session_id call)) (\<lambda>session.
     andthen (require (userId = in_buyer_id session \<or> userId = ic_seller_id call)
        (InstantError ''INSTANT_CALL_NOT_FOUND'' 404))
    (andthen (expireCalls now (in_id session))
       (bnd (callRow i) (\<lambda>c. ret (instantCallDto c))))))"

section \<open>The provider's side\<close>

definition hex64 :: "string \<Rightarrow> bool" where
  "hex64 h \<longleftrightarrow> length h = 64 \<and> list_all (\<lambda>c. c \<in> set ''0123456789abcdef'') h"

definition validLease :: "instant_env \<Rightarrow> instant_call \<Rightarrow> string \<Rightarrow> bool" where
  "validLease env call token = (case ic_lease_token_hash call of None \<Rightarrow> False
     | Some expected \<Rightarrow> hex64 expected \<and> expected = ie_hash env token)"

definition claimed_call :: "string \<Rightarrow> instant_call \<Rightarrow> instant_call" where
  "claimed_call lease c = c\<lparr>ic_state := C_claimed, ic_lease_token_hash := Some lease\<rparr>"

definition claimInstantCall :: "instant_env \<Rightarrow> millis \<Rightarrow> id \<Rightarrow> id \<Rightarrow> string \<Rightarrow> instant_call dbtx" where
  "claimInstantCall env now sellerId i token =
     bnd (callRow i) (\<lambda>first.
     andthen (require (ic_seller_id first = sellerId) (InstantError ''INSTANT_CALL_NOT_FOUND'' 404))
    (andthen (expireCalls now (ic_session_id first))
    (bnd (callRow i) (\<lambda>call.
     if ic_state call = C_failed then ret (instantCallDto call)
     else if ic_state call \<noteq> C_pending then
       andthen (require (validLease env call token) (InstantError ''LEASE_CONFLICT'' 409)) (ret (instantCallDto call))
     else bnd (update_calls (\<lambda>c. ic_id c = i \<and> ic_state c = C_pending) (claimed_call (ie_hash env token))) (\<lambda>rows.
       bnd (first_or (InstantError ''LEASE_CONFLICT'' 409) rows) (\<lambda>claimed. ret (instantCallDto claimed)))))))"

definition receipt_of :: "instant_env \<Rightarrow> millis \<Rightarrow> instant_session \<Rightarrow> instant_call \<Rightarrow> string \<Rightarrow> instant_receipt" where
  "receipt_of env now session call outputJson = \<lparr>ir_call_id = ic_id call, ir_session_id = in_id session,
     ir_service_id = in_service_id session, ir_buyer_id = in_buyer_id session, ir_seller_id = ic_seller_id call,
     ir_amount_minor = ic_unit_price_minor call, ir_input_sha256 = ic_input_hash call,
     ir_output_sha256 = ie_hash env outputJson, ir_settled_at = now\<rparr>"

definition charge :: "int \<Rightarrow> instant_session \<Rightarrow> instant_session" where
  "charge n x = x\<lparr>in_held_minor := in_held_minor x - n, in_balance_minor := in_balance_minor x - n,
     in_spent_minor := in_spent_minor x + n\<rparr>"

definition completed_call :: "millis \<Rightarrow> string \<Rightarrow> instant_receipt \<Rightarrow> instant_call \<Rightarrow> instant_call" where
  "completed_call now output receipt c = c\<lparr>ic_state := C_completed, ic_output_json := Some output,
     ic_receipt := Some receipt, ic_completed_at := Some (to_seconds now)\<rparr>"

definition chargeCall :: "instant_env \<Rightarrow> millis \<Rightarrow> instant_call \<Rightarrow> (string \<times> json) list \<Rightarrow> instant_call dbtx" where
  "chargeCall env now call output =
     bnd (sessionRow (ic_session_id call)) (\<lambda>session.
    (let price = ic_unit_price_minor call; outputJson = canonicalJSON (ie_show env) (J_obj output) in
     bnd (some_or (PlainError ''ZodError'')
         (verifyOutputSchema (Some output) (schema_json (it_output_schema (in_terms session))))) (\<lambda>check.
     andthen (require (vo_status check = V_passed) (InstantError ''INSTANT_OUTPUT_INVALID'' 422))
    (andthen (changeCredit (to_seconds now) (ic_seller_id call) (ic_id call) ''instant_sale'' price 0)
    (bnd (update_sessions (in_id session) (charge price)) (\<lambda>_.
     bnd (update_calls (\<lambda>c. ic_id c = ic_id call \<and> ic_state c = C_claimed)
         (completed_call now outputJson (receipt_of env now session call outputJson))) (\<lambda>rows.
     bnd (first_or (InstantError ''CALL_STATE_CHANGED'' 409) rows) (\<lambda>completed.
     bnd (finalizeSession now (in_id session)) (\<lambda>_. ret completed)))))))))"

definition completeInstantCall ::
  "instant_env \<Rightarrow> millis \<Rightarrow> id \<Rightarrow> id \<Rightarrow> string \<Rightarrow> instant_result \<Rightarrow> (instant_call \<times> bool) dbtx" where
  "completeInstantCall env now sellerId i token result =
     bnd (callRow i) (\<lambda>first.
     andthen (require (ic_seller_id first = sellerId) (InstantError ''INSTANT_CALL_NOT_FOUND'' 404))
    (andthen (require (validLease env first token) (InstantError ''LEASE_REJECTED'' 403))
      (if ic_state first = C_completed then
         andthen (require (case result of Gave_up \<Rightarrow> False
             | Answered output \<Rightarrow> Some (canonicalJSON (ie_show env) (J_obj output)) = ic_output_json first)
           (InstantError ''IDEMPOTENCY_CONFLICT'' 409)) (ret (instantCallDto first, True))
       else andthen (expireCalls now (ic_session_id first))
        (bnd (callRow i) (\<lambda>call.
         if ic_state call = C_failed then ret (instantCallDto call, True)
         else andthen (require (ic_state call = C_claimed) (InstantError ''LEASE_REJECTED'' 403))
          (case result of
             Gave_up \<Rightarrow> bnd (failCall now call ''PROVIDER_FAILED'') (\<lambda>failed.
               bnd (finalizeSession now (ic_session_id failed)) (\<lambda>_. ret (instantCallDto failed, False)))
           | Answered output \<Rightarrow> bnd (chargeCall env now call output) (\<lambda>completed.
               ret (instantCallDto completed, False))))))))"

definition listInstantProviderCalls :: "millis \<Rightarrow> id \<Rightarrow> db \<Rightarrow> instant_call list" where
  "listInstantProviderCalls now sellerId s = map
     (\<lambda>c. (instantCallDto c)\<lparr>ic_input_json := [], ic_output_json := None, ic_receipt := None\<rparr>)
     (take 100 (filter (\<lambda>c. ic_seller_id c = sellerId \<and> live_state (ic_state c) \<and> to_seconds now < ic_deadline_at c)
        (instant_calls s)))"

section \<open>The sweep\<close>

definition due_session :: "millis \<Rightarrow> instant_session \<Rightarrow> bool" where
  "due_session now x \<longleftrightarrow> in_status x \<noteq> I_closed \<and> (in_status x = I_closing \<or> in_expires_at x \<le> to_seconds now)"

definition reconcileInstantSessions :: "millis \<Rightarrow> nat \<Rightarrow> (nat \<times> nat) dbtx" where
  "reconcileInstantSessions now limit =
     bnd (asks (\<lambda>s. take limit (filter (\<lambda>c. live_state (ic_state c) \<and> overdue_call now c) (instant_calls s)))) (\<lambda>expired.
     andthen (foreach expired (\<lambda>c. bnd (failCall now c ''CALL_DEADLINE_EXCEEDED'')
        (\<lambda>_. bnd (finalizeSession now (ic_session_id c)) (\<lambda>_. ret ()))))
    (bnd (asks (\<lambda>s. take limit (filter (due_session now) (instant_sessions s)))) (\<lambda>sessions.
     andthen (foreach sessions (\<lambda>x. bnd (finalizeSession now (in_id x)) (\<lambda>_. ret ())))
       (ret (length expired, length sessions)))))"

end
