(* ===== verification/InstantSafety.thy ===== *)
theory InstantSafety
  imports InstantExecution ServiceOrders
begin

text \<open>
  What the operations of instant execution promise: the money of a session always
  adds up with the credit journal, a call is charged at most once and only for an
  answer of the agreed type, calls and sessions follow their state machines, and
  a session that has expired is closed and refunded by the next request for it.

  One invariant, \<open>instant_sound\<close>, carries all of it.  \<open>tracked\<close> adds the state an
  execution began in and the rows it has read, so that a row read earlier in a
  transaction is still known to have the terms of the stored one.
\<close>

section \<open>The machines\<close>

definition call_moves :: "call_state \<Rightarrow> call_state list" where
  "call_moves p = (case p of C_pending \<Rightarrow> [C_claimed, C_failed] | C_claimed \<Rightarrow> [C_completed, C_failed]
     | C_completed \<Rightarrow> [] | C_failed \<Rightarrow> [])"

definition call_move :: "call_state \<Rightarrow> call_state \<Rightarrow> bool" where
  "call_move p q \<longleftrightarrow> q \<in> set (call_moves p)"

definition call_final :: "call_state \<Rightarrow> bool" where
  "call_final p \<longleftrightarrow> p = C_completed \<or> p = C_failed"

definition call_phase :: "call_state \<Rightarrow> nat" where
  "call_phase p = (case p of C_pending \<Rightarrow> 0 | C_claimed \<Rightarrow> 1 | _ \<Rightarrow> 2)"

definition session_move :: "instant_status \<Rightarrow> instant_status \<Rightarrow> bool" where
  "session_move p q \<longleftrightarrow> (p = I_open \<and> q \<noteq> I_open) \<or> (p = I_closing \<and> q = I_closed)"

definition session_phase :: "instant_status \<Rightarrow> nat" where
  "session_phase p = (case p of I_open \<Rightarrow> 0 | I_closing \<Rightarrow> 1 | I_closed \<Rightarrow> 2)"

lemmas call_machine_defs = call_move_def call_moves_def call_final_def call_phase_def
lemmas session_machine_defs = session_move_def session_phase_def

interpretation km: machine call_move call_final call_phase
proof unfold_locales
  fix p q show "call_final p \<Longrightarrow> \<not> call_move p q"
    by (cases p) (auto simp: call_machine_defs)
  show "\<not> call_final p \<Longrightarrow> \<exists>q. call_move p q"
    by (cases p) (auto simp: call_machine_defs)
  show "call_move p q \<Longrightarrow> call_phase p \<le> call_phase q"
    by (cases p) (auto simp: call_machine_defs)
  have "call_move C_pending C_failed" "call_move C_claimed C_failed" by (simp_all add: call_machine_defs)
  then show "\<exists>q. call_move\<^sup>*\<^sup>* p q \<and> call_final q"
    by (cases p) (auto simp: call_final_def intro: r_into_rtranclp)
qed

interpretation sm: machine session_move "\<lambda>p. p = I_closed" session_phase
proof unfold_locales
  fix p q show "p = I_closed \<Longrightarrow> \<not> session_move p q" by (simp add: session_machine_defs)
  show "p \<noteq> I_closed \<Longrightarrow> \<exists>q. session_move p q" by (cases p) (auto simp: session_machine_defs)
  show "session_move p q \<Longrightarrow> session_phase p \<le> session_phase q"
    by (cases p; cases q) (auto simp: session_machine_defs)
  have "session_move I_open I_closed" "session_move I_closing I_closed" by (simp_all add: session_machine_defs)
  then show "\<exists>q. session_move\<^sup>*\<^sup>* p q \<and> q = I_closed"
    by (cases p) (auto intro: r_into_rtranclp)
qed

text \<open>The part of a row that no operation changes.\<close>

definition call_terms :: "instant_call \<Rightarrow> id \<times> id \<times> id \<times> id \<times> string \<times> string \<times> string \<times> int \<times> seconds" where
  "call_terms c = (ic_id c, ic_session_id c, ic_service_id c, ic_seller_id c, ic_client_reference c, ic_input_json c,
     ic_input_hash c, ic_unit_price_minor c, ic_deadline_at c)"

definition session_terms :: "instant_session \<Rightarrow> id \<times> id \<times> id \<times> string \<times> instant_terms \<times> int \<times> seconds \<times> seconds" where
  "session_terms x = (in_id x, in_buyer_id x, in_service_id x, in_client_reference x, in_terms x, in_budget_minor x,
     in_created_at x, in_expires_at x)"

definition call_at :: "db \<Rightarrow> id \<Rightarrow> instant_call option" where
  "call_at s i = find (\<lambda>c. ic_id c = i) (instant_calls s)"

definition session_at :: "db \<Rightarrow> id \<Rightarrow> instant_session option" where
  "session_at s i = find (\<lambda>x. in_id x = i) (instant_sessions s)"

definition call_follows :: "instant_call \<Rightarrow> instant_call \<Rightarrow> bool" where
  "call_follows c c' \<longleftrightarrow> call_terms c' = call_terms c \<and> call_move\<^sup>*\<^sup>* (ic_state c) (ic_state c')
     \<and> (call_final (ic_state c) \<longrightarrow> c' = c)"

definition session_follows :: "instant_session \<Rightarrow> instant_session \<Rightarrow> bool" where
  "session_follows x x' \<longleftrightarrow> session_terms x' = session_terms x \<and> session_move\<^sup>*\<^sup>* (in_status x) (in_status x')
     \<and> in_spent_minor x \<le> in_spent_minor x' \<and> (in_status x = I_closed \<longrightarrow> x' = x)"

definition rows_follow :: "('r \<Rightarrow> 'r \<Rightarrow> bool) \<Rightarrow> (id \<Rightarrow> 'r option) \<Rightarrow> (id \<Rightarrow> 'r option) \<Rightarrow> bool" where
  "rows_follow F t t' \<longleftrightarrow> (\<forall>i r. t i = Some r \<longrightarrow> (\<exists>r'. t' i = Some r' \<and> F r r'))"

definition instant_run :: "db \<Rightarrow> db \<Rightarrow> bool" where
  "instant_run s s' \<longleftrightarrow> rows_follow call_follows (call_at s) (call_at s')
     \<and> rows_follow session_follows (session_at s) (session_at s')"

lemma rows_follow_refl: "(\<And>r. F r r) \<Longrightarrow> rows_follow F t t"
  by (simp add: rows_follow_def)

lemma rows_follow_trans:
  assumes "rows_follow F t u" and "rows_follow F u v" and "\<And>a b c. F a b \<Longrightarrow> F b c \<Longrightarrow> F a c"
  shows "rows_follow F t v"
  unfolding rows_follow_def
proof (intro allI impI)
  fix i r assume "t i = Some r"
  then obtain r1 where "u i = Some r1" "F r r1" using assms(1) unfolding rows_follow_def by blast
  moreover then obtain r2 where "v i = Some r2" "F r1 r2" using assms(2) unfolding rows_follow_def by blast
  ultimately show "\<exists>r'. v i = Some r' \<and> F r r'" using assms(3) by blast
qed

lemma call_follows_refl: "call_follows c c"
  by (simp add: call_follows_def)

lemma call_follows_trans: "call_follows c d \<Longrightarrow> call_follows d e \<Longrightarrow> call_follows c e"
  unfolding call_follows_def by (metis rtranclp_trans)

lemma session_follows_refl: "session_follows x x"
  by (simp add: session_follows_def)

lemma session_follows_trans: "session_follows x y \<Longrightarrow> session_follows y z \<Longrightarrow> session_follows x z"
  unfolding session_follows_def by (metis order_trans rtranclp_trans)

interpretation ir: preorder_tx instant_run
proof unfold_locales
  show "instant_run s s" for s
    unfolding instant_run_def by (intro conjI rows_follow_refl call_follows_refl session_follows_refl)
  show "instant_run s t \<Longrightarrow> instant_run t u \<Longrightarrow> instant_run s u" for s t u
    unfolding instant_run_def
    using rows_follow_trans [of call_follows] rows_follow_trans [of session_follows] call_follows_trans
      session_follows_trans by meson
qed

section \<open>The invariant\<close>

definition held_for :: "db \<Rightarrow> id \<Rightarrow> int" where
  "held_for s i = sum_rows (\<lambda>c. ic_session_id c = i \<and> live_state (ic_state c)) ic_unit_price_minor (instant_calls s)"

definition charged_for :: "db \<Rightarrow> id \<Rightarrow> int" where
  "charged_for s i = sum_rows (\<lambda>c. ic_session_id c = i \<and> ic_state c = C_completed) ic_unit_price_minor (instant_calls s)"

definition calls_of :: "db \<Rightarrow> id \<Rightarrow> instant_call list" where
  "calls_of s i = filter (\<lambda>c. ic_session_id c = i) (instant_calls s)"

definition terms_ok :: "instant_terms \<Rightarrow> bool" where
  "terms_ok t \<longleftrightarrow> 1 \<le> it_unit_price_minor t \<and> it_unit_price_minor t \<le> 100
     \<and> schema_ok (it_input_schema t) \<and> schema_ok (it_output_schema t)"

text \<open>A session on its own, and with its calls.\<close>

definition session_alone :: "instant_session \<Rightarrow> bool" where
  "session_alone x \<longleftrightarrow> session_conservation x \<and> terms_ok (in_terms x)
     \<and> (if in_status x = I_closed then in_balance_minor x = 0 else in_refunded_minor x = 0)"

definition session_adds_up :: "db \<Rightarrow> instant_session \<Rightarrow> bool" where
  "session_adds_up s x \<longleftrightarrow> in_held_minor x = held_for s (in_id x) \<and> in_spent_minor x = charged_for s (in_id x)
     \<and> length (calls_of s (in_id x)) \<le> 1000"

text \<open>An answer: an artifact of the agreed output type, in its canonical text, under a receipt for the price.\<close>

definition was_answered :: "instant_env \<Rightarrow> instant_session \<Rightarrow> instant_call \<Rightarrow> bool" where
  "was_answered env x c \<longleftrightarrow> (\<exists>es r. ic_output_json c = Some (canonicalJSON (ie_show env) (J_obj es))
     \<and> well_typed (it_output_schema (in_terms x)) es \<and> ic_receipt c = Some r
     \<and> ir_amount_minor r = ic_unit_price_minor c \<and> ir_call_id r = ic_id c \<and> ir_buyer_id r = in_buyer_id x
     \<and> ir_seller_id r = ic_seller_id c \<and> ir_input_sha256 r = ic_input_hash c
     \<and> ir_output_sha256 r = ie_hash env (canonicalJSON (ie_show env) (J_obj es)))"

definition call_fits :: "instant_env \<Rightarrow> instant_session \<Rightarrow> instant_call \<Rightarrow> bool" where
  "call_fits env x c \<longleftrightarrow> ic_session_id c = in_id x \<and> ic_service_id c = in_service_id x
     \<and> ic_seller_id c = it_seller_id (in_terms x) \<and> ic_unit_price_minor c = it_unit_price_minor (in_terms x)
     \<and> ic_deadline_at c \<le> in_expires_at x \<and> ic_input_hash c = ie_hash env (ic_input_json c)
     \<and> (\<exists>es. ic_input_json c = canonicalJSON (ie_show env) (J_obj es) \<and> well_typed (it_input_schema (in_terms x)) es)
     \<and> (if ic_state c = C_completed then was_answered env x c else ic_output_json c = None \<and> ic_receipt c = None)"

text \<open>The credit journal says the same: one entry for each funding, charge and refund, and no other.\<close>

definition session_posted :: "db \<Rightarrow> instant_session \<Rightarrow> bool" where
  "session_posted s x \<longleftrightarrow>
     posted s (in_buyer_id x) (in_id x) ''instant_funding'' = Some (- in_budget_minor x, 0)
   \<and> posted s (in_buyer_id x) (in_id x) ''instant_refund'' =
       (if in_refunded_minor x = 0 then None else Some (in_refunded_minor x, 0))"

definition call_posted :: "db \<Rightarrow> instant_call \<Rightarrow> bool" where
  "call_posted s c \<longleftrightarrow> posted s (ic_seller_id c) (ic_id c) ''instant_sale'' =
     (if ic_state c = C_completed then Some (ic_unit_price_minor c, 0) else None)"

definition instant_kinds :: "string list" where
  "instant_kinds = [''instant_funding'', ''instant_refund'', ''instant_sale'']"

definition entry_known :: "db \<Rightarrow> credit_entry \<Rightarrow> bool" where
  "entry_known s e \<longleftrightarrow> (ce_kind e = ''instant_sale'' \<longrightarrow> ce_reference e \<in> set (map ic_id (instant_calls s)))
     \<and> (ce_kind e = ''instant_funding'' \<or> ce_kind e = ''instant_refund'' \<longrightarrow>
          ce_reference e \<in> set (map in_id (instant_sessions s)))"

definition services_ok :: "db \<Rightarrow> bool" where
  "services_ok s \<longleftrightarrow> (\<forall>d \<in> set (instant_services s). service_bounds d
     \<and> schema_ok (is_input_schema d) \<and> schema_ok (is_output_schema d))"

definition instant_sound :: "instant_env \<Rightarrow> db \<Rightarrow> bool" where
  "instant_sound env s \<longleftrightarrow> books s \<and> services_ok s
     \<and> distinct (map in_id (instant_sessions s)) \<and> distinct (map ic_id (instant_calls s))
     \<and> (\<forall>x \<in> set (instant_sessions s). session_alone x \<and> session_adds_up s x \<and> session_posted s x)
     \<and> (\<forall>c \<in> set (instant_calls s). (\<exists>x \<in> set (instant_sessions s). call_fits env x c) \<and> call_posted s c)
     \<and> (\<forall>e \<in> set (credit_entries s). entry_known s e)"

text \<open>All the credit there is: balances, escrow, and what sits in sessions.\<close>

definition wealth :: "db \<Rightarrow> int" where
  "wealth s = total_credit s + sum_rows (\<lambda>_. True) in_balance_minor (instant_sessions s)"

section \<open>One call changes\<close>

lemma call_terms_eq:
  "call_terms c' = call_terms c \<Longrightarrow> ic_id c' = ic_id c \<and> ic_session_id c' = ic_session_id c
     \<and> ic_service_id c' = ic_service_id c \<and> ic_seller_id c' = ic_seller_id c \<and> ic_input_json c' = ic_input_json c
     \<and> ic_input_hash c' = ic_input_hash c \<and> ic_unit_price_minor c' = ic_unit_price_minor c
     \<and> ic_deadline_at c' = ic_deadline_at c"
  by (simp add: call_terms_def)

lemma session_terms_eq:
  "session_terms x' = session_terms x \<Longrightarrow> in_id x' = in_id x \<and> in_buyer_id x' = in_buyer_id x
     \<and> in_service_id x' = in_service_id x \<and> in_terms x' = in_terms x \<and> in_budget_minor x' = in_budget_minor x
     \<and> in_expires_at x' = in_expires_at x"
  by (simp add: session_terms_def)

lemma live_not_final: "live_state st \<longleftrightarrow> \<not> call_final st"
  by (cases st) (auto simp: live_state_def call_final_def)

lemma find_at: "distinct (map k rs) \<Longrightarrow> r \<in> set rs \<Longrightarrow> k r = i \<Longrightarrow> find (\<lambda>q. k q = i) rs = Some r"
  using find_unique by force

lemma updated_row:
  assumes "r' \<in> set (set_rows p f rs)" and "\<And>r. r \<in> set rs \<Longrightarrow> p r \<longleftrightarrow> k r = i"
  obtains r where "r \<in> set rs" "k r = i" "r' = f r" | "r' \<in> set rs" "k r' \<noteq> i"
  using assms by (auto simp: set_set_rows)

lemma distinct_updated:
  assumes "\<And>r. r \<in> set rs \<Longrightarrow> k (f r) = k r"
  shows "map k (set_rows p f rs) = map k rs"
  using assms by (induction rs) auto

lemma find_updated:
  assumes "distinct (map k rs)" and "r \<in> set rs" and "\<And>q. q \<in> set rs \<Longrightarrow> p q \<longleftrightarrow> k q = k r" and "k (f r) = k r"
  shows "find (\<lambda>q. k q = i) (set_rows p f rs) = (if i = k r then Some (f r) else find (\<lambda>q. k q = i) rs)"
  using assms
proof (induction rs)
  case (Cons a rs)
  show ?case
  proof (cases "a = r")
    case True
    have "k q \<noteq> k r" if "q \<in> set rs" for q using that True Cons.prems(1) by (auto simp: image_iff)
    with Cons.prems(3) have "set_rows p f rs = rs" by (intro set_rows_id) auto
    with True Cons.prems show ?thesis by simp
  next
    case False
    with Cons.prems have r: "r \<in> set rs" by simp
    then have "k a \<noteq> k r" using Cons.prems(1) by (auto simp: image_iff)
    with Cons.prems(3) have "\<not> p a" by simp
    with Cons.IH [OF _ r] Cons.prems \<open>k a \<noteq> k r\<close> show ?thesis by auto
  qed
qed simp

text \<open>How the sums over a session's calls move with one of them.\<close>

lemma held_step:
  assumes "distinct (map ic_id (instant_calls s))" and "c \<in> set (instant_calls s)" and "call_terms (f c) = call_terms c"
    and "\<And>r. r \<in> set (instant_calls s) \<Longrightarrow> p r \<longleftrightarrow> ic_id r = ic_id c"
    and "instant_calls s' = set_rows p f (instant_calls s)"
  shows "held_for s' i = held_for s i + (if ic_session_id c = i
      then (if live_state (ic_state (f c)) then ic_unit_price_minor c else 0)
         - (if live_state (ic_state c) then ic_unit_price_minor c else 0) else 0)"
  using sum_rows_set_rows_one [of ic_id "instant_calls s" c p "\<lambda>c. ic_session_id c = i \<and> live_state (ic_state c)" ic_unit_price_minor f]
    assms(1,2,4) call_terms_eq [OF assms(3)]
  by (auto simp: held_for_def assms(5))

lemma charged_step:
  assumes "distinct (map ic_id (instant_calls s))" and "c \<in> set (instant_calls s)" and "call_terms (f c) = call_terms c"
    and "\<And>r. r \<in> set (instant_calls s) \<Longrightarrow> p r \<longleftrightarrow> ic_id r = ic_id c"
    and "instant_calls s' = set_rows p f (instant_calls s)"
  shows "charged_for s' i = charged_for s i + (if ic_session_id c = i
      then (if ic_state (f c) = C_completed then ic_unit_price_minor c else 0)
         - (if ic_state c = C_completed then ic_unit_price_minor c else 0) else 0)"
  using sum_rows_set_rows_one [of ic_id "instant_calls s" c p "\<lambda>c. ic_session_id c = i \<and> ic_state c = C_completed" ic_unit_price_minor f]
    assms(1,2,4) call_terms_eq [OF assms(3)]
  by (auto simp: charged_for_def assms(5))

lemma calls_of_step:
  assumes "\<And>r. r \<in> set (instant_calls s) \<Longrightarrow> p r \<Longrightarrow> ic_session_id (f r) = ic_session_id r"
    and "instant_calls s' = set_rows p f (instant_calls s)"
  shows "length (calls_of s' i) = length (calls_of s i)"
proof -
  have "length (filter (\<lambda>c. ic_session_id c = i) (set_rows p f rs)) = length (filter (\<lambda>c. ic_session_id c = i) rs)"
    if "\<And>r. r \<in> set rs \<Longrightarrow> p r \<Longrightarrow> ic_session_id (f r) = ic_session_id r" for rs
    using that by (induction rs) auto
  then show ?thesis using assms by (simp add: calls_of_def)
qed

text \<open>
  A live call takes a new state, together with its session.  The new state says
  how the session's amounts move; a charge also adds its entry to the journal.
\<close>

definition price_if :: "bool \<Rightarrow> instant_call \<Rightarrow> int" where
  "price_if b c = (if b then ic_unit_price_minor c else 0)"

definition moved_session :: "instant_session \<Rightarrow> instant_call \<Rightarrow> call_state \<Rightarrow> instant_session \<Rightarrow> bool" where
  "moved_session x c st x' \<longleftrightarrow> session_terms x' = session_terms x \<and> in_status x' = in_status x
     \<and> in_refunded_minor x' = in_refunded_minor x \<and> session_conservation x'
     \<and> in_held_minor x' = in_held_minor x - price_if (\<not> live_state st) c
     \<and> in_spent_minor x' = in_spent_minor x + price_if (st = C_completed) c"

lemma fits_session:
  assumes "session_terms x' = session_terms x"
  shows "call_fits env x' c = call_fits env x c" and "was_answered env x' c = was_answered env x c"
  using session_terms_eq [OF assms] by (simp_all add: call_fits_def was_answered_def del: canonicalJSON.simps)

lemma row_fits:
  assumes "instant_sound env s" and "c \<in> set (instant_calls s)" and "x \<in> set (instant_sessions s)"
    and "in_id x = ic_session_id c"
  shows "call_fits env x c"
proof -
  obtain y where y: "y \<in> set (instant_sessions s)" "call_fits env y c"
    using assms(1,2) unfolding instant_sound_def by blast
  then have "in_id y = in_id x" using assms(4) by (simp add: call_fits_def)
  with y(1) assms(1,3) have "y = x" unfolding instant_sound_def by (metis unique_key_eq)
  with y show ?thesis by simp
qed

lemma session_of_call:
  assumes "instant_sound env s" and "c \<in> set (instant_calls s)"
  obtains x where "x \<in> set (instant_sessions s)" "in_id x = ic_session_id c" "call_fits env x c"
proof -
  obtain x where "x \<in> set (instant_sessions s)" "call_fits env x c"
    using assms unfolding instant_sound_def by blast
  then show ?thesis using that by (simp add: call_fits_def)
qed

lemma live_is_held:
  assumes "instant_sound env s" and "c \<in> set (instant_calls s)" and "live_state (ic_state c)"
    and "x \<in> set (instant_sessions s)" and "in_id x = ic_session_id c"
  shows "ic_unit_price_minor c \<le> in_held_minor x" and "1 \<le> ic_unit_price_minor c" and "in_status x \<noteq> I_closed"
proof -
  have price: "1 \<le> ic_unit_price_minor r" if r: "r \<in> set (instant_calls s)" for r
  proof -
    obtain y where "y \<in> set (instant_sessions s)" "call_fits env y r"
      using session_of_call [OF assms(1) r] by blast
    then show ?thesis using assms(1) unfolding instant_sound_def session_alone_def terms_ok_def call_fits_def by auto
  qed
  show p: "1 \<le> ic_unit_price_minor c" by (rule price [OF assms(2)])
  have "ic_unit_price_minor c \<le> held_for s (in_id x)"
    unfolding held_for_def using assms(2,3,5) price by (intro sum_rows_member_le) force+
  moreover have x: "session_alone x" "in_held_minor x = held_for s (in_id x)"
    using assms(1,4) unfolding instant_sound_def session_adds_up_def by blast+
  ultimately show h: "ic_unit_price_minor c \<le> in_held_minor x" by simp
  then show "in_status x \<noteq> I_closed" using x(1) p unfolding session_alone_def session_conservation_def by auto
qed

lemma call_step:
  assumes sound: "instant_sound env s" and c: "c \<in> set (instant_calls s)" "live_state (ic_state c)"
    and x: "x \<in> set (instant_sessions s)" "in_id x = ic_session_id c"
    and p: "\<And>r. r \<in> set (instant_calls s) \<Longrightarrow> p r \<longleftrightarrow> ic_id r = ic_id c"
    and f: "call_terms (f c) = call_terms c" "call_move (ic_state c) (ic_state (f c))"
    and g: "moved_session x c (ic_state (f c)) (g x)"
    and answer: "if ic_state (f c) = C_completed then was_answered env x (f c) else ic_output_json (f c) = None \<and> ic_receipt (f c) = None"
    and s': "instant_calls s' = set_rows p f (instant_calls s)"
      "instant_sessions s' = set_rows (\<lambda>y. in_id y = in_id x) g (instant_sessions s)"
      "instant_services s' = instant_services s" "books s'"
    and posted': "\<And>u r k. posted s' u r k = (if ic_state (f c) = C_completed \<and> u = ic_seller_id c \<and> r = ic_id c
        \<and> k = ''instant_sale'' then Some (ic_unit_price_minor c, 0) else posted s u r k)"
    and entries': "\<And>e. e \<in> set (credit_entries s') \<Longrightarrow> e \<in> set (credit_entries s)
        \<or> ce_kind e = ''instant_sale'' \<and> ce_reference e = ic_id c"
  shows "instant_sound env s'" and "instant_run s s'"
proof -
  note S = sound [unfolded instant_sound_def]
  note ft = call_terms_eq [OF f(1)]
  have gt: "session_terms (g x) = session_terms x" "in_status (g x) = in_status x" using g by (simp_all add: moved_session_def)
  note gt' = session_terms_eq [OF gt(1)]
  have dc: "distinct (map ic_id (instant_calls s))" and dx: "distinct (map in_id (instant_sessions s))" using S by blast+
  have px: "\<And>y. y \<in> set (instant_sessions s) \<Longrightarrow> in_id y = in_id x \<longleftrightarrow> y = x" using unique_key_eq [OF dx _ x(1)] by blast
  have pc: "\<And>r. r \<in> set (instant_calls s) \<Longrightarrow> p r \<longleftrightarrow> r = c" using p unique_key_eq [OF dc _ c(1)] by blast
  have calls': "set (instant_calls s') = insert (f c) (set (instant_calls s) - {c})"
    using pc c(1) by (auto simp: s'(1) set_set_rows)
  have sess': "set (instant_sessions s') = insert (g x) (set (instant_sessions s) - {x})"
    using px x(1) by (auto simp: s'(2) set_set_rows)
  note held = held_step [OF dc c(1) f(1) p s'(1)] and charged = charged_step [OF dc c(1) f(1) p s'(1)]
  have count: "length (calls_of s' i) = length (calls_of s i)" for i
    by (rule calls_of_step [OF _ s'(1)]) (use pc ft in auto)
  have notdone: "ic_state c \<noteq> C_completed" using c(2) by (auto simp: live_state_def)
  have fits: "call_fits env x c" by (rule row_fits [OF sound c(1) x])
  have alone: "session_alone (g x)"
    using S x(1) g gt gt' live_is_held(3) [OF sound c x] unfolding session_alone_def moved_session_def by auto
  have adds: "session_adds_up s' y" if "y \<in> set (instant_sessions s')" for y
  proof (cases "y = g x")
    case True
    have "session_adds_up s x" using S x(1) by blast
    then show ?thesis using True g c(2) notdone x(2) gt'
      by (auto simp: session_adds_up_def held charged count moved_session_def price_if_def)
  next
    case False
    with that have y: "y \<in> set (instant_sessions s)" "y \<noteq> x" by (auto simp: sess')
    then have "in_id y \<noteq> ic_session_id c" using px x(2) by metis
    then show ?thesis using S y(1) by (auto simp: session_adds_up_def held charged count)
  qed
  have sess_posted: "session_posted s' y" if "y \<in> set (instant_sessions s')" for y
  proof -
    have "session_posted s y"
    proof (cases "y = g x")
      case True
      have "session_posted s x" using S x(1) by blast
      then show ?thesis using True g gt' by (simp add: session_posted_def moved_session_def)
    next
      case False then show ?thesis using that S by (auto simp: sess')
    qed
    then show ?thesis by (simp add: session_posted_def posted')
  qed
  have fits': "\<exists>y \<in> set (instant_sessions s'). call_fits env y r" if r: "r \<in> set (instant_calls s')" for r
  proof (cases "r = f c")
    case True
    have "call_fits env (g x) (f c)"
      using fits answer ft gt(1) unfolding fits_session [OF gt(1)] by (simp add: call_fits_def split: if_splits)
    then show ?thesis using True by (auto simp: sess')
  next
    case False
    with r obtain y where y: "y \<in> set (instant_sessions s)" "call_fits env y r" using S by (auto simp: calls')
    show ?thesis
    proof (cases "y = x")
      case True
      with y(2) have "call_fits env (g x) r" by (simp add: fits_session [OF gt(1)])
      then show ?thesis by (auto simp: sess')
    qed (use y in \<open>auto simp: sess'\<close>)
  qed
  have posts: "call_posted s' r" if r: "r \<in> set (instant_calls s')" for r
  proof (cases "r = f c")
    case True
    have "call_posted s c" using S c(1) by blast
    then show ?thesis using True ft notdone by (auto simp: call_posted_def posted')
  next
    case False
    with r have r': "r \<in> set (instant_calls s)" "r \<noteq> c" by (auto simp: calls')
    with pc p have "ic_id r \<noteq> ic_id c" by metis
    then show ?thesis using S r'(1) by (auto simp: call_posted_def posted')
  qed
  have keys: "map ic_id (instant_calls s') = map ic_id (instant_calls s)"
    "map in_id (instant_sessions s') = map in_id (instant_sessions s)"
  proof -
    have "ic_id (if p r then f r else r) = ic_id r" if "r \<in> set (instant_calls s)" for r using pc [OF that] ft by auto
    then show "map ic_id (instant_calls s') = map ic_id (instant_calls s)" by (simp add: s'(1) set_rows_def)
    have "in_id (if in_id y = in_id x then g y else y) = in_id y" if "y \<in> set (instant_sessions s)" for y
      using px [OF that] gt' by auto
    then show "map in_id (instant_sessions s') = map in_id (instant_sessions s)" by (simp add: s'(2) set_rows_def)
  qed
  have known: "entry_known s' e" if e: "e \<in> set (credit_entries s')" for e
    using entries' [OF e]
  proof
    assume "e \<in> set (credit_entries s)"
    then have "entry_known s e" using S by blast
    then show ?thesis unfolding entry_known_def keys .
  next
    assume e: "ce_kind e = ''instant_sale'' \<and> ce_reference e = ic_id c"
    then show ?thesis unfolding entry_known_def keys using c(1) by simp
  qed
  have "services_ok s'" using S s'(3) by (simp add: services_ok_def)
  moreover have "session_alone y" if "y \<in> set (instant_sessions s')" for y
    using that alone S by (auto simp: sess')
  ultimately show "instant_sound env s'"
    unfolding instant_sound_def keys using S adds sess_posted fits' posts known s'(4) by blast
  have "call_follows c (f c)"
    using f c(2) by (auto simp: call_follows_def live_not_final)
  then have "rows_follow call_follows (call_at s) (call_at s')"
    unfolding rows_follow_def call_at_def s'(1) using find_updated [where k = ic_id, OF dc c(1) p] ft call_follows_refl
      find_at [OF dc c(1)] by auto
  moreover have "session_follows x (g x)"
  proof -
    have "0 \<le> price_if b c" for b using live_is_held(2) [OF sound c x] by (simp add: price_if_def)
    then show ?thesis using gt g live_is_held(3) [OF sound c x] by (simp add: session_follows_def moved_session_def)
  qed
  then have "rows_follow session_follows (session_at s) (session_at s')"
    unfolding rows_follow_def session_at_def s'(2)
    using find_updated [where k = in_id, OF dx x(1)] gt' session_follows_refl find_at [OF dx x(1)] by auto
  ultimately show "instant_run s s'" by (simp add: instant_run_def)
qed

section \<open>A session changes, a row is added\<close>

lemma posted_unknown:
  assumes "\<And>e. e \<in> set (credit_entries s) \<Longrightarrow> ce_kind e = k \<Longrightarrow> ce_reference e \<noteq> r"
  shows "posted s u r k = None"
  using assms by (auto simp: posted_def find_None_iff)

lemma session_step:
  assumes sound: "instant_sound env s" and x: "x \<in> set (instant_sessions s)" "in_status x \<noteq> I_closed"
    and g: "session_terms (g x) = session_terms x" "session_conservation (g x)" "in_held_minor (g x) = in_held_minor x"
      "in_spent_minor (g x) = in_spent_minor x" "session_move (in_status x) (in_status (g x)) \<or> in_status (g x) = in_status x"
      "if in_status (g x) = I_closed then in_balance_minor (g x) = 0 else in_refunded_minor (g x) = 0"
    and s': "instant_sessions s' = set_rows (\<lambda>y. in_id y = in_id x) g (instant_sessions s)"
      "instant_calls s' = instant_calls s" "instant_services s' = instant_services s" "books s'"
    and posted': "\<And>u r k. posted s' u r k = (if in_refunded_minor (g x) \<noteq> 0 \<and> u = in_buyer_id x \<and> r = in_id x
        \<and> k = ''instant_refund'' then Some (in_refunded_minor (g x), 0) else posted s u r k)"
    and entries': "\<And>e. e \<in> set (credit_entries s') \<Longrightarrow> e \<in> set (credit_entries s)
        \<or> ce_kind e = ''instant_refund'' \<and> ce_reference e = in_id x"
  shows "instant_sound env s'" and "instant_run s s'"
proof -
  note S = sound [unfolded instant_sound_def]
  note gt = session_terms_eq [OF g(1)]
  have dx: "distinct (map in_id (instant_sessions s))" using S by blast
  have px: "\<And>y. y \<in> set (instant_sessions s) \<Longrightarrow> in_id y = in_id x \<longleftrightarrow> y = x" using unique_key_eq [OF dx _ x(1)] by blast
  have sess': "set (instant_sessions s') = insert (g x) (set (instant_sessions s) - {x})"
    using px x(1) by (auto simp: s'(1) set_set_rows)
  have "in_id (if in_id y = in_id x then g y else y) = in_id y" if "y \<in> set (instant_sessions s)" for y
    using px [OF that] gt by auto
  then have keys: "map in_id (instant_sessions s') = map in_id (instant_sessions s)" by (simp add: s'(1) set_rows_def)
  have sums: "held_for s' = held_for s" "charged_for s' = charged_for s" "calls_of s' = calls_of s"
    by (simp_all add: fun_eq_iff held_for_def charged_for_def calls_of_def s'(2))
  have X: "session_alone x" "session_adds_up s x" "session_posted s x" using S x(1) by blast+
  have alone: "session_alone (g x)" using X(1) g gt by (simp add: session_alone_def)
  have adds: "session_adds_up s' (g x)" using X(2) g gt by (simp add: session_adds_up_def sums)
  have refund: "in_refunded_minor x = 0" using X(1) x(2) by (simp add: session_alone_def)
  have post: "session_posted s' (g x)" using X(3) refund gt by (simp add: session_posted_def posted')
  have other: "session_posted s' y" if "y \<in> set (instant_sessions s) - {x}" for y
  proof -
    have "in_id y \<noteq> in_id x" "session_posted s y" using that px S by blast+
    then show ?thesis by (simp add: session_posted_def posted')
  qed
  have "call_posted s' c = call_posted s c" for c by (simp add: call_posted_def posted')
  moreover have "\<exists>y \<in> set (instant_sessions s'). call_fits env y c" if c: "c \<in> set (instant_calls s)" for c
  proof -
    obtain y where y: "y \<in> set (instant_sessions s)" "call_fits env y c" using S c by blast
    show ?thesis
    proof (cases "y = x")
      case True
      with y(2) have "call_fits env (g x) c" by (simp add: fits_session [OF g(1)])
      then show ?thesis by (simp add: sess')
    next
      case False with y show ?thesis by (simp add: sess') blast
    qed
  qed
  moreover have "entry_known s' e" if e: "e \<in> set (credit_entries s')" for e
    using entries' [OF e]
  proof
    assume "e \<in> set (credit_entries s)"
    then have "entry_known s e" using S by blast
    then show ?thesis unfolding entry_known_def keys s'(2) .
  next
    assume "ce_kind e = ''instant_refund'' \<and> ce_reference e = in_id x"
    then show ?thesis unfolding entry_known_def keys using x(1) by simp
  qed
  moreover have "session_alone y \<and> session_adds_up s' y \<and> session_posted s' y" if "y \<in> set (instant_sessions s')" for y
    using that alone adds post other S unfolding sess' session_adds_up_def sums by blast
  moreover have "services_ok s'" using S s'(3) by (simp add: services_ok_def)
  ultimately show "instant_sound env s'" unfolding instant_sound_def keys s'(2) using S s'(4) by blast
  have "session_follows x (g x)" using g x(2) by (auto simp: session_follows_def)
  then have "rows_follow session_follows (session_at s) (session_at s')"
    unfolding rows_follow_def session_at_def s'(1)
    using find_updated [where k = in_id, OF dx x(1)] gt session_follows_refl find_at [OF dx x(1)] by auto
  moreover have "call_at s' = call_at s" by (simp add: fun_eq_iff call_at_def s'(2))
  ultimately show "instant_run s s'" by (simp add: instant_run_def rows_follow_refl call_follows_refl)
qed

lemma session_added:
  assumes sound: "instant_sound env s" and y: "in_id y \<notin> set (map in_id (instant_sessions s))" "session_alone y"
      "in_held_minor y = 0" "in_spent_minor y = 0" "in_refunded_minor y = 0"
    and s': "instant_sessions s' = instant_sessions s @ [y]"
      "instant_calls s' = instant_calls s" "instant_services s' = instant_services s" "books s'"
    and posted': "\<And>u r k. posted s' u r k = (if u = in_buyer_id y \<and> r = in_id y \<and> k = ''instant_funding''
        then Some (- in_budget_minor y, 0) else posted s u r k)"
    and entries': "\<And>e. e \<in> set (credit_entries s') \<Longrightarrow> e \<in> set (credit_entries s)
        \<or> ce_kind e = ''instant_funding'' \<and> ce_reference e = in_id y"
  shows "instant_sound env s'" and "instant_run s s'"
proof -
  note S = sound [unfolded instant_sound_def]
  have none: "ic_session_id c \<noteq> in_id y" if c: "c \<in> set (instant_calls s)" for c
  proof -
    obtain x where "x \<in> set (instant_sessions s)" "in_id x = ic_session_id c" using session_of_call [OF sound c] by blast
    then show ?thesis using y(1) by (metis image_eqI list.set_map)
  qed
  then have zero: "calls_of s' (in_id y) = []" "held_for s' (in_id y) = 0" "charged_for s' (in_id y) = 0"
    by (auto simp: calls_of_def held_for_def charged_for_def sum_rows_def s'(2) filter_empty_conv intro!: sum_list_0)
  have sums: "held_for s' = held_for s" "charged_for s' = charged_for s" "calls_of s' = calls_of s"
    by (simp_all add: fun_eq_iff held_for_def charged_for_def calls_of_def s'(2))
  have known: "entry_known s e" if "e \<in> set (credit_entries s)" for e using S that by blast
  have "posted s u (in_id y) ''instant_refund'' = None" for u
  proof (rule posted_unknown)
    fix e assume "e \<in> set (credit_entries s)" "ce_kind e = ''instant_refund''"
    then have "ce_reference e \<in> set (map in_id (instant_sessions s))" using known unfolding entry_known_def by blast
    then show "ce_reference e \<noteq> in_id y" using y(1) by metis
  qed
  then have post: "session_posted s' y" by (simp add: session_posted_def posted' y(5))
  have old: "session_adds_up s' x \<and> session_posted s' x" if "x \<in> set (instant_sessions s)" for x
  proof -
    have "in_id x \<noteq> in_id y" using that y(1) by (metis image_eqI list.set_map)
    moreover have "session_adds_up s x" "session_posted s x" using S that by blast+
    ultimately show ?thesis by (simp add: session_adds_up_def sums session_posted_def posted')
  qed
  have "session_alone x \<and> session_adds_up s' x \<and> session_posted s' x" if "x \<in> set (instant_sessions s')" for x
  proof (cases "x = y")
    case True then show ?thesis using y post zero by (simp add: session_adds_up_def)
  next
    case False then show ?thesis using that old S by (auto simp: s'(1))
  qed
  moreover have "entry_known s' e" if e: "e \<in> set (credit_entries s')" for e
    using entries' [OF e] known [of e] by (auto simp: entry_known_def s'(1,2))
  moreover have "call_posted s' c = call_posted s c" for c by (simp add: call_posted_def posted')
  moreover have "services_ok s'" using S s'(3) by (simp add: services_ok_def)
  ultimately show "instant_sound env s'" unfolding instant_sound_def using S s' y(1) by auto
  have "rows_follow session_follows (session_at s) (session_at s')"
    by (auto simp: rows_follow_def session_at_def s'(1) find_append session_follows_refl)
  moreover have "call_at s' = call_at s" by (simp add: fun_eq_iff call_at_def s'(2))
  ultimately show "instant_run s s'" by (simp add: instant_run_def rows_follow_refl call_follows_refl)
qed

lemma call_added:
  assumes sound: "instant_sound env s" and x: "x \<in> set (instant_sessions s)"
    and c: "ic_id c \<notin> set (map ic_id (instant_calls s))" "call_fits env x c" "ic_state c = C_pending"
      "length (calls_of s (in_id x)) < 1000"
    and g: "session_terms (g x) = session_terms x" "session_conservation (g x)" "in_status (g x) = in_status x"
      "in_held_minor (g x) = in_held_minor x + ic_unit_price_minor c" "in_balance_minor (g x) = in_balance_minor x"
      "in_spent_minor (g x) = in_spent_minor x" "in_refunded_minor (g x) = in_refunded_minor x"
    and s': "instant_sessions s' = set_rows (\<lambda>y. in_id y = in_id x) g (instant_sessions s)"
      "instant_calls s' = instant_calls s @ [c]" "instant_services s' = instant_services s"
      "credit_accounts s' = credit_accounts s" "credit_entries s' = credit_entries s"
  shows "instant_sound env s'" and "instant_run s s'"
proof -
  note S = sound [unfolded instant_sound_def]
  note gt = session_terms_eq [OF g(1)]
  have dx: "distinct (map in_id (instant_sessions s))" using S by blast
  have px: "\<And>y. y \<in> set (instant_sessions s) \<Longrightarrow> in_id y = in_id x \<longleftrightarrow> y = x" using unique_key_eq [OF dx _ x(1)] by blast
  have sess': "set (instant_sessions s') = insert (g x) (set (instant_sessions s) - {x})"
    using px x(1) by (auto simp: s'(1) set_set_rows)
  have "in_id (if in_id y = in_id x then g y else y) = in_id y" if "y \<in> set (instant_sessions s)" for y
    using px [OF that] gt by auto
  then have keys: "map in_id (instant_sessions s') = map in_id (instant_sessions s)" by (simp add: s'(1) set_rows_def)
  have live: "live_state C_pending" by (simp add: live_state_def)
  have sid: "ic_session_id c = in_id x" and price: "ic_unit_price_minor c = it_unit_price_minor (in_terms x)"
    using c(2) by (simp_all add: call_fits_def)
  have sums: "held_for s' i = held_for s i + (if i = in_id x then ic_unit_price_minor c else 0)"
    "charged_for s' i = charged_for s i"
    "length (calls_of s' i) = length (calls_of s i) + (if i = in_id x then 1 else 0)" for i
    using sid c(3) live by (simp_all add: held_for_def charged_for_def calls_of_def s'(2))
  have X: "session_alone x" "session_adds_up s x" "session_posted s x" using S x by blast+
  have posted: "posted s' = posted s" by (simp add: fun_eq_iff posted_def s'(5))
  have books: "books s'" using S books_cong [OF s'(4,5)] by blast
  have alone: "session_alone (g x)" using X(1) g gt by (simp add: session_alone_def)
  have adds: "session_adds_up s' (g x)" using X(2) g gt c(4) by (simp add: session_adds_up_def sums)
  have post: "session_posted s' (g x)" using X(3) g gt by (simp add: session_posted_def posted)
  have other: "session_alone y \<and> session_adds_up s' y \<and> session_posted s' y" if y: "y \<in> set (instant_sessions s) - {x}" for y
  proof -
    have "in_id y \<noteq> in_id x" using px y by blast
    moreover have "session_alone y" "session_adds_up s y" "session_posted s y" using S y by blast+
    ultimately show ?thesis by (simp add: session_adds_up_def sums session_posted_def posted)
  qed
  have fits: "\<exists>y \<in> set (instant_sessions s'). call_fits env y r" if r: "r \<in> set (instant_calls s')" for r
  proof -
    obtain y where y: "y \<in> set (instant_sessions s)" "call_fits env y r"
    proof (cases "r = c")
      case True then show ?thesis using that [OF x] c(2) by simp
    next
      case False then show ?thesis using that S r by (auto simp: s'(2))
    qed
    show ?thesis
    proof (cases "y = x")
      case True
      with y(2) have "call_fits env (g x) r" by (simp add: fits_session [OF g(1)])
      then show ?thesis by (simp add: sess')
    next
      case False with y show ?thesis by (simp add: sess') blast
    qed
  qed
  have known: "entry_known s e" if "e \<in> set (credit_entries s)" for e using S that by blast
  have "posted s u (ic_id c) ''instant_sale'' = None" for u
  proof (rule posted_unknown)
    fix e assume "e \<in> set (credit_entries s)" "ce_kind e = ''instant_sale''"
    then have "ce_reference e \<in> set (map ic_id (instant_calls s))" using known unfolding entry_known_def by blast
    then show "ce_reference e \<noteq> ic_id c" using c(1) by metis
  qed
  then have "call_posted s' c" by (simp add: call_posted_def posted c(3))
  then have posts: "call_posted s' r" if "r \<in> set (instant_calls s')" for r
    using that S by (auto simp: s'(2) call_posted_def posted)
  have "entry_known s' e" if "e \<in> set (credit_entries s')" for e
    using known [of e] that unfolding s'(5) entry_known_def keys s'(2) by auto
  moreover have "distinct (map ic_id (instant_calls s'))" using S c(1) by (simp add: s'(2))
  moreover have "services_ok s'" using S s'(3) by (simp add: services_ok_def)
  moreover have "session_alone y \<and> session_adds_up s' y \<and> session_posted s' y" if "y \<in> set (instant_sessions s')" for y
    using that alone adds post other unfolding sess' by blast
  ultimately show "instant_sound env s'" unfolding instant_sound_def keys using S books fits posts by blast
  have "in_status x \<noteq> I_closed"
    using g X(1) price unfolding session_alone_def session_conservation_def terms_ok_def by auto
  then have "session_follows x (g x)" using g by (simp add: session_follows_def)
  then have "rows_follow session_follows (session_at s) (session_at s')"
    unfolding rows_follow_def session_at_def s'(1)
    using find_updated [where k = in_id, OF dx x(1)] gt session_follows_refl find_at [OF dx x(1)] by auto
  moreover have "rows_follow call_follows (call_at s) (call_at s')"
    by (auto simp: rows_follow_def call_at_def s'(2) find_append call_follows_refl)
  ultimately show "instant_run s s'" by (simp add: instant_run_def)
qed

section \<open>What other operations leave alone\<close>

text \<open>
  Instant execution shares the credit tables with the rest of the market.  Another
  operation is apart from it when it leaves its tables alone, keeps the books, and
  adds to the journal only entries of other kinds.
\<close>

definition instant_rows :: "db \<Rightarrow> instant_service list \<times> instant_session list \<times> instant_call list" where
  "instant_rows s = (instant_services s, instant_sessions s, instant_calls s)"

definition instant_entries :: "db \<Rightarrow> credit_entry list" where
  "instant_entries s = filter (\<lambda>e. ce_kind e \<in> set instant_kinds) (credit_entries s)"

definition instant_view :: "db \<Rightarrow> (instant_service list \<times> instant_session list \<times> instant_call list) \<times> credit_entry list" where
  "instant_view s = (instant_rows s, instant_entries s)"

lemma posted_instant:
  assumes "instant_entries s' = instant_entries s" and "k \<in> set instant_kinds"
  shows "posted s' u r k = posted s u r k"
proof -
  let ?P = "\<lambda>e. ce_user_id e = u \<and> ce_reference e = r \<and> ce_kind e = k"
  have "find ?P es = find ?P (filter (\<lambda>e. ce_kind e \<in> set instant_kinds) es)" for es
    using assms(2) by (induction es) auto
  then have "find ?P (credit_entries t) = find ?P (instant_entries t)" for t unfolding instant_entries_def .
  then show ?thesis by (simp only: posted_def assms(1))
qed

lemma sound_view:
  assumes "instant_sound env s" and "instant_view s' = instant_view s" and "books s'"
  shows "instant_sound env s'" and "instant_run s s'"
proof -
  note S = assms(1) [unfolded instant_sound_def]
  have t: "instant_services s' = instant_services s" "instant_sessions s' = instant_sessions s"
    "instant_calls s' = instant_calls s" and e: "instant_entries s' = instant_entries s"
    using assms(2) by (simp_all add: instant_view_def instant_rows_def)
  have kinds: "''instant_funding'' \<in> set instant_kinds" "''instant_refund'' \<in> set instant_kinds"
    "''instant_sale'' \<in> set instant_kinds" by (simp_all add: instant_kinds_def)
  have p: "session_posted s' x = session_posted s x" "call_posted s' c = call_posted s c" for x c
    unfolding session_posted_def call_posted_def
    by (simp_all only: posted_instant [OF e kinds(1)] posted_instant [OF e kinds(2)] posted_instant [OF e kinds(3)])
  have u: "session_adds_up s' x = session_adds_up s x" for x
    by (simp add: session_adds_up_def held_for_def charged_for_def calls_of_def t)
  have "entry_known s' d" if d: "d \<in> set (credit_entries s')" for d
  proof (cases "ce_kind d \<in> set instant_kinds")
    case True
    with d have "d \<in> set (instant_entries s')" by (simp add: instant_entries_def)
    then have "d \<in> set (credit_entries s)" by (simp add: e) (simp add: instant_entries_def)
    then have "entry_known s d" using S by blast
    then show ?thesis unfolding entry_known_def t .
  next
    case False
    then show ?thesis by (auto simp: entry_known_def instant_kinds_def)
  qed
  moreover have "services_ok s'" using S by (simp add: services_ok_def t)
  ultimately show "instant_sound env s'" using S assms(3) unfolding instant_sound_def t p u by blast
  have "call_at s' = call_at s" "session_at s' = session_at s" by (simp_all add: fun_eq_iff call_at_def session_at_def t)
  then show "instant_run s s'" by (simp add: instant_run_def rows_follow_refl call_follows_refl session_follows_refl)
qed

section \<open>Following a transaction\<close>

definition moves_on :: "instant_env \<Rightarrow> db \<Rightarrow> db \<Rightarrow> bool" where
  "moves_on env s s' \<longleftrightarrow> instant_sound env s' \<and> instant_run s s' \<and> wealth s' = wealth s"

definition call_known :: "db \<Rightarrow> instant_call \<Rightarrow> bool" where
  "call_known s c \<longleftrightarrow> (\<exists>r. call_at s (ic_id c) = Some r \<and> call_terms r = call_terms c)"

definition session_known :: "db \<Rightarrow> instant_session \<Rightarrow> bool" where
  "session_known s x \<longleftrightarrow> (\<exists>r. session_at s (in_id x) = Some r \<and> session_terms r = session_terms x)"

definition tracked :: "instant_env \<Rightarrow> db \<Rightarrow> instant_call set \<Rightarrow> instant_session set \<Rightarrow> db \<Rightarrow> bool" where
  "tracked env s0 C X s \<longleftrightarrow> instant_sound env s \<and> instant_run s0 s \<and> wealth s = wealth s0
     \<and> (\<forall>c \<in> C. call_known s c) \<and> (\<forall>x \<in> X. session_known s x)"

lemma advances_refl: "instant_sound env s \<Longrightarrow> moves_on env s s"
  by (simp add: moves_on_def ir.refl)

lemma known_run:
  assumes "instant_run s s'"
  shows "call_known s c \<Longrightarrow> call_known s' c" and "session_known s x \<Longrightarrow> session_known s' x"
proof -
  show "call_known s' c" if k: "call_known s c"
  proof -
    obtain r where r: "call_at s (ic_id c) = Some r" "call_terms r = call_terms c" using k by (auto simp: call_known_def)
    then obtain r' where "call_at s' (ic_id c) = Some r'" "call_terms r' = call_terms r"
      using assms by (force simp: instant_run_def rows_follow_def call_follows_def)
    with r show ?thesis by (simp add: call_known_def)
  qed
  show "session_known s' x" if k: "session_known s x"
  proof -
    obtain r where r: "session_at s (in_id x) = Some r" "session_terms r = session_terms x" using k by (auto simp: session_known_def)
    then obtain r' where "session_at s' (in_id x) = Some r'" "session_terms r' = session_terms r"
      using assms by (force simp: instant_run_def rows_follow_def session_follows_def)
    with r show ?thesis by (simp add: session_known_def)
  qed
qed

lemma tracked_step:
  assumes "tracked env s0 C X s" and "moves_on env s s'"
  shows "tracked env s0 C X s'"
  using assms known_run [of s s'] ir.trans [of s0 s s'] unfolding tracked_def moves_on_def by auto

lemma trackedI: "instant_sound env s \<Longrightarrow> tracked env s {} {} s"
  by (simp add: tracked_def ir.refl)

lemma tracked_sound: "tracked env s0 C X s \<Longrightarrow> instant_sound env s"
  by (simp add: tracked_def)

lemma tracked_advances: "tracked env s0 C X s \<Longrightarrow> moves_on env s0 s"
  by (simp add: tracked_def moves_on_def)

lemma tracked_mono: "tracked env s0 C' X' s \<Longrightarrow> C \<subseteq> C' \<Longrightarrow> X \<subseteq> X' \<Longrightarrow> tracked env s0 C X s"
  unfolding tracked_def by blast

lemma call_row:
  assumes "instant_sound env s"
  shows "call_at s i = Some c \<longleftrightarrow> c \<in> set (instant_calls s) \<and> ic_id c = i"
  using assms find_at [of ic_id "instant_calls s" c i]
  by (auto simp: instant_sound_def call_at_def dest: find_Some_in)

lemma session_row:
  assumes "instant_sound env s"
  shows "session_at s i = Some x \<longleftrightarrow> x \<in> set (instant_sessions s) \<and> in_id x = i"
  using assms find_at [of in_id "instant_sessions s" x i]
  by (auto simp: instant_sound_def session_at_def dest: find_Some_in)

lemma row_known: "instant_sound env s \<Longrightarrow> c \<in> set (instant_calls s) \<Longrightarrow> call_known s c"
  unfolding call_known_def using call_row [of env s "ic_id c" c] by blast

lemma tracked_calls:
  assumes "tracked env s0 C X s" and "D \<subseteq> set (instant_calls s)"
  shows "tracked env s0 (D \<union> C) X s"
  using assms row_known [OF tracked_sound [OF assms(1)]] unfolding tracked_def by blast

lemma tracked_call: "tracked env s0 C X s \<Longrightarrow> call_at s i = Some c \<Longrightarrow> tracked env s0 (insert c C) X s"
  using tracked_calls [of env s0 C X s "{c}"] call_row [OF tracked_sound, of env s0 C X s i c] by simp

lemma tracked_session:
  assumes "tracked env s0 C X s" and "session_at s i = Some x"
  shows "tracked env s0 C (insert x X) s"
  using assms session_row [OF tracked_sound [OF assms(1)]] by (auto simp: tracked_def session_known_def)

lemma sessionRow_run [run_simps]: "sessionRow i s = Inr p \<longleftrightarrow> (\<exists>x. session_at s i = Some x \<and> p = (x, s))"
  by (auto simp: sessionRow_def run_simps session_at_def)

lemma callRow_run [run_simps]: "callRow i s = Inr p \<longleftrightarrow> (\<exists>c. call_at s i = Some c \<and> p = (c, s))"
  by (auto simp: callRow_def run_simps call_at_def)

lemma leads_sessionRow:
  "(\<And>x. leads (\<lambda>s. P s \<and> session_at s i = Some x) (g x) Q) \<Longrightarrow> leads P (bnd (sessionRow i) g) Q"
  unfolding leads_def bnd_run sessionRow_run by blast

lemma leads_callRow:
  "(\<And>c. leads (\<lambda>s. P s \<and> call_at s i = Some c) (g c) Q) \<Longrightarrow> leads P (bnd (callRow i) g) Q"
  unfolding leads_def bnd_run callRow_run by blast

text \<open>The sum of the balances when one session changes.\<close>

lemma wealth_step:
  assumes "instant_sound env s" and "x \<in> set (instant_sessions s)" and "in_id (g x) = in_id x"
    and "instant_sessions s' = set_rows (\<lambda>y. in_id y = in_id x) g (instant_sessions s)"
  shows "wealth s' = wealth s + (total_credit s' - total_credit s) + (in_balance_minor (g x) - in_balance_minor x)"
proof -
  have "distinct (map in_id (instant_sessions s))" using assms(1) by (simp add: instant_sound_def)
  from sum_rows_set_rows_one [OF this assms(2), of "\<lambda>y. in_id y = in_id x" "\<lambda>_. True" in_balance_minor g]
  show ?thesis by (simp add: wealth_def assms(4))
qed

lemma wealth_same:
  "instant_sessions s' = instant_sessions s \<Longrightarrow> total_credit s' = total_credit s \<Longrightarrow> wealth s' = wealth s"
  by (simp add: wealth_def)

lemma update_sessions_eval:
  "update_sessions i f s =
     (let rows = map f (filter (\<lambda>x. in_id x = i) (instant_sessions s)) in
      if list_all session_conservation rows
      then Inr (rows, s\<lparr>instant_sessions := set_rows (\<lambda>x. in_id x = i) f (instant_sessions s)\<rparr>)
      else Inl (SqlError ''CHECK instant_session_conservation''))"
  by (simp add: update_sessions_def bnd_def andthen_def update_where_def require_def ret_def throw_def Let_def)

lemma update_calls_eval:
  "update_calls p f s =
     (let rows = map f (filter p (instant_calls s)) in
      if list_all call_receipt rows then Inr (rows, s\<lparr>instant_calls := set_rows p f (instant_calls s)\<rparr>)
      else Inl (SqlError ''CHECK instant_call_receipt''))"
  by (simp add: update_calls_def bnd_def andthen_def update_where_def require_def ret_def throw_def Let_def)

subsection \<open>Failing a call\<close>

definition failed_state :: "millis \<Rightarrow> string \<Rightarrow> instant_call \<Rightarrow> db \<Rightarrow> db" where
  "failed_state now code c s = s\<lparr>
     instant_calls := set_rows (\<lambda>r. ic_id r = ic_id c \<and> live_state (ic_state r)) (failed_call now code) (instant_calls s),
     instant_sessions := set_rows (\<lambda>y. in_id y = ic_session_id c) (release (ic_unit_price_minor c)) (instant_sessions s)\<rparr>"

lemma failed_call_terms: "call_terms (failed_call now code c) = call_terms c" "ic_state (failed_call now code c) = C_failed"
  "ic_output_json (failed_call now code c) = ic_output_json c" "ic_receipt (failed_call now code c) = ic_receipt c"
  by (simp_all add: failed_call_def call_terms_def)

lemma failed_state_tables: "credit_accounts (failed_state now code c s) = credit_accounts s"
  "credit_entries (failed_state now code c s) = credit_entries s"
  "instant_services (failed_state now code c s) = instant_services s"
  by (simp_all add: failed_state_def)

text \<open>A known live call is failed, and nothing stops it; any other call is left as it is.\<close>

lemma failCall_live:
  assumes sound: "instant_sound env s" and r: "call_at s (ic_id c) = Some r" "call_terms r = call_terms c" "live_state (ic_state r)"
  shows "failCall now c code s = Inr (failed_call now code r, failed_state now code c s)"
    and "moves_on env s (failed_state now code c s)"
proof -
  note t = call_terms_eq [OF r(2)]
  have rin: "r \<in> set (instant_calls s)" "ic_id r = ic_id c" using r(1) call_row [OF sound] by simp_all
  obtain x where x: "x \<in> set (instant_sessions s)" "in_id x = ic_session_id r" "call_fits env x r"
    by (rule session_of_call [OF sound rin(1)])
  let ?p = "\<lambda>q. ic_id q = ic_id c \<and> live_state (ic_state q)"
  let ?g = "release (ic_unit_price_minor c)"
  have dc: "distinct (map ic_id (instant_calls s))" and dx: "distinct (map in_id (instant_sessions s))"
    using sound by (simp_all add: instant_sound_def)
  have p: "?p q \<longleftrightarrow> ic_id q = ic_id r" if "q \<in> set (instant_calls s)" for q
    using unique_key_eq [OF dc that rin(1)] rin(2) r(3) by auto
  have "filter ?p (instant_calls s) \<noteq> []" using rin r(3) by (auto simp: filter_empty_conv)
  moreover have "q = r" if "q \<in> set (filter ?p (instant_calls s))" for q
    using that unique_key_eq [OF dc _ rin(1)] rin(2) by auto
  ultimately obtain qs where rows: "filter ?p (instant_calls s) = r # qs" "set qs \<subseteq> {r}"
    by (cases "filter ?p (instant_calls s)") auto
  have out: "ic_output_json r = None" "ic_receipt r = None"
    using x(3) r(3) by (auto simp: call_fits_def live_state_def)
  have "session_conservation x" using sound x(1) by (simp add: instant_sound_def session_alone_def)
  then have g: "session_conservation (?g x)"
    using live_is_held(1,2) [OF sound rin(1) r(3) x(1,2)] t by (auto simp: session_conservation_def release_def)
  have checks: "list_all call_receipt (map (failed_call now code) (filter ?p (instant_calls s)))"
    using rows out by (auto simp: list_all_iff call_receipt_def failed_call_terms)
  have "y = x" if "y \<in> set (instant_sessions s)" "in_id y = ic_session_id c" for y
    using unique_key_eq [OF dx that(1) x(1)] that(2) x(2) t by simp
  then have "list_all session_conservation (map ?g (filter (\<lambda>y. in_id y = ic_session_id c) (instant_sessions s)))"
    using g by (auto simp only: list_all_iff set_map set_filter)
  then show "failCall now c code s = Inr (failed_call now code r, failed_state now code c s)"
    using checks rows(1) unfolding failCall_def failed_state_def
    by (simp add: bnd_def update_calls_eval update_sessions_eval ret_def del: map_map)
  have moved: "moved_session x r (ic_state (failed_call now code r)) (?g x)"
    using g t by (simp add: moved_session_def session_terms_def release_def failed_call_terms price_if_def live_state_def)
  have answer: "if ic_state (failed_call now code r) = C_completed then was_answered env x (failed_call now code r)
      else ic_output_json (failed_call now code r) = None \<and> ic_receipt (failed_call now code r) = None"
    using out by (simp add: failed_call_terms)
  have move: "call_move (ic_state r) (ic_state (failed_call now code r))"
    using r(3) by (cases "ic_state r") (auto simp: failed_call_terms live_state_def call_machine_defs)
  have tabs: "instant_calls (failed_state now code c s) = set_rows ?p (failed_call now code) (instant_calls s)"
    "instant_sessions (failed_state now code c s) = set_rows (\<lambda>y. in_id y = in_id x) ?g (instant_sessions s)"
    using x(2) t by (simp_all add: failed_state_def)
  have books: "books (failed_state now code c s)"
    using sound books_cong [OF failed_state_tables(1,2)] by (simp add: instant_sound_def)
  have posted: "posted (failed_state now code c s) u q k = (if ic_state (failed_call now code r) = C_completed
      \<and> u = ic_seller_id r \<and> q = ic_id r \<and> k = ''instant_sale'' then Some (ic_unit_price_minor r, 0) else posted s u q k)" for u q k
    by (simp add: posted_def failed_state_tables failed_call_terms)
  have entries: "e \<in> set (credit_entries (failed_state now code c s)) \<Longrightarrow> e \<in> set (credit_entries s)
      \<or> ce_kind e = ''instant_sale'' \<and> ce_reference e = ic_id r" for e
    by (simp add: failed_state_tables)
  note step = call_step [OF sound rin(1) r(3) x(1,2) p failed_call_terms(1) move moved answer tabs failed_state_tables(3)
      books posted entries]
  have "wealth (failed_state now code c s) = wealth s"
    using wealth_step [OF sound x(1) _ tabs(2)] by (simp add: release_def total_credit_def failed_state_tables)
  with step show "moves_on env s (failed_state now code c s)" by (simp add: moves_on_def)
qed

lemma failCall_dead:
  assumes "\<And>r. call_at s (ic_id c) = Some r \<Longrightarrow> \<not> live_state (ic_state r)" and "distinct (map ic_id (instant_calls s))"
  shows "failCall now c code s = Inr (c, s)"
proof -
  have none: "\<not> (ic_id q = ic_id c \<and> live_state (ic_state q))" if "q \<in> set (instant_calls s)" for q
    using assms(1) [of q] find_at [OF assms(2) that] by (auto simp: call_at_def)
  then have "filter (\<lambda>q. ic_id q = ic_id c \<and> live_state (ic_state q)) (instant_calls s) = []" by (simp add: filter_empty_conv)
  moreover have "set_rows (\<lambda>q. ic_id q = ic_id c \<and> live_state (ic_state q)) f (instant_calls s) = instant_calls s" for f
    using none by (intro set_rows_id) blast
  ultimately show ?thesis
    unfolding failCall_def by (simp add: bnd_def update_calls_eval ret_def)
qed

lemma keeps_failCall: "c \<in> C \<Longrightarrow> keeps (tracked env s0 C X) (failCall now c code)"
proof (rule keepsI)
  fix s a s' assume c: "c \<in> C" and t: "tracked env s0 C X s" and run: "failCall now c code s = Inr (a, s')"
  note sound = tracked_sound [OF t]
  obtain r where r: "call_at s (ic_id c) = Some r" "call_terms r = call_terms c"
    using t c by (auto simp: tracked_def call_known_def)
  show "tracked env s0 C X s'"
  proof (cases "live_state (ic_state r)")
    case True
    have "s' = failed_state now code c s" using failCall_live(1) [OF sound r True, of now code] run by simp
    then show ?thesis using tracked_step [OF t failCall_live(2) [OF sound r True]] by simp
  next
    case False
    have "failCall now c code s = Inr (c, s)"
      by (rule failCall_dead) (use r False sound in \<open>auto simp: instant_sound_def\<close>)
    with run t show ?thesis by simp
  qed
qed

definition status_at :: "id \<Rightarrow> db \<Rightarrow> instant_status option" where
  "status_at i s = map_option in_status (session_at s i)"

lemma same_status_update:
  assumes "\<And>x. in_id (f x) = in_id x \<and> in_status (f x) = in_status x"
  shows "same (status_at i) (update_sessions j f)"
proof (rule sameI)
  fix s a s' assume "update_sessions j f s = Inr (a, s')"
  then have "s' = s\<lparr>instant_sessions := set_rows (\<lambda>x. in_id x = j) f (instant_sessions s)\<rparr>"
    by (auto simp: update_sessions_eval Let_def split: if_splits)
  then show "status_at i s' = status_at i s"
    using assms by (simp add: status_at_def session_at_def find_set_rows option.map_comp comp_def cong: if_cong)
      (cases "find (\<lambda>x. in_id x = i) (instant_sessions s)"; simp)
qed

lemma same_status_calls: "same (status_at i) (update_calls p f)"
  by (auto simp: same_def update_calls_eval Let_def status_at_def session_at_def split: if_splits)

lemma same_status_fail: "same (status_at i) (failCall now c code)"
  unfolding failCall_def
  by (intro same_bnd same_status_calls, split list.split)
    (auto intro!: same_ret same_bnd same_status_update simp: release_def)

lemma keeps_fail_each:
  assumes "set cs \<subseteq> C"
  shows "keeps (\<lambda>s. tracked env s0 C X s \<and> status_at i s \<noteq> Some I_closed) (fail_each now code cs)"
    and "keeps (tracked env s0 C X) (fail_each now code cs)"
proof -
  have f: "keeps (tracked env s0 C X) (failCall now c (code c))" if "c \<in> set cs" for c
    using assms that by (intro keeps_failCall) blast
  have both: "keeps (\<lambda>s. tracked env s0 C X s \<and> status_at i s \<noteq> Some I_closed) (failCall now c (code c))" if "c \<in> set cs" for c
    using f [OF that] same_status_fail unfolding keeps_def same_def by metis
  show "keeps (\<lambda>s. tracked env s0 C X s \<and> status_at i s \<noteq> Some I_closed) (fail_each now code cs)"
    unfolding fail_each_def by (intro keeps_foreach keeps_bnd keeps_ret both)
  show "keeps (tracked env s0 C X) (fail_each now code cs)"
    unfolding fail_each_def by (intro keeps_foreach keeps_bnd keeps_ret f)
qed

subsection \<open>Closing a session\<close>

lemma change_frame:
  "changeCredit now u r k a e s = Inr (z, s') \<Longrightarrow> instant_sessions s' = instant_sessions s
     \<and> instant_calls s' = instant_calls s \<and> instant_services s' = instant_services s"
  using sameD [OF same_beside [OF same_changeCredit], where v = instant_rows]
  by (simp add: instant_rows_def)

lemma only_row:
  assumes "distinct (map k rs)" and "r \<in> set rs" and "k r = i"
  shows "filter (\<lambda>q. k q = i) rs = [r]"
  using assms by (induction rs) (auto simp: filter_empty_conv image_iff)

definition with_session :: "id \<Rightarrow> (instant_session \<Rightarrow> instant_session) \<Rightarrow> db \<Rightarrow> db" where
  "with_session i g s = s\<lparr>instant_sessions := set_rows (\<lambda>y. in_id y = i) g (instant_sessions s)\<rparr>"

lemma with_session_tables:
  "instant_sessions (with_session i g s) = set_rows (\<lambda>y. in_id y = i) g (instant_sessions s)"
  "instant_calls (with_session i g s) = instant_calls s" "instant_services (with_session i g s) = instant_services s"
  "credit_accounts (with_session i g s) = credit_accounts s" "credit_entries (with_session i g s) = credit_entries s"
  "posted (with_session i g s) = posted s" "total_credit (with_session i g s) = total_credit s"
  "books (with_session i g s) = books s"
  by (simp_all add: with_session_def posted_def fun_eq_iff total_credit_def)
    (rule books_cong; simp)

lemma session_updated:
  assumes "instant_sound env s" and "x \<in> set (instant_sessions s)" and "in_id x = i" and "session_conservation (f x)"
    and "instant_sessions s1 = instant_sessions s"
  shows "update_sessions i f s1 = Inr ([f x], with_session i f s1)"
  using only_row [of in_id "instant_sessions s" x i] assms
  by (simp add: instant_sound_def update_sessions_eval Let_def with_session_def)

lemma closing_advances:
  assumes sound: "instant_sound env s" and x: "x \<in> set (instant_sessions s)" "in_status x \<noteq> I_closed" "in_id x = i"
  shows "update_sessions i closing s = Inr ([closing x], with_session i closing s)"
    and "moves_on env s (with_session i closing s)"
proof -
  let ?s = "with_session i closing s"
  have alone: "session_alone x" using sound x(1) by (simp add: instant_sound_def)
  have same: "session_terms (closing x) = session_terms x" "in_id (closing x) = in_id x"
    "in_balance_minor (closing x) = in_balance_minor x" "in_refunded_minor (closing x) = in_refunded_minor x"
    "in_status (closing x) = I_closing" "in_held_minor (closing x) = in_held_minor x" "in_spent_minor (closing x) = in_spent_minor x"
    by (simp_all add: closing_def session_terms_def)
  have cons: "session_conservation (closing x)" using alone by (simp add: session_alone_def session_conservation_def closing_def)
  show "update_sessions i closing s = Inr ([closing x], ?s)"
    by (rule session_updated [where f = closing, OF sound x(1,3) cons]) simp
  have refund: "in_refunded_minor x = 0" using alone x(2) by (simp add: session_alone_def)
  have move: "session_move (in_status x) (in_status (closing x)) \<or> in_status (closing x) = in_status x"
    using x(2) same(5) by (cases "in_status x") (auto simp: session_machine_defs)
  have books: "books ?s" using sound by (simp add: instant_sound_def with_session_tables)
  have step: "instant_sound env ?s" "instant_run s ?s"
    by (rule session_step [where g = closing, OF sound x(1,2) same(1) cons same(6,7) move _ _ _ _ books];
        simp add: same refund x(3) with_session_tables)+
  have "wealth ?s = wealth s"
    using wealth_step [where g = closing, OF sound x(1) same(2), of ?s] x(3) by (simp add: same with_session_tables)
  with step show "moves_on env s ?s" by (simp add: moves_on_def)
qed

lemma closed_advances:
  assumes sound: "instant_sound env s" and x: "x \<in> set (instant_sessions s)" "in_status x \<noteq> I_closed" "in_id x = i"
      "in_held_minor x = 0"
    and credit: "if in_balance_minor x = 0 then s1 = s
      else changeCredit t (in_buyer_id x) i ''instant_refund'' (in_balance_minor x) 0 s = Inr (z, s1)"
  shows "update_sessions i (closed_with now (in_balance_minor x)) s1 = Inr ([closed_with now (in_balance_minor x) x],
      with_session i (closed_with now (in_balance_minor x)) s1)"
    and "moves_on env s (with_session i (closed_with now (in_balance_minor x)) s1)"
proof -
  let ?g = "closed_with now (in_balance_minor x)"
  let ?s = "with_session i ?g s1"
  have frame: "instant_sessions s1 = instant_sessions s" "instant_calls s1 = instant_calls s" "instant_services s1 = instant_services s"
    using credit change_frame by (auto split: if_splits)
  have alone: "session_alone x" using sound x(1) by (simp add: instant_sound_def)
  have refund: "in_refunded_minor x = 0" using alone x(2) by (simp add: session_alone_def)
  have same: "session_terms (?g x) = session_terms x" "in_id (?g x) = in_id x" "in_balance_minor (?g x) = 0"
    "in_refunded_minor (?g x) = in_balance_minor x" "in_status (?g x) = I_closed" "in_held_minor (?g x) = in_held_minor x"
    "in_spent_minor (?g x) = in_spent_minor x"
    using refund by (simp_all add: closed_with_def session_terms_def)
  have cons: "session_conservation (?g x)"
    using alone x(4) refund by (auto simp: session_alone_def session_conservation_def closed_with_def)
  show "update_sessions i ?g s1 = Inr ([?g x], ?s)" by (rule session_updated [where f = ?g, OF sound x(1,3) cons frame(1)])
  have move: "session_move (in_status x) (in_status (?g x)) \<or> in_status (?g x) = in_status x"
    using x(2) same(5) by (cases "in_status x") (auto simp: session_machine_defs)
  have bs: "books s" using sound by (simp add: instant_sound_def)
  have b1: "books s1" using credit bs books_change by (auto split: if_splits)
  then have books: "books ?s" by (simp add: with_session_tables)
  have posted: "posted ?s u r k = (if in_refunded_minor (?g x) \<noteq> 0 \<and> u = in_buyer_id x \<and> r = in_id x
        \<and> k = ''instant_refund'' then Some (in_refunded_minor (?g x), 0) else posted s u r k)" for u r k
  proof -
    show ?thesis using credit posted_change(2) x(3) same(4) unfolding with_session_tables by (auto split: if_splits)
  qed
  have entries: "e \<in> set (credit_entries s) \<or> ce_kind e = ''instant_refund'' \<and> ce_reference e = in_id x"
    if "e \<in> set (credit_entries ?s)" for e
    using that unfolding with_session_tables
    using credit credit_entries_change [of t "in_buyer_id x" i "''instant_refund''" "in_balance_minor x" 0 s z s1] x(3)
    by (auto split: if_splits)
  have step: "instant_sound env ?s" "instant_run s ?s"
    by (rule session_step [where g = ?g, OF sound x(1,2) same(1) cons same(6,7) move _ _ _ _ books posted entries];
        simp add: same frame x(3) with_session_tables)+
  have "total_credit ?s = total_credit s + in_balance_minor x"
    using credit total_credit_change [OF bs] unfolding with_session_tables by (auto split: if_splits)
  then have "wealth ?s = wealth s"
    using wealth_step [where g = ?g, OF sound x(1) same(2), of ?s] x(3) frame(1) by (simp add: same with_session_tables(1))
  with step show "moves_on env s ?s" by (simp add: moves_on_def)
qed

lemma leads_tracked: "keeps (tracked env s0 C X) m \<Longrightarrow> leads (tracked env s0 C X) m (\<lambda>_. tracked env s0 C X)"
  by (rule leads_keeps)

lemma leads_settleSession:
  "leads (\<lambda>s. tracked env s0 C X s \<and> status_at i s \<noteq> Some I_closed) (settleSession now i) (\<lambda>_. tracked env s0 C X)"
  unfolding settleSession_def
proof (rule leads_sessionRow, unfold leads_def, intro allI impI)
  fix x s a s'
  assume P: "(tracked env s0 C X s \<and> status_at i s \<noteq> Some I_closed) \<and> session_at s i = Some x"
    and run: "(if 0 < in_held_minor x then bnd (update_sessions i closing) (first_or (PlainError ''TypeError''))
      else andthen (onlyif (in_balance_minor x \<noteq> 0)
            (changeCredit (to_seconds now) (in_buyer_id x) i ''instant_refund'' (in_balance_minor x) 0))
         (bnd (update_sessions i (closed_with now (in_balance_minor x))) (first_or (PlainError ''TypeError'')))) s = Inr (a, s')"
  have t: "tracked env s0 C X s" and x: "x \<in> set (instant_sessions s)" "in_status x \<noteq> I_closed" "in_id x = i"
    using P session_row [OF tracked_sound] by (auto simp: status_at_def)
  note sound = tracked_sound [OF t]
  show "tracked env s0 C X s'"
  proof (cases "0 < in_held_minor x")
    case True
    have "s' = with_session i closing s"
      using run True closing_advances(1) [OF sound x] by (simp add: bnd_Inr)
    then show ?thesis using tracked_step [OF t closing_advances(2) [OF sound x]] by simp
  next
    case False
    have "0 \<le> in_held_minor x" using sound x(1) by (auto simp: instant_sound_def session_alone_def session_conservation_def)
    with False have held: "in_held_minor x = 0" by simp
    obtain z s1 where pay: "onlyif (in_balance_minor x \<noteq> 0)
        (changeCredit (to_seconds now) (in_buyer_id x) i ''instant_refund'' (in_balance_minor x) 0) s = Inr (z, s1)"
      and rest: "bnd (update_sessions i (closed_with now (in_balance_minor x))) (first_or (PlainError ''TypeError'')) s1 = Inr (a, s')"
      using run False by (simp add: andthen_run) metis
    have credit: "if in_balance_minor x = 0 then s1 = s
        else changeCredit (to_seconds now) (in_buyer_id x) i ''instant_refund'' (in_balance_minor x) 0 s = Inr (z, s1)"
      using pay by (simp add: onlyif_run split: if_splits)
    have "s' = with_session i (closed_with now (in_balance_minor x)) s1"
      using rest closed_advances(1) [OF sound x held credit] by (simp add: bnd_Inr)
    then show ?thesis using tracked_step [OF t closed_advances(2) [OF sound x held credit]] by simp
  qed
qed

lemma leads_calls:
  assumes "\<And>s. set (f s) \<subseteq> set (instant_calls s)" and "\<And>cs. leads (\<lambda>s. tracked env s0 (set cs \<union> C) X s \<and> P s) (g cs) Q"
  shows "leads (\<lambda>s. tracked env s0 C X s \<and> P s) (bnd (asks f) g) Q"
  using assms tracked_calls [OF _ assms(1)] unfolding leads_def bnd_run asks_run by blast

lemma leads_weaken: "leads P m (\<lambda>_. tracked env s0 (D \<union> C) X) \<Longrightarrow> leads P m (\<lambda>_. tracked env s0 C X)"
  by (rule leads_post, assumption, erule tracked_mono) auto

lemma keeps_leads: "leads P m (\<lambda>_. P) \<Longrightarrow> keeps P m"
  by (auto simp: leads_def keeps_def)

lemma keeps_finalizeSession: "keeps (tracked env s0 C X) (finalizeSession now i)"
  unfolding finalizeSession_def
proof (rule keeps_leads, rule leads_sessionRow, intro leads_if leads_ret)
  fix x :: instant_session assume "in_status x \<noteq> I_closed"
  then show "leads (\<lambda>s. tracked env s0 C X s \<and> session_at s i = Some x)
     (bnd (asks (\<lambda>s. take 1000 (filter (\<lambda>c. ic_session_id c = i \<and> live_state (ic_state c)
           \<and> (overdue_call now c \<or> ic_state c = C_pending)) (instant_calls s)))) (\<lambda>abandoned.
     andthen (fail_each now (closing_code now) abandoned) (settleSession now i))) (\<lambda>_. tracked env s0 C X)"
  proof (intro leads_pre [OF leads_calls [where P = "\<lambda>s. status_at i s \<noteq> Some I_closed"]])
    fix s show "set (take 1000 (filter (\<lambda>c. ic_session_id c = i \<and> live_state (ic_state c)
        \<and> (overdue_call now c \<or> ic_state c = C_pending)) (instant_calls s))) \<subseteq> set (instant_calls s)"
      by (auto dest: in_set_takeD)
  next
    fix cs show "leads (\<lambda>s. tracked env s0 (set cs \<union> C) X s \<and> status_at i s \<noteq> Some I_closed)
       (andthen (fail_each now (closing_code now) cs) (settleSession now i)) (\<lambda>_. tracked env s0 C X)"
      by (rule leads_weaken, rule leads_keep_andthen [OF keeps_fail_each(1)]) (simp, rule leads_settleSession)
  qed (auto simp: status_at_def)
qed auto

lemma keeps_expireCalls: "keeps (tracked env s0 C X) (expireCalls now i)"
proof -
  have "leads (\<lambda>s. tracked env s0 C X s \<and> True) (expireCalls now i) (\<lambda>_. tracked env s0 C X)"
    unfolding expireCalls_def
  proof (rule leads_calls)
    fix cs
    have "keeps (tracked env s0 (set cs \<union> C) X)
       (andthen (fail_each now (\<lambda>_. ''CALL_DEADLINE_EXCEEDED'') cs) (bnd (finalizeSession now i) (\<lambda>_. ret ())))"
      by (intro keeps_andthen keeps_bnd keeps_ret keeps_fail_each(2) keeps_finalizeSession) simp
    then show "leads (\<lambda>s. tracked env s0 (set cs \<union> C) X s \<and> True)
       (andthen (fail_each now (\<lambda>_. ''CALL_DEADLINE_EXCEEDED'') cs) (bnd (finalizeSession now i) (\<lambda>_. ret ())))
       (\<lambda>_. tracked env s0 C X)"
      using leads_weaken [OF leads_keeps] by simp
  qed (auto dest: in_set_takeD)
  then show ?thesis by (simp add: leads_def keeps_def)
qed

section \<open>Every request\<close>

lemma state_same: "same (\<lambda>s. s) m \<Longrightarrow> m s = Inr (a, s') \<Longrightarrow> s' = s"
  by (auto simp: same_def)

lemma same_checks:
  "same (\<lambda>s. s) (newAuthority env now)" "same (\<lambda>s. s) (notOrganization who)" "same (\<lambda>s. s) (checkCapacity now x)"
  unfolding newAuthority_def requireEnabled_def notOrganization_def checkCapacity_def by (intro same_intros)+

lemma same_load: "same (\<lambda>s. s) (loadBuyerSpendPolicy b)"
  by (auto simp: same_def loadBuyerSpendPolicy_run)

lemma same_enforceAgent: "same (\<lambda>s. s) (enforceAgentSpendPolicy env a b cost c now)"
  by (auto simp: same_def enforceAgent_run)

lemma same_opening: "same (\<lambda>s. s) (enforceOpening env now who terms budget)"
  unfolding enforceOpening_def by (intro same_intros same_load same_enforceAgent same_enforceBuyer)

lemma same_calling: "same (\<lambda>s. s) (enforceCall env now who terms)"
  unfolding enforceCall_def by (intro same_intros same_load same_checks)

lemmas state_kept = same_checks [THEN state_same] same_opening [THEN state_same] same_calling [THEN state_same]

subsection \<open>Offering a service, opening a session\<close>

lemma service_input_ok:
  "instantServiceInput f = Some input \<Longrightarrow> schema_ok (si_input_schema input) \<and> schema_ok (si_output_schema input)"
  using outputSchema_ok by (auto simp: instantServiceInput_def Let_def split: if_splits bind_splits)

lemma service_advances:
  assumes "instantServiceInput f = Some input" and "instant_sound env s"
    and run: "createInstantService env fresh who input s = Inr (d, s')"
  shows "moves_on env s s'"
proof -
  have s': "s' = s\<lparr>instant_services := instant_services s @ [d]\<rparr>" and d: "service_bounds d"
      "is_input_schema d = si_input_schema input" "is_output_schema d = si_output_schema input"
    using run by (auto simp: createInstantService_def requireEnabled_def Let_def run_simps)
  have same: "posted s' = posted s" "total_credit s' = total_credit s" "instant_calls s' = instant_calls s"
    "instant_sessions s' = instant_sessions s" "credit_entries s' = credit_entries s" "books s' = books s"
    using books_cong [of s' s] by (simp_all add: s' posted_def fun_eq_iff total_credit_def)
  have sums: "session_adds_up s' x = session_adds_up s x" "session_posted s' x = session_posted s x"
    "call_posted s' c = call_posted s c" "entry_known s' e = entry_known s e" for x c e
    by (simp_all add: session_adds_up_def held_for_def charged_for_def calls_of_def session_posted_def call_posted_def
        entry_known_def same)
  have "services_ok s'"
    using assms(2) d service_input_ok [OF assms(1)] by (auto simp: s' services_ok_def instant_sound_def)
  then have "instant_sound env s'" using assms(2) unfolding instant_sound_def sums same by blast
  moreover have "call_at s' = call_at s" "session_at s' = session_at s" by (rule ext, simp only: call_at_def session_at_def same(3,4))+
  then have "instant_run s s'" by (simp add: instant_run_def rows_follow_refl call_follows_refl session_follows_refl)
  ultimately show ?thesis using wealth_same [OF same(4,2)] by (simp add: moves_on_def)
qed

lemma funding_advances:
  assumes sound: "instant_sound env s" and terms: "terms_ok terms"
    and run: "fundSession now fresh buyer serviceId input terms s = Inr (y, s')"
  shows "moves_on env s s'"
proof -
  obtain z s1 where credit: "changeCredit (to_seconds now) buyer fresh ''instant_funding'' (- xf_budget_minor input) 0 s = Inr (z, s1)"
    and y: "session_conservation y" "in_id y = fresh" "in_buyer_id y = buyer" "in_budget_minor y = xf_budget_minor input"
      "in_balance_minor y = xf_budget_minor input" "in_held_minor y = 0" "in_spent_minor y = 0" "in_refunded_minor y = 0"
      "in_status y = I_open" "in_terms y = terms"
    and new: "\<not> list_ex (\<lambda>x. in_id x = fresh \<or> in_buyer_id x = buyer \<and> in_client_reference x = xf_client_reference input)
       (instant_sessions s1)"
    and s': "s' = s1\<lparr>instant_sessions := instant_sessions s1 @ [y]\<rparr>"
    using run by (auto simp: fundSession_def Let_def run_simps)
  note frame = change_frame [OF credit]
  have bs: "books s" using sound by (simp add: instant_sound_def)
  have b1: "books s1" by (rule books_change [OF bs credit])
  have same: "posted s' = posted s1" "total_credit s' = total_credit s1" "credit_entries s' = credit_entries s1" "books s'"
    using b1 books_cong [of s' s1] by (simp_all add: s' posted_def fun_eq_iff total_credit_def)
  have id: "in_id y \<notin> set (map in_id (instant_sessions s))" using new frame y(2) by (auto simp: list_ex_iff)
  have alone: "session_alone y" using y terms by (simp add: session_alone_def)
  have tabs: "instant_sessions s' = instant_sessions s @ [y]" "instant_calls s' = instant_calls s"
    "instant_services s' = instant_services s" using frame by (simp_all add: s')
  have posted: "posted s' u r k = (if u = in_buyer_id y \<and> r = in_id y \<and> k = ''instant_funding''
        then Some (- in_budget_minor y, 0) else posted s u r k)" for u r k
    unfolding same(1) using posted_change(2) [OF credit] y by simp
  have entries: "e \<in> set (credit_entries s) \<or> ce_kind e = ''instant_funding'' \<and> ce_reference e = in_id y"
    if "e \<in> set (credit_entries s')" for e
    using that credit_entries_change [OF credit] y by (auto simp: same(3))
  have step: "instant_sound env s'" "instant_run s s'"
    by (rule session_added [OF sound id alone y(6,7,8) tabs same(4) posted entries]; assumption)+
  have "wealth s' = wealth s"
    using total_credit_change [OF bs credit] y by (simp add: wealth_def tabs same(2))
  with step show ?thesis by (simp add: moves_on_def)
qed

lemma service_terms_ok:
  assumes "instant_sound env s" and "d \<in> set (instant_services s)"
  shows "terms_ok (service_terms d)"
  using assms by (auto simp: instant_sound_def services_ok_def terms_ok_def service_terms_def service_bounds_def)

lemma open_advances:
  assumes sound: "instant_sound env s" and run: "openInstantSession env now fresh who serviceId input s = Inr (r, s')"
  shows "moves_on env s s'"
proof (cases "find (\<lambda>x. in_buyer_id x = who_user who \<and> in_client_reference x = xf_client_reference input) (instant_sessions s)")
  case (Some p)
  then have "s' = s" using run by (auto simp: openInstantSession_def run_simps)
  then show ?thesis using advances_refl [OF sound] by simp
next
  case None
  obtain d y where d: "find (\<lambda>d. is_id d = serviceId) (instant_services s) = Some d"
    and fund: "fundSession now fresh (who_user who) serviceId input (service_terms d) s = Inr (y, s')"
    using run None
    by (auto simp: openInstantSession_def run_simps dest!: state_kept split: option.splits if_splits)
  have "d \<in> set (instant_services s)" using d by (simp add: find_Some_in)
  from funding_advances [OF sound service_terms_ok [OF sound this] fund] show ?thesis .
qed

subsection \<open>Calling\<close>

lemma insert_advances:
  assumes sound: "instant_sound env s" and x: "session_at s (in_id x) = Some x"
    and input: "json = canonicalJSON (ie_show env) (J_obj es)" "well_typed (it_input_schema (in_terms x)) es"
    and count: "length (calls_of s (in_id x)) < 1000"
    and run: "insertCall env now fresh x reference json s = Inr (c, s')"
  shows "moves_on env s s'"
proof -
  have xin: "x \<in> set (instant_sessions s)" using x session_row [OF sound] by blast
  let ?g = "hold (it_unit_price_minor (in_terms x))"
  have c: "c = new_call env now fresh x reference json" by (use run in \<open>auto simp: insertCall_def Let_def run_simps\<close>)
  obtain s1 where "list_all session_conservation (map ?g (filter (\<lambda>y. in_id y = in_id x) (instant_sessions s)))"
    and s1: "s1 = with_session (in_id x) ?g s"
    and new: "\<not> list_ex (\<lambda>q. ic_id q = fresh \<or> ic_session_id q = in_id x \<and> ic_client_reference q = reference) (instant_calls s1)"
    and s': "s' = s1\<lparr>instant_calls := instant_calls s1 @ [c]\<rparr>"
    using run by (auto simp: insertCall_def run_simps update_sessions_eval Let_def with_session_def split: if_splits)
  then have cons: "session_conservation (?g x)" using xin by (simp add: list_all_iff)
  have tabs: "instant_sessions s' = set_rows (\<lambda>y. in_id y = in_id x) ?g (instant_sessions s)"
    "instant_calls s' = instant_calls s @ [c]" "instant_services s' = instant_services s"
    "credit_accounts s' = credit_accounts s" "credit_entries s' = credit_entries s"
    by (simp_all add: s' s1 with_session_tables)
  have id: "ic_id c \<notin> set (map ic_id (instant_calls s))"
    using new by (auto simp: s1 with_session_tables list_ex_iff c new_call_def Let_def)
  have fits: "call_fits env x c"
    using input by (auto simp: c new_call_def Let_def call_fits_def simp del: canonicalJSON.simps)
  have pend: "ic_state c = C_pending" "ic_unit_price_minor c = it_unit_price_minor (in_terms x)"
    by (simp_all add: c new_call_def Let_def)
  have g: "session_terms (?g x) = session_terms x" "in_status (?g x) = in_status x"
    "in_held_minor (?g x) = in_held_minor x + ic_unit_price_minor c" "in_balance_minor (?g x) = in_balance_minor x"
    "in_spent_minor (?g x) = in_spent_minor x" "in_refunded_minor (?g x) = in_refunded_minor x" "in_id (?g x) = in_id x"
    by (simp_all add: hold_def session_terms_def pend)
  have step: "instant_sound env s'" "instant_run s s'"
    by (rule call_added [where g = ?g, OF sound xin id fits pend(1) count g(1) cons g(2-6) tabs])+
  have "wealth s' = wealth s"
    using wealth_step [where g = ?g, OF sound xin g(7) tabs(1)] g(4) by (simp add: total_credit_def tabs)
  with step show ?thesis by (simp add: moves_on_def)
qed

lemma newCall_run:
  assumes "newCall env now fresh who x reference es s = Inr (c, s')"
  shows "insertCall env now fresh x reference (canonicalJSON (ie_show env) (J_obj es)) s = Inr (c, s')"
    and "fst (checkServiceInput es (schema_json (it_input_schema (in_terms x)))) = Input_valid"
    and "length (calls_of s (in_id x)) < 1000" and "in_status x = I_open" and "now < in_expires_at x * 1000"
  using assms by (auto simp: newCall_def Let_def run_simps calls_of_def dest!: state_kept simp del: canonicalJSON.simps)

lemma keeps_call: "keeps (tracked env s0 C X) (createInstantCall env now fresh who i reference es)"
  unfolding createInstantCall_def
proof (rule keeps_leads, rule leads_sessionRow, rule leads_require, unfold leads_def, intro allI impI)
  fix x s a s'
  assume P: "tracked env s0 C X s \<and> session_at s i = Some x"
    and run: "bnd (select_one instant_calls (\<lambda>c. ic_session_id c = i \<and> ic_client_reference c = reference)) (\<lambda>prior. case prior of
        Some p \<Rightarrow> andthen (require (ic_input_hash p = ie_hash env (canonicalJSON (ie_show env) (J_obj es)))
              (InstantError ''IDEMPOTENCY_CONFLICT'' 409))
         (andthen (expireCalls now i) (bnd (callRow (ic_id p)) (\<lambda>c. ret (instantCallDto c, True))))
      | None \<Rightarrow> bnd (newCall env now fresh who x reference es) (\<lambda>c. ret (instantCallDto c, False))) s = Inr (a, s')"
  have t: "tracked env s0 C X s" using P by simp
  note sound = tracked_sound [OF t]
  have x: "session_at s (in_id x) = Some x" "x \<in> set (instant_sessions s)" using P session_row [OF sound] by auto
  show "tracked env s0 C X s'"
  proof (cases "find (\<lambda>c. ic_session_id c = i \<and> ic_client_reference c = reference) (instant_calls s)")
    case (Some p)
    then obtain u where "expireCalls now i s = Inr (u, s')"
      using run by (auto simp: run_simps simp del: canonicalJSON.simps)
    from keepsD [OF keeps_expireCalls t this] show ?thesis .
  next
    case None
    then obtain c where c: "newCall env now fresh who x reference es s = Inr (c, s')"
      using run by (auto simp: run_simps)
    note n = newCall_run [OF c]
    have "terms_ok (in_terms x)" using sound x(2) by (simp add: instant_sound_def session_alone_def)
    then have "well_typed (it_input_schema (in_terms x)) es"
      using n(2) check_accepted [of "it_input_schema (in_terms x)" es] by (auto simp: terms_ok_def split: if_splits)
    from tracked_step [OF t insert_advances [OF sound x(1) refl this n(3,1)]] show ?thesis .
  qed
qed

lemma keeps_readCall: "keeps (tracked env s0 C X) (readInstantCall now u i)"
  unfolding readInstantCall_def callRow_def sessionRow_def by (intro keeps_intros keeps_expireCalls)

lemma keeps_readSession: "keeps (tracked env s0 C X) (readInstantSession now b i close)"
  unfolding readInstantSession_def
proof (rule keeps_leads, rule leads_sessionRow, rule leads_require, rule leads_andthen [where Q = "tracked env s0 C X"])
  fix x
  show "leads (\<lambda>s. tracked env s0 C X s \<and> session_at s i = Some x)
     (onlyif (close \<and> in_status x = I_open) (bnd (update_sessions i closing) (\<lambda>_. ret ()))) (\<lambda>_. tracked env s0 C X)"
    unfolding leads_def
  proof (intro allI impI)
    fix s a s'
    assume P: "tracked env s0 C X s \<and> session_at s i = Some x"
      and run: "onlyif (close \<and> in_status x = I_open) (bnd (update_sessions i closing) (\<lambda>_. ret ())) s = Inr (a, s')"
    have t: "tracked env s0 C X s" and x: "x \<in> set (instant_sessions s)" "in_id x = i"
      using P session_row [OF tracked_sound] by auto
    show "tracked env s0 C X s'"
    proof (cases "close \<and> in_status x = I_open")
      case True
      then have open': "in_status x \<noteq> I_closed" by simp
      have "s' = with_session i closing s"
        using run True closing_advances(1) [OF tracked_sound [OF t] x(1) open' x(2)] by (simp add: onlyif_run bnd_Inr)
      then show ?thesis using tracked_step [OF t closing_advances(2) [OF tracked_sound [OF t] x(1) open' x(2)]] by simp
    next
      case False
      then have "onlyif (close \<and> in_status x = I_open) m = ret ()" for m :: "unit dbtx" unfolding onlyif_def by (rule if_not_P)
      then have "s' = s" using run by simp
      with t show ?thesis by simp
    qed
  qed
  show "leads (tracked env s0 C X) (andthen (expireCalls now i) (bnd (sessionRow i) (\<lambda>x. ret (instantSessionDto x))))
     (\<lambda>_. tracked env s0 C X)"
    unfolding sessionRow_def by (intro leads_keeps keeps_intros keeps_expireCalls)
qed

subsection \<open>The provider's requests\<close>

lemma set_rows_ident: "set_rows p (\<lambda>x. x) rs = rs"
  by (simp add: set_rows_def)

lemma claim_advances:
  assumes sound: "instant_sound env s" and c: "call_at s i = Some c" "ic_state c = C_pending"
    and run: "update_calls (\<lambda>q. ic_id q = i \<and> ic_state q = C_pending) (claimed_call lease) s = Inr (rows, s')"
  shows "moves_on env s s'"
proof -
  have cin: "c \<in> set (instant_calls s)" "ic_id c = i" using c call_row [OF sound] by simp_all
  have live: "live_state (ic_state c)" by (simp add: c(2) live_state_def)
  obtain x where x: "x \<in> set (instant_sessions s)" "in_id x = ic_session_id c" "call_fits env x c"
    by (rule session_of_call [OF sound cin(1)])
  have dc: "distinct (map ic_id (instant_calls s))" using sound by (simp add: instant_sound_def)
  let ?p = "\<lambda>q. ic_id q = i \<and> ic_state q = C_pending" and ?f = "claimed_call lease"
  have p: "?p q \<longleftrightarrow> ic_id q = ic_id c" if "q \<in> set (instant_calls s)" for q
    using unique_key_eq [OF dc that cin(1)] cin(2) c(2) by auto
  have f: "call_terms (?f c) = call_terms c" "ic_state (?f c) = C_claimed" "ic_output_json (?f c) = ic_output_json c"
    "ic_receipt (?f c) = ic_receipt c"
    by (simp_all add: claimed_call_def call_terms_def)
  have s': "s' = s\<lparr>instant_calls := set_rows ?p ?f (instant_calls s)\<rparr>"
    using run by (auto simp: update_calls_eval Let_def split: if_splits)
  have cons: "session_conservation x" using sound x(1) by (simp add: instant_sound_def session_alone_def)
  have tabs: "instant_calls s' = set_rows ?p ?f (instant_calls s)"
    "instant_sessions s' = set_rows (\<lambda>y. in_id y = in_id x) (\<lambda>y. y) (instant_sessions s)"
    "instant_services s' = instant_services s" "credit_entries s' = credit_entries s" "credit_accounts s' = credit_accounts s"
    by (simp_all add: s' set_rows_ident)
  have books: "books s'" using sound books_cong [OF tabs(5,4)] by (simp add: instant_sound_def)
  have moved: "moved_session x c (ic_state (?f c)) x"
    using cons by (simp add: moved_session_def f price_if_def live_state_def)
  have answer: "if ic_state (?f c) = C_completed then was_answered env x (?f c) else ic_output_json (?f c) = None \<and> ic_receipt (?f c) = None"
    using x(3) c(2) by (simp add: f call_fits_def)
  have move: "call_move (ic_state c) (ic_state (?f c))" by (simp add: f c(2) call_machine_defs)
  have posted: "posted s' u q k = (if ic_state (?f c) = C_completed \<and> u = ic_seller_id c \<and> q = ic_id c
      \<and> k = ''instant_sale'' then Some (ic_unit_price_minor c, 0) else posted s u q k)" for u q k
    by (simp add: f posted_def tabs)
  have step: "instant_sound env s'" "instant_run s s'"
    by (rule call_step [where f = ?f and g = "\<lambda>y. y", OF sound cin(1) live x(1,2) p f(1) move moved answer tabs(1-3) books posted];
        simp add: tabs)+
  have "wealth s' = wealth s" by (simp add: wealth_def total_credit_def s')
  with step show ?thesis by (simp add: moves_on_def)
qed

lemma charge_advances:
  assumes sound: "instant_sound env s" and c: "call_at s i = Some c" "ic_state c = C_claimed" "ic_id c = i"
    and x: "session_at s (ic_session_id c) = Some x"
    and out: "well_typed (it_output_schema (in_terms x)) es" "json = canonicalJSON (ie_show env) (J_obj es)"
    and credit: "changeCredit t (ic_seller_id c) (ic_id c) ''instant_sale'' (ic_unit_price_minor c) 0 s = Inr (z, s1)"
    and held: "update_sessions (in_id x) (charge (ic_unit_price_minor c)) s1 = Inr (xs, s2)"
    and filed: "update_calls (\<lambda>q. ic_id q = ic_id c \<and> ic_state q = C_claimed)
         (completed_call now json (receipt_of env time x c json)) s2 = Inr (cs, s')"
  shows "moves_on env s s'"
proof -
  have cin: "c \<in> set (instant_calls s)" using c call_row [OF sound] by simp
  have xin: "x \<in> set (instant_sessions s)" "in_id x = ic_session_id c" using x session_row [OF sound] by simp_all
  note fits = row_fits [OF sound cin xin]
  have live: "live_state (ic_state c)" by (simp add: c(2) live_state_def)
  let ?g = "charge (ic_unit_price_minor c)" and ?p = "\<lambda>q. ic_id q = ic_id c \<and> ic_state q = C_claimed"
    and ?f = "completed_call now json (receipt_of env time x c json)"
  have dc: "distinct (map ic_id (instant_calls s))" using sound by (simp add: instant_sound_def)
  have p: "?p q \<longleftrightarrow> ic_id q = ic_id c" if "q \<in> set (instant_calls s)" for q
    using unique_key_eq [OF dc that cin(1)] c(2) by auto
  note frame = change_frame [OF credit]
  have s2: "s2 = with_session (in_id x) ?g s1" and checked: "list_all session_conservation (map ?g (filter (\<lambda>y. in_id y = in_id x) (instant_sessions s1)))"
    using held by (auto simp: update_sessions_eval Let_def with_session_def split: if_splits)
  have s': "s' = s2\<lparr>instant_calls := set_rows ?p ?f (instant_calls s2)\<rparr>"
    using filed by (auto simp: update_calls_eval Let_def split: if_splits)
  have cons: "session_conservation (?g x)" using checked frame xin(1) by (simp add: list_all_iff)
  have tabs: "instant_calls s' = set_rows ?p ?f (instant_calls s)"
    "instant_sessions s' = set_rows (\<lambda>y. in_id y = in_id x) ?g (instant_sessions s)"
    "instant_services s' = instant_services s" "credit_entries s' = credit_entries s1" "credit_accounts s' = credit_accounts s1"
    using frame by (simp_all add: s' s2 with_session_tables)
  have bs: "books s" using sound by (simp add: instant_sound_def)
  have books: "books s'" using books_change [OF bs credit] books_cong [OF tabs(5,4)] by simp
  have f: "call_terms (?f c) = call_terms c" "ic_state (?f c) = C_completed"
    by (simp_all add: completed_call_def call_terms_def)
  have moved: "moved_session x c (ic_state (?f c)) (?g x)"
    using cons by (simp add: moved_session_def f price_if_def live_state_def charge_def session_terms_def)
  have answer: "if ic_state (?f c) = C_completed then was_answered env x (?f c) else ic_output_json (?f c) = None \<and> ic_receipt (?f c) = None"
    using out by (auto simp: f was_answered_def completed_call_def receipt_of_def simp del: canonicalJSON.simps)
  have move: "call_move (ic_state c) (ic_state (?f c))" by (simp add: f c(2) call_machine_defs)
  have posted: "posted s' u q k = (if ic_state (?f c) = C_completed \<and> u = ic_seller_id c \<and> q = ic_id c
      \<and> k = ''instant_sale'' then Some (ic_unit_price_minor c, 0) else posted s u q k)" for u q k
  proof -
    have "posted s' u q k = posted s1 u q k" by (simp add: posted_def tabs)
    then show ?thesis using posted_change(2) [OF credit] by (simp add: f)
  qed
  have entries: "e \<in> set (credit_entries s) \<or> ce_kind e = ''instant_sale'' \<and> ce_reference e = ic_id c"
    if "e \<in> set (credit_entries s')" for e
    using that credit_entries_change [OF credit] by (auto simp: tabs)
  have step: "instant_sound env s'" "instant_run s s'"
    by (rule call_step [where f = ?f and g = ?g, OF sound cin(1) live xin p f(1) move moved answer tabs(1-3) books posted entries];
        assumption)+
  have "total_credit s' = total_credit s + ic_unit_price_minor c"
    using total_credit_change [OF bs credit] by (simp add: total_credit_def tabs)
  then have "wealth s' = wealth s"
    using wealth_step [where g = ?g, OF sound xin(1) _ tabs(2)] by (simp add: charge_def)
  with step show ?thesis by (simp add: moves_on_def)
qed

lemma keeps_claim: "keeps (tracked env s0 C X) (claimInstantCall env now seller i token)"
  unfolding claimInstantCall_def
proof (rule keeps_leads, rule leads_callRow, rule leads_require, rule leads_pre, rule leads_keep_andthen [OF keeps_expireCalls],
    rule leads_callRow, intro leads_if)
  fix c :: instant_call assume "\<not> ic_state c \<noteq> C_pending"
  then have pending: "ic_state c = C_pending" by simp
  show "leads (\<lambda>s. tracked env s0 C X s \<and> call_at s i = Some c)
     (bnd (update_calls (\<lambda>c. ic_id c = i \<and> ic_state c = C_pending) (claimed_call (ie_hash env token))) (\<lambda>rows.
       bnd (first_or (InstantError ''LEASE_CONFLICT'' 409) rows) (\<lambda>claimed. ret (instantCallDto claimed))))
     (\<lambda>_. tracked env s0 C X)"
    unfolding leads_def
  proof (intro allI impI)
    fix s a s'
    assume P: "tracked env s0 C X s \<and> call_at s i = Some c"
      and "bnd (update_calls (\<lambda>c. ic_id c = i \<and> ic_state c = C_pending) (claimed_call (ie_hash env token))) (\<lambda>rows.
         bnd (first_or (InstantError ''LEASE_CONFLICT'' 409) rows) (\<lambda>claimed. ret (instantCallDto claimed))) s = Inr (a, s')"
    then obtain rows where "update_calls (\<lambda>c. ic_id c = i \<and> ic_state c = C_pending) (claimed_call (ie_hash env token)) s = Inr (rows, s')"
      by (auto simp: run_simps)
    from claim_advances [OF tracked_sound _ pending this] P tracked_step show "tracked env s0 C X s'" by blast
  qed
qed (auto simp: leads_def run_simps)

lemma chargeCall_advances:
  assumes sound: "instant_sound env s" and c: "call_at s i = Some c" "ic_state c = C_claimed"
    and run: "chargeCall env now c es s = Inr (r, s')"
  obtains s3 a where "moves_on env s s3" "finalizeSession now (ic_session_id c) s3 = Inr (a, s')"
proof -
  have id: "ic_id c = i" using c call_row [OF sound] by simp
  obtain x check z s1 xs s2 cs s3 a where x: "session_at s (ic_session_id c) = Some x"
    and check: "verifyOutputSchema (Some es) (schema_json (it_output_schema (in_terms x))) = Some check" "vo_status check = V_passed"
    and steps: "changeCredit (to_seconds now) (ic_seller_id c) (ic_id c) ''instant_sale'' (ic_unit_price_minor c) 0 s = Inr (z, s1)"
      "update_sessions (in_id x) (charge (ic_unit_price_minor c)) s1 = Inr (xs, s2)"
      "update_calls (\<lambda>q. ic_id q = ic_id c \<and> ic_state q = C_claimed)
         (completed_call now (canonicalJSON (ie_show env) (J_obj es)) (receipt_of env now x c (canonicalJSON (ie_show env) (J_obj es)))) s2
       = Inr (cs, s3)"
    and final: "finalizeSession now (in_id x) s3 = Inr (a, s')"
    using run by (auto simp: chargeCall_def Let_def run_simps simp del: canonicalJSON.simps)
  have xin: "x \<in> set (instant_sessions s)" "in_id x = ic_session_id c" using x session_row [OF sound] by simp_all
  have "terms_ok (in_terms x)" using sound xin(1) by (simp add: instant_sound_def session_alone_def)
  then have "well_typed (it_output_schema (in_terms x)) es"
    using check verify_accepted(1) by (auto simp: terms_ok_def)
  from charge_advances [OF sound c id x this refl steps] final xin(2) show thesis using that by simp
qed

lemma keeps_charge:
  assumes "ic_state c = C_claimed"
  shows "leads (\<lambda>s. tracked env s0 C X s \<and> call_at s i = Some c) (chargeCall env now c es) (\<lambda>_. tracked env s0 C X)"
  unfolding leads_def
proof (intro allI impI)
  fix s r s' assume P: "tracked env s0 C X s \<and> call_at s i = Some c" and run: "chargeCall env now c es s = Inr (r, s')"
  obtain s3 a where "moves_on env s s3" "finalizeSession now (ic_session_id c) s3 = Inr (a, s')"
    using chargeCall_advances [OF tracked_sound _ assms run] P by blast
  then show "tracked env s0 C X s'" using P tracked_step keepsD [OF keeps_finalizeSession] by blast
qed

lemma keeps_known_call:
  "leads (\<lambda>s. tracked env s0 C X s \<and> call_at s i = Some c) (failCall now c code) (\<lambda>_. tracked env s0 C X)"
proof (rule leads_pre [OF leads_weaken [where D = "{c}", OF leads_keeps]])
  show "keeps (tracked env s0 ({c} \<union> C) X) (failCall now c code)" by (rule keeps_failCall) simp
  show "tracked env s0 ({c} \<union> C) X s" if "tracked env s0 C X s \<and> call_at s i = Some c" for s
    using tracked_call [of env s0 C X s i c] that by simp
qed

lemma keeps_complete: "keeps (tracked env s0 C X) (completeInstantCall env now seller i token result)"
  unfolding completeInstantCall_def
proof (rule keeps_leads, rule leads_callRow, rule leads_require, rule leads_require, rule leads_if)
  fix first :: instant_call
  show "leads (\<lambda>s. tracked env s0 C X s \<and> call_at s i = Some first)
     (andthen (require (case result of Gave_up \<Rightarrow> False
         | Answered output \<Rightarrow> Some (canonicalJSON (ie_show env) (J_obj output)) = ic_output_json first)
       (InstantError ''IDEMPOTENCY_CONFLICT'' 409)) (ret (instantCallDto first, True))) (\<lambda>_. tracked env s0 C X)"
    by (intro leads_require leads_ret) simp
next
  fix first :: instant_call
  show "leads (\<lambda>s. tracked env s0 C X s \<and> call_at s i = Some first)
     (andthen (expireCalls now (ic_session_id first)) (bnd (callRow i) (\<lambda>call.
         if ic_state call = C_failed then ret (instantCallDto call, True)
         else andthen (require (ic_state call = C_claimed) (InstantError ''LEASE_REJECTED'' 403))
          (case result of
             Gave_up \<Rightarrow> bnd (failCall now call ''PROVIDER_FAILED'') (\<lambda>failed.
               bnd (finalizeSession now (ic_session_id failed)) (\<lambda>_. ret (instantCallDto failed, False)))
           | Answered output \<Rightarrow> bnd (chargeCall env now call output) (\<lambda>completed.
               ret (instantCallDto completed, False)))))) (\<lambda>_. tracked env s0 C X)"
  proof (rule leads_pre, rule leads_keep_andthen [OF keeps_expireCalls], rule leads_callRow, intro leads_if leads_ret leads_require)
    fix call :: instant_call assume claimed: "ic_state call = C_claimed"
    show "leads (\<lambda>s. tracked env s0 C X s \<and> call_at s i = Some call)
       (case result of
             Gave_up \<Rightarrow> bnd (failCall now call ''PROVIDER_FAILED'') (\<lambda>failed.
               bnd (finalizeSession now (ic_session_id failed)) (\<lambda>_. ret (instantCallDto failed, False)))
           | Answered output \<Rightarrow> bnd (chargeCall env now call output) (\<lambda>completed.
               ret (instantCallDto completed, False))) (\<lambda>_. tracked env s0 C X)"
    proof (cases result)
      case (Answered es)
      then show ?thesis by simp (rule leads_bnd [OF keeps_charge [OF claimed]], rule leads_ret)
    next
      case Gave_up
      have "leads (tracked env s0 C X) (bnd (finalizeSession now (ic_session_id f)) (\<lambda>_. ret (instantCallDto f, False)))
          (\<lambda>_. tracked env s0 C X)" for f
        by (intro leads_keeps keeps_bnd keeps_ret keeps_finalizeSession)
      with Gave_up show ?thesis by simp (rule leads_bnd [OF keeps_known_call])
    qed
  qed auto
qed

lemma keeps_reconcile: "keeps (tracked env s0 C X) (reconcileInstantSessions now limit)"
proof -
  have "leads (\<lambda>s. tracked env s0 C X s \<and> True) (reconcileInstantSessions now limit) (\<lambda>_. tracked env s0 C X)"
    unfolding reconcileInstantSessions_def
  proof (rule leads_calls)
    fix cs
    have "keeps (tracked env s0 (set cs \<union> C) X)
      (andthen (foreach cs (\<lambda>c. bnd (failCall now c ''CALL_DEADLINE_EXCEEDED'')
          (\<lambda>_. bnd (finalizeSession now (ic_session_id c)) (\<lambda>_. ret ()))))
        (bnd (asks (\<lambda>s. take limit (filter (due_session now) (instant_sessions s)))) (\<lambda>sessions.
           andthen (foreach sessions (\<lambda>x. bnd (finalizeSession now (in_id x)) (\<lambda>_. ret ())))
             (ret (length cs, length sessions)))))"
      by (intro keeps_intros keeps_failCall keeps_finalizeSession) simp
    then show "leads (\<lambda>s. tracked env s0 (set cs \<union> C) X s \<and> True)
      (andthen (foreach cs (\<lambda>c. bnd (failCall now c ''CALL_DEADLINE_EXCEEDED'')
          (\<lambda>_. bnd (finalizeSession now (ic_session_id c)) (\<lambda>_. ret ()))))
        (bnd (asks (\<lambda>s. take limit (filter (due_session now) (instant_sessions s)))) (\<lambda>sessions.
           andthen (foreach sessions (\<lambda>x. bnd (finalizeSession now (in_id x)) (\<lambda>_. ret ())))
             (ret (length cs, length sessions))))) (\<lambda>_. tracked env s0 C X)"
      using leads_weaken [OF leads_keeps] by simp
  qed (auto dest: in_set_takeD)
  then show ?thesis by (simp add: leads_def keeps_def)
qed

end
