(* ===== verification/InstantHistory.thy ===== *)
theory InstantHistory
  imports InstantSafety
begin

text \<open>
  Instant execution over time: the requests in any order between other operations
  of the market, what holds at every moment, and the closing of a session that has
  expired.
\<close>

section \<open>Histories\<close>

inductive instant_request :: "instant_env \<Rightarrow> db \<Rightarrow> db \<Rightarrow> bool" for env where
  offer: "instantServiceInput f = Some input \<Longrightarrow> createInstantService env fresh who input s = Inr (d, s') \<Longrightarrow>
     instant_request env s s'"
| begin_session: "instantSessionInput f = Some input \<Longrightarrow> openInstantSession env now fresh who i input s = Inr (x, s') \<Longrightarrow>
     instant_request env s s'"
| look: "readInstantSession now b i close s = Inr (x, s') \<Longrightarrow> instant_request env s s'"
| place: "reference_input v = Some reference \<Longrightarrow> payload_input (ie_show env) raw = Some es \<Longrightarrow>
     createInstantCall env now fresh who i reference es s = Inr (c, s') \<Longrightarrow> instant_request env s s'"
| follow: "readInstantCall now u i s = Inr (c, s') \<Longrightarrow> instant_request env s s'"
| claim: "instantClaimInput v = Some token \<Longrightarrow> claimInstantCall env now u i token s = Inr (c, s') \<Longrightarrow> instant_request env s s'"
| answer: "instantClaimInput v = Some token \<Longrightarrow> completeInstantCall env now u i token r s = Inr (c, s') \<Longrightarrow>
     instant_request env s s'"
| sweep: "reconcileInstantSessions now limit s = Inr (n, s') \<Longrightarrow> instant_request env s s'"

text \<open>Requests in any order, with any other operation of the market in between.\<close>

inductive instant_history :: "instant_env \<Rightarrow> db \<Rightarrow> db \<Rightarrow> bool" for env s where
  start: "instant_history env s s"
| request: "instant_history env s t \<Longrightarrow> instant_request env t u \<Longrightarrow> instant_history env s u"
| elsewhere: "instant_history env s t \<Longrightarrow> instant_view u = instant_view t \<Longrightarrow> books u \<Longrightarrow> instant_history env s u"

lemma instant_request_advances:
  assumes "instant_sound env s" and "instant_request env s s'"
  shows "moves_on env s s'"
proof -
  note t = trackedI [OF assms(1)]
  show ?thesis using assms(2)
  proof cases
    case (offer f input fresh who d)
    from service_advances [OF offer(1) assms(1) offer(2)] show ?thesis .
  next
    case (begin_session f input now fresh who i x)
    from open_advances [OF assms(1) begin_session(2)] show ?thesis .
  next
    case (look now b i close x)
    from tracked_advances [OF keepsD [OF keeps_readSession t look]] show ?thesis .
  next
    case (place v reference raw es now fresh who i c)
    from tracked_advances [OF keepsD [OF keeps_call t place(3)]] show ?thesis .
  next
    case (follow now u i c)
    from tracked_advances [OF keepsD [OF keeps_readCall t follow]] show ?thesis .
  next
    case (claim v token now u i c)
    from tracked_advances [OF keepsD [OF keeps_claim t claim(2)]] show ?thesis .
  next
    case (answer v token now u i r c)
    from tracked_advances [OF keepsD [OF keeps_complete t answer(2)]] show ?thesis .
  next
    case (sweep now limit n)
    from tracked_advances [OF keepsD [OF keeps_reconcile t sweep]] show ?thesis .
  qed
qed

lemma history_sound:
  assumes "instant_history env s s'" and "instant_sound env s"
  shows "instant_sound env s' \<and> instant_run s s'"
  using assms
proof induction
  case start then show ?case by (simp add: ir.refl)
next
  case (request t u)
  then have "instant_sound env t" "instant_run s t" by simp_all
  with instant_request_advances [OF this(1) request(2)] ir.trans [of s t u] show ?case by (simp add: moves_on_def)
next
  case (elsewhere t u)
  then have "instant_sound env t" "instant_run s t" by simp_all
  with sound_view [OF this(1) elsewhere(2,3)] ir.trans [of s t u] show ?case by simp
qed

lemma sound_empty: "instant_sound env empty_db"
  by (simp add: instant_sound_def services_ok_def books_def avail_def escrowed_def creditBalance_def)

text \<open>
  C18. The money of instant execution. Whatever requests run, in whatever order and between whatever
  other operations of the market, every session accounts for its whole budget: it is in the
  balance, spent or refunded; what is held is the price of exactly its unfinished calls and is
  covered by the balance; what is spent is the price of exactly its completed calls; a closed
  session has nothing left. The credit journal shows the same: the funding of each session, its
  refund once it is closed, and one sale for each completed call and for no other. And no request
  creates or destroys credit.
\<close>

theorem instant_money_adds_up:
  assumes "instant_sound env s" and "instant_history env s s'" and "x \<in> set (instant_sessions s')"
  shows "in_budget_minor x = in_balance_minor x + in_spent_minor x + in_refunded_minor x
    \<and> 0 \<le> in_held_minor x \<and> in_held_minor x \<le> in_balance_minor x
    \<and> in_held_minor x = (\<Sum>c \<leftarrow> filter (\<lambda>c. live_state (ic_state c)) (calls_of s' (in_id x)). ic_unit_price_minor c)
    \<and> in_spent_minor x = (\<Sum>c \<leftarrow> filter (\<lambda>c. ic_state c = C_completed) (calls_of s' (in_id x)). ic_unit_price_minor c)
    \<and> (in_status x = I_closed \<longrightarrow> in_balance_minor x = 0)
    \<and> posted s' (in_buyer_id x) (in_id x) ''instant_funding'' = Some (- in_budget_minor x, 0)
    \<and> posted s' (in_buyer_id x) (in_id x) ''instant_refund'' =
        (if in_refunded_minor x = 0 then None else Some (in_refunded_minor x, 0))
    \<and> (\<forall>c \<in> set (calls_of s' (in_id x)). posted s' (ic_seller_id c) (ic_id c) ''instant_sale'' =
        (if ic_state c = C_completed then Some (ic_unit_price_minor c, 0) else None))
    \<and> (\<forall>t. instant_request env s' t \<longrightarrow> wealth t = wealth s')"
proof -
  have sound: "instant_sound env s'" using history_sound [OF assms(2,1)] by simp
  note S = sound [unfolded instant_sound_def]
  have x: "session_alone x" "session_adds_up s' x" "session_posted s' x" using S assms(3) by blast+
  have sums: "held_for s' i = (\<Sum>c \<leftarrow> filter (\<lambda>c. live_state (ic_state c)) (calls_of s' i). ic_unit_price_minor c)"
    "charged_for s' i = (\<Sum>c \<leftarrow> filter (\<lambda>c. ic_state c = C_completed) (calls_of s' i). ic_unit_price_minor c)" for i
    by (simp_all add: held_for_def charged_for_def calls_of_def sum_rows_def conj_commute)
  have "call_posted s' c" if "c \<in> set (calls_of s' (in_id x))" for c using S that by (auto simp: calls_of_def)
  moreover have "wealth t = wealth s'" if "instant_request env s' t" for t
    using instant_request_advances [OF sound that] by (simp add: moves_on_def)
  ultimately show ?thesis
    using x sums unfolding session_alone_def session_conservation_def session_adds_up_def session_posted_def call_posted_def
    by auto
qed

section \<open>An expired session is settled\<close>

definition live_ids :: "db \<Rightarrow> id \<Rightarrow> id set" where
  "live_ids s i = ic_id ` {c \<in> set (instant_calls s). ic_session_id c = i \<and> live_state (ic_state c)}"

definition session_core :: "instant_session \<Rightarrow> (id \<times> id \<times> id \<times> string \<times> instant_terms \<times> int \<times> seconds \<times> seconds) \<times> int \<times> int \<times> int \<times> instant_status" where
  "session_core x = (session_terms x, in_balance_minor x, in_spent_minor x, in_refunded_minor x, in_status x)"

definition core_at :: "db \<Rightarrow> id \<Rightarrow> _ option" where
  "core_at s i = map_option session_core (session_at s i)"

lemma failed_state_effect:
  assumes "instant_sound env s" and "c \<in> set (instant_calls s)"
  shows "live_ids (failed_state now code c s) i = live_ids s i - {ic_id c}"
    and "core_at (failed_state now code c s) i = core_at s i"
    and "\<And>r. r \<in> set (instant_calls s) \<Longrightarrow> ic_id r \<noteq> ic_id c \<Longrightarrow> r \<in> set (instant_calls (failed_state now code c s))"
proof -
  have "live_state (ic_state (failed_call now code r)) = False" for r by (simp add: failed_call_terms live_state_def)
  moreover have "ic_id (failed_call now code r) = ic_id r" "ic_session_id (failed_call now code r) = ic_session_id r" for r
    by (simp_all add: failed_call_def)
  ultimately show "live_ids (failed_state now code c s) i = live_ids s i - {ic_id c}"
    unfolding live_ids_def by (auto simp: failed_state_def set_set_rows image_iff split: if_splits)
  have "session_core (release n x) = session_core x" "in_id (release n x) = in_id x" for n x
    by (simp_all add: session_core_def release_def session_terms_def)
  then show "core_at (failed_state now code c s) i = core_at s i"
    by (cases "find (\<lambda>x. in_id x = i) (instant_sessions s)")
      (simp_all add: core_at_def session_at_def failed_state_def find_set_rows)
  show "\<And>r. r \<in> set (instant_calls s) \<Longrightarrow> ic_id r \<noteq> ic_id c \<Longrightarrow> r \<in> set (instant_calls (failed_state now code c s))"
    by (force simp: failed_state_def set_set_rows)
qed

lemma fail_each_returns:
  assumes "instant_sound env s" and "distinct (map ic_id cs)"
    and "\<And>c. c \<in> set cs \<Longrightarrow> c \<in> set (instant_calls s) \<and> live_state (ic_state c)"
  shows "\<exists>s'. fail_each now code cs s = Inr ((), s') \<and> instant_sound env s' \<and> live_ids s' i = live_ids s i - ic_id ` set cs
     \<and> core_at s' i = core_at s i \<and> credit_accounts s' = credit_accounts s \<and> credit_entries s' = credit_entries s"
  using assms
proof (induction cs arbitrary: s)
  case Nil
  then show ?case by (simp add: fail_each_def ret_def)
next
  case (Cons c cs)
  let ?s = "failed_state now (code c) c s"
  have c: "c \<in> set (instant_calls s)" "live_state (ic_state c)" using Cons.prems(3) by simp_all
  have at: "call_at s (ic_id c) = Some c" using call_row [OF Cons.prems(1)] c(1) by blast
  note f = failCall_live [OF Cons.prems(1) at refl c(2)]
  note e = failed_state_effect [OF Cons.prems(1) c(1)]
  have rest: "r \<in> set (instant_calls ?s) \<and> live_state (ic_state r)" if r: "r \<in> set cs" for r
    using Cons.prems(2,3) r e(3) [of r] by (auto simp: image_iff)
  have "instant_sound env ?s" using f(2) by (simp add: moves_on_def)
  from Cons.IH [OF this _ rest] Cons.prems(2)
  obtain s' where "fail_each now code cs ?s = Inr ((), s')" "instant_sound env s'" "live_ids s' i = live_ids ?s i - ic_id ` set cs"
    "core_at s' i = core_at ?s i" "credit_accounts s' = credit_accounts ?s" "credit_entries s' = credit_entries ?s" by auto
  then show ?case
    using f(1) e(1,2) by (auto simp: fail_each_def andthen_def bnd_def ret_def failed_state_tables)
qed

lemma no_live_no_held:
  assumes "instant_sound env s" and "live_ids s i = {}" and "session_at s i = Some x"
  shows "in_held_minor x = 0"
proof -
  have "held_for s i = 0"
    using assms(2) by (auto simp: held_for_def live_ids_def sum_rows_def filter_empty_conv intro!: sum_list_0)
  then show ?thesis using assms(1,3) session_row [OF assms(1)] by (auto simp: instant_sound_def session_adds_up_def)
qed

lemma settle_returns:
  assumes sound: "instant_sound env s" and x: "session_at s i = Some x" "in_status x \<noteq> I_closed" "in_held_minor x = 0"
  shows "\<exists>r s'. settleSession now i s = Inr (r, s') \<and> instant_sound env s' \<and> session_at s' i = Some r
     \<and> r = closed_with now (in_balance_minor x) x \<and> instant_calls s' = instant_calls s
     \<and> avail s' (in_buyer_id x) = avail s (in_buyer_id x) + in_balance_minor x"
proof -
  have xin: "x \<in> set (instant_sessions s)" "in_id x = i" using x(1) session_row [OF sound] by auto
  have X: "session_alone x" "session_posted s x" and b: "books s" using sound xin(1) by (auto simp: instant_sound_def)
  let ?m = "changeCredit (to_seconds now) (in_buyer_id x) i ''instant_refund'' (in_balance_minor x) 0"
  have small: "0 \<le> in_balance_minor x" "in_balance_minor x \<le> 10000" "in_refunded_minor x = 0"
    using X(1) x(2) by (auto simp: session_alone_def session_conservation_def)
  have new: "posted s (in_buyer_id x) i ''instant_refund'' = None" using X(2) small(3) xin(2) by (simp add: session_posted_def)
  have "\<exists>s1. ?m s = Inr ((), s1)"
  proof (cases "?m s")
    case (Inl err)
    have "0 \<le> avail s (in_buyer_id x) \<and> 0 \<le> escrowed s (in_buyer_id x)" by (rule books_solvent [OF b])
    with changeCredit_spec [OF b, where a = "in_balance_minor x" and e = 0 and now = "to_seconds now"
        and u = "in_buyer_id x" and r = i and k = "''instant_refund''"] Inl new small
    show ?thesis by (auto simp: safe_int_def split: if_splits)
  next
    case (Inr p) then show ?thesis by (cases p) simp
  qed
  then obtain s1 where s1: "if in_balance_minor x = 0 then s1 = s else ?m s = Inr ((), s1)"
    by (cases "in_balance_minor x = 0") auto
  have a1: "avail s1 (in_buyer_id x) = avail s (in_buyer_id x) + in_balance_minor x"
    using s1 avail_change(1) [OF b] by (auto split: if_splits)
  have calls: "instant_calls s1 = instant_calls s" "instant_sessions s1 = instant_sessions s"
    using s1 change_frame by (auto split: if_splits)
  note c = closed_advances [OF sound xin(1) x(2) xin(2) x(3) s1, of now]
  let ?g = "closed_with now (in_balance_minor x)" and ?s = "with_session i (closed_with now (in_balance_minor x)) s1"
  have "settleSession now i s = Inr (?g x, ?s)"
    using x(1,3) s1 c(1) unfolding settleSession_def
    by (auto simp: bnd_def sessionRow_def select_one_def asks_def session_at_def some_or_def ret_def andthen_def onlyif_def
        first_or_def split: if_splits)
  moreover have "session_at ?s i = Some (?g x)"
    using x(1) calls(2) by (simp add: session_at_def with_session_tables find_set_rows closed_with_def)
      (use xin in simp)
  moreover have "avail ?s (in_buyer_id x) = avail s1 (in_buyer_id x)"
    by (simp add: avail_def creditBalance_def with_session_tables)
  ultimately show ?thesis using c(2) a1 calls(1) by (auto simp: moves_on_def with_session_tables)
qed

lemma run_fail_each:
  assumes "fail_each now code cs s = Inr ((), s1)"
  shows "andthen (fail_each now code cs) m s = m s1"
  using assms by (rule andthen_Inr)

lemma finalize_returns:
  assumes sound: "instant_sound env s" and x: "session_at s i = Some x" "in_expires_at x * 1000 \<le> now" and live: "live_ids s i = {}"
  shows "\<exists>r s'. finalizeSession now i s = Inr (r, s') \<and> instant_sound env s' \<and> session_at s' i = Some r
     \<and> r = (if in_status x = I_closed then x else closed_with now (in_balance_minor x) x) \<and> instant_calls s' = instant_calls s
     \<and> avail s' (in_buyer_id x) = avail s (in_buyer_id x) + in_balance_minor x"
proof (cases "in_status x = I_closed")
  case True
  have "session_alone x" using sound x(1) session_row [OF sound] by (auto simp: instant_sound_def)
  with True have "in_balance_minor x = 0" by (simp add: session_alone_def)
  moreover have "finalizeSession now i s = Inr (x, s)"
    using True x(1) by (simp add: finalizeSession_def sessionRow_def bnd_def select_one_def asks_def session_at_def some_or_def ret_def)
  ultimately show ?thesis using sound x(1) True by auto
next
  case False
  have none: "filter (\<lambda>c. ic_session_id c = i \<and> live_state (ic_state c) \<and> (overdue_call now c \<or> ic_state c = C_pending))
      (instant_calls s) = []"
    using live by (auto simp: live_ids_def filter_empty_conv)
  have late: "\<not> now < in_expires_at x * 1000" using x(2) by simp
  have "finalizeSession now i s = settleSession now i s"
    using False x(1) late none
    by (simp add: finalizeSession_def sessionRow_def bnd_def select_one_def asks_def session_at_def some_or_def ret_def
        andthen_def fail_each_def)
  with settle_returns [OF sound x(1) False no_live_no_held [OF sound live x(1)], of now] False show ?thesis by auto
qed

lemma expire_returns:
  assumes sound: "instant_sound env s" and x: "session_at s i = Some x" "in_expires_at x * 1000 \<le> now"
  shows "\<exists>r s'. expireCalls now i s = Inr ((), s') \<and> instant_sound env s' \<and> session_at s' i = Some r \<and> live_ids s' i = {}
     \<and> session_terms r = session_terms x \<and> in_status r = I_closed \<and> in_spent_minor r = in_spent_minor x
     \<and> in_balance_minor r = 0 \<and> avail s' (in_buyer_id x) = avail s (in_buyer_id x) + in_balance_minor x"
proof -
  have xin: "x \<in> set (instant_sessions s)" "in_id x = i" using x(1) session_row [OF sound] by auto
  let ?live = "filter (\<lambda>c. ic_session_id c = i \<and> live_state (ic_state c) \<and> overdue_call now c) (instant_calls s)"
  have late: "overdue_call now c" if c: "c \<in> set (instant_calls s)" "ic_session_id c = i" for c
  proof -
    have "call_fits env x c" using row_fits [OF sound c(1) xin(1)] c(2) xin(2) by simp
    then have "ic_deadline_at c * 1000 \<le> now" using x(2) by (simp add: call_fits_def)
    then show ?thesis by (simp add: overdue_call_def to_seconds_def)
  qed
  have "length ?live \<le> length (calls_of s i)"
    unfolding calls_of_def using length_filter_le [of "\<lambda>c. live_state (ic_state c) \<and> overdue_call now c"
      "filter (\<lambda>c. ic_session_id c = i) (instant_calls s)"] by (simp add: conj_commute conj_left_commute)
  also have "\<dots> \<le> 1000" using sound xin by (auto simp: instant_sound_def session_adds_up_def)
  finally have all: "take 1000 ?live = ?live" by simp
  have dist: "distinct (map ic_id ?live)" using sound by (simp add: instant_sound_def distinct_map_filter)
  obtain s1 where s1: "fail_each now (\<lambda>_. ''CALL_DEADLINE_EXCEEDED'') ?live s = Inr ((), s1)" "instant_sound env s1"
    "live_ids s1 i = live_ids s i - ic_id ` set ?live" "core_at s1 i = core_at s i" "credit_accounts s1 = credit_accounts s"
    using fail_each_returns [OF sound dist, of now "\<lambda>_. ''CALL_DEADLINE_EXCEEDED''" i] by auto
  have "live_ids s i \<subseteq> ic_id ` set ?live" using late by (auto simp: live_ids_def)
  then have dead: "live_ids s1 i = {}" using s1(3) by blast
  obtain y where y: "session_at s1 i = Some y" "session_core y = session_core x"
    using s1(4) x(1) by (auto simp: core_at_def)
  have same: "session_terms y = session_terms x" "in_balance_minor y = in_balance_minor x" "in_spent_minor y = in_spent_minor x"
    using y(2) by (simp_all add: session_core_def)
  note terms = session_terms_eq [OF same(1)]
  obtain r s' where r: "finalizeSession now i s1 = Inr (r, s')" "instant_sound env s'" "session_at s' i = Some r"
    "r = (if in_status y = I_closed then y else closed_with now (in_balance_minor y) y)" "instant_calls s' = instant_calls s1"
    "avail s' (in_buyer_id y) = avail s1 (in_buyer_id y) + in_balance_minor y"
    using finalize_returns [OF s1(2) y(1) _ dead, of now] x(2) terms by auto
  have "expireCalls now i s = Inr ((), s')"
    using s1(1) r(1) unfolding expireCalls_def by (simp add: bnd_def asks_def all andthen_def ret_def)
  moreover have "avail s1 u = avail s u" for u using s1(5) by (simp add: avail_def creditBalance_def)
  moreover have "session_alone y" using s1(2) y(1) session_row [OF s1(2)] by (auto simp: instant_sound_def)
  then have "in_status y = I_closed \<Longrightarrow> in_balance_minor y = 0" by (simp add: session_alone_def)
  ultimately show ?thesis
    using r same terms dead by (auto simp: live_ids_def closed_with_def session_terms_def)
qed

text \<open>
  C19. No budget is stuck. Once a session's time is over, one read of it by its buyer succeeds and
  settles it, whatever state its calls were left in: every call is finished, nothing is held, the
  session is closed, what was spent stays spent, and the rest of the budget is back in the buyer's
  balance.
\<close>

theorem expired_session_is_settled:
  assumes "instant_sound env s" and "session_at s i = Some x" and "in_expires_at x * 1000 \<le> now"
  shows "\<exists>y s'. readInstantSession now (in_buyer_id x) i close s = Inr ((y, 0), s') \<and> instant_sound env s'
    \<and> session_at s' i = Some y \<and> session_terms y = session_terms x
    \<and> in_status y = I_closed \<and> in_held_minor y = 0 \<and> in_balance_minor y = 0
    \<and> in_spent_minor y = in_spent_minor x \<and> in_refunded_minor y = in_budget_minor x - in_spent_minor x
    \<and> avail s' (in_buyer_id x) = avail s (in_buyer_id x) + in_balance_minor x
    \<and> (\<forall>c \<in> set (calls_of s' i). call_final (ic_state c))"
proof -
  note sound = assms(1)
  have xin: "x \<in> set (instant_sessions s)" "in_id x = i" using assms(2) session_row [OF sound] by auto
  let ?c = "close \<and> in_status x = I_open"
  obtain s1 y1 where s1: "onlyif ?c (bnd (update_sessions i closing) (\<lambda>_. ret ())) s = Inr ((), s1)"
    "instant_sound env s1" "session_at s1 i = Some y1" "session_terms y1 = session_terms x" "in_balance_minor y1 = in_balance_minor x"
    "in_spent_minor y1 = in_spent_minor x" "avail s1 = avail s"
  proof (cases ?c)
    case True
    then have o': "in_status x \<noteq> I_closed" by simp
    note c = closing_advances [OF sound xin(1) o' xin(2)]
    show ?thesis
    proof (rule that [of "with_session i closing s" "closing x"])
      show "onlyif ?c (bnd (update_sessions i closing) (\<lambda>_. ret ())) s = Inr ((), with_session i closing s)"
        unfolding onlyif_def if_P [OF True] using c(1) by (simp add: bnd_def ret_def)
      show "session_at (with_session i closing s) i = Some (closing x)"
        using assms(2) xin(2) by (simp add: session_at_def with_session_tables find_set_rows closing_def)
      show "avail (with_session i closing s) = avail s"
        by (simp add: fun_eq_iff avail_def creditBalance_def with_session_tables)
    qed (use c(2) in \<open>simp_all add: moves_on_def closing_def session_terms_def\<close>)
  next
    case False
    have "onlyif ?c (bnd (update_sessions i closing) (\<lambda>_. ret ())) s = Inr ((), s)"
      unfolding onlyif_def if_not_P [OF False] by (simp add: ret_def)
    with that [OF this sound assms(2)] show ?thesis by simp
  qed
  note t1 = session_terms_eq [OF s1(4)]
  obtain y s' where y: "expireCalls now i s1 = Inr ((), s')" "instant_sound env s'" "session_at s' i = Some y" "live_ids s' i = {}"
    "session_terms y = session_terms y1" "in_status y = I_closed" "in_spent_minor y = in_spent_minor y1" "in_balance_minor y = 0"
    "avail s' (in_buyer_id y1) = avail s1 (in_buyer_id y1) + in_balance_minor y1"
    using expire_returns [OF s1(2,3), of now] assms(3) t1 by auto
  note t = session_terms_eq [OF y(5)]
  have held: "in_held_minor y = 0" by (rule no_live_no_held [OF y(2,4,3)])
  have "session_conservation y" using y(2,3) session_row [OF y(2)] by (auto simp: instant_sound_def session_alone_def)
  then have refunded: "in_refunded_minor y = in_budget_minor x - in_spent_minor x"
    using y(7,8) s1(6) t t1 by (simp add: session_conservation_def)
  have "readInstantSession now (in_buyer_id x) i close s = Inr (instantSessionDto y, s')"
    using assms(2) s1(1) y(1,3)
    by (simp add: readInstantSession_def sessionRow_def bnd_def select_one_def asks_def session_at_def some_or_def ret_def
        andthen_def require_def)
  moreover have "instantSessionDto y = (y, 0)" using held y(8) by (simp add: instantSessionDto_def)
  moreover have "call_final (ic_state c)" if "c \<in> set (calls_of s' i)" for c
    using y(4) that by (auto simp: live_ids_def calls_of_def live_not_final)
  ultimately show ?thesis using y held refunded s1 t1 by auto
qed

section \<open>Calls and types\<close>

lemma replay_completed:
  assumes "call_at s i = Some c" and "ic_state c = C_completed" and "validLease env c token"
    and "ic_output_json c = Some (canonicalJSON (ie_show env) (J_obj es))"
  shows "completeInstantCall env now (ic_seller_id c) i token (Answered es) s = Inr ((instantCallDto c, True), s)"
  using assms
  by (simp add: completeInstantCall_def callRow_def call_at_def eval_tx select_one_def del: canonicalJSON.simps)

text \<open>
  C20. A call is charged at most once. Through any history a call keeps its session, seller, input
  and price, and its state follows the machine; once it has completed or failed its row never
  changes again. A completed call was paid to its seller exactly once, at its price; and when the
  provider sends the same answer again under its lease, the request is answered from the stored
  row and changes nothing.
\<close>

theorem call_is_charged_once:
  assumes "instant_sound env s" and "instant_history env s s'" and "call_at s i = Some c"
  shows "\<exists>c'. call_at s' i = Some c' \<and> call_terms c' = call_terms c \<and> call_move\<^sup>*\<^sup>* (ic_state c) (ic_state c')
    \<and> (call_final (ic_state c) \<longrightarrow> c' = c)
    \<and> posted s' (ic_seller_id c) i ''instant_sale'' =
        (if ic_state c' = C_completed then Some (ic_unit_price_minor c, 0) else None)
    \<and> (\<forall>now token es. ic_state c' = C_completed \<longrightarrow> validLease env c' token
         \<longrightarrow> ic_output_json c' = Some (canonicalJSON (ie_show env) (J_obj es))
         \<longrightarrow> completeInstantCall env now (ic_seller_id c) i token (Answered es) s' = Inr ((instantCallDto c', True), s'))"
proof -
  have h: "instant_sound env s'" "instant_run s s'" using history_sound [OF assms(2,1)] by simp_all
  obtain c' where c': "call_at s' i = Some c'" "call_follows c c'"
    using h(2) assms(3) unfolding instant_run_def rows_follow_def by blast
  note t = call_terms_eq [of c' c]
  have "c' \<in> set (instant_calls s')" "ic_id c' = i" using c'(1) call_row [OF h(1)] by simp_all
  moreover then have "call_posted s' c'" using h(1) by (simp add: instant_sound_def)
  ultimately show ?thesis
    using c' t replay_completed [OF c'(1)] by (auto simp: call_follows_def call_posted_def simp del: canonicalJSON.simps)
qed

text \<open>
  C21. Every call is well typed. Whatever has happened, the stored input of a call is the canonical
  text of an object that satisfies the input schema its session agreed to, under the hash of that
  text; and a completed call's output is the canonical text of an object that satisfies the output
  schema, under a receipt that names the call, both parties, the price and both hashes. A call that
  has not completed has neither output nor receipt.
\<close>

theorem calls_are_well_typed:
  assumes "instant_sound env s" and "instant_history env s s'"
    and "c \<in> set (instant_calls s')" and "x \<in> set (instant_sessions s')" and "in_id x = ic_session_id c"
  shows "(\<exists>es. ic_input_json c = canonicalJSON (ie_show env) (J_obj es)
        \<and> well_typed (it_input_schema (in_terms x)) es \<and> ic_input_hash c = ie_hash env (ic_input_json c))
    \<and> (if ic_state c = C_completed
       then \<exists>es r. ic_output_json c = Some (canonicalJSON (ie_show env) (J_obj es))
          \<and> well_typed (it_output_schema (in_terms x)) es \<and> ic_receipt c = Some r
          \<and> ir_call_id r = ic_id c \<and> ir_buyer_id r = in_buyer_id x \<and> ir_seller_id r = ic_seller_id c
          \<and> ir_amount_minor r = it_unit_price_minor (in_terms x) \<and> ir_input_sha256 r = ic_input_hash c
          \<and> ir_output_sha256 r = ie_hash env (canonicalJSON (ie_show env) (J_obj es))
       else ic_output_json c = None \<and> ic_receipt c = None)"
proof -
  have "instant_sound env s'" using history_sound [OF assms(2,1)] by simp
  then have fits: "call_fits env x c" by (rule row_fits [OF _ assms(3-5)])
  then have price: "ic_unit_price_minor c = it_unit_price_minor (in_terms x)" by (simp add: call_fits_def)
  from fits show ?thesis unfolding call_fits_def was_answered_def price by metis
qed

section \<open>An example\<close>

definition quote_schema :: output_schema where
  "quote_schema = \<lparr>os_properties = [(''n'', F_integer)], os_required = [''n''], os_additional = Some False\<rparr>"

definition quote_service :: instant_service where
  "quote_service = \<lparr>is_id = ''svc'', is_seller_id = ''seller'', is_title = ''Quotes'', is_capabilities = [''research''],
     is_input_schema = quote_schema, is_output_schema = quote_schema, is_unit_price_minor = 5, is_max_concurrency = 2,
     is_deadline_seconds = 30, is_active = True\<rparr>"

definition quote_db :: db where
  "quote_db = funded_db\<lparr>instant_services := [quote_service],
     seller_payment_preferences := [\<lparr>sp_seller_id = ''seller'', sp_supported_rails = [Credit]\<rparr>]\<rparr>"

definition quote_env :: instant_env where
  "quote_env = \<lparr>ie_enabled = True, ie_credit = True, ie_paused = False,
     ie_route = \<lparr>rt_environment_paused = False, rt_production = False, rt_inspect = (\<lambda>_. Inr True)\<rparr>,
     ie_fleet = (\<lambda>_. False), ie_hash = (\<lambda>_. replicate 64 (CHR ''a'')), ie_show = (\<lambda>n. show_nat (nat \<lfloor>n\<rfloor>)),
     ie_spend = plain_deployment\<rparr>"

definition quote_form :: session_form where
  "quote_form = \<lparr>xf_client_reference = ''session-1'', xf_budget_minor = 20, xf_expected_unit_price_minor = 5,
     xf_expires_in_seconds = 60\<rparr>"

definition quote_buyer :: request_principal where
  "quote_buyer = \<lparr>who_user = ''buyer'', who_agent = None\<rparr>"

definition quote_session :: instant_session where
  "quote_session = \<lparr>in_id = ''x1'', in_buyer_id = ''buyer'', in_service_id = ''svc'', in_client_reference = ''session-1'',
     in_terms = service_terms quote_service, in_budget_minor = 20, in_balance_minor = 20, in_held_minor = 0,
     in_spent_minor = 0, in_refunded_minor = 0, in_status = I_open, in_created_at = 100, in_expires_at = 160,
     in_closed_at = None\<rparr>"

definition quote_opened :: db where
  "quote_opened = quote_db\<lparr>
     credit_accounts := [\<lparr>ca_user_id = ''buyer'', ca_available_minor = 1030, ca_escrow_minor = 0\<rparr>],
     credit_entries := credit_entries funded_db @ [\<lparr>ce_user_id = ''buyer'', ce_reference = ''x1'', ce_kind = ''instant_funding'',
       ce_available_delta = - 20, ce_escrow_delta = 0, ce_created_at = 100\<rparr>],
     instant_sessions := [quote_session]\<rparr>"

definition quote_input :: "(string \<times> json) list" where
  "quote_input = [(''n'', J_num 7)]"

definition quote_call :: instant_call where
  "quote_call = new_call quote_env 100000 ''k1'' quote_session ''call-0001'' (canonicalJSON (ie_show quote_env) (J_obj quote_input))"

definition quote_called :: db where
  "quote_called = quote_opened\<lparr>instant_sessions := [hold 5 quote_session], instant_calls := [quote_call]\<rparr>"

lemmas eval_quote = quote_buyer_def quote_db_def quote_form_def quote_env_def quote_service_def funded_db_def
  eval_tx eval_table newAuthority_def requireEnabled_def getNewPaymentControl_def routeAdmissionFailure_def getRouteControl_def
  row_paused_def route_row_def Let_def sells_for_credit_def sellerPaymentRails_def isPublicMarketplaceSeller_def starts_with_def
  agent_prefix_def referenceFleetLocked_def agent_of_seller_def notOrganization_def truthy_def
  loadBuyerSpendPolicy_def needs_providers_def session_conservation_def NEW_PAYMENTS_CONTROL_KEY_def

lemma quote_form_parsed: "instantSessionInput quote_form = Some quote_form"
  by (simp add: instantSessionInput_def quote_form_def reference_input_def ranged_def trim_def is_space_def)

lemma quote_open:
  "openInstantSession quote_env 100000 ''x1'' quote_buyer ''svc'' quote_form quote_db = Inr (((quote_session, 20), False), quote_opened)"
  by (simp add: openInstantSession_def quote_opened_def quote_session_def instantSessionDto_def eval_quote enforceOpening_def
    enforceBuyerSpendPolicy_def instant_context_def fundSession_def changeCredit_eval with_account_def bump_account_def
    safe_int_def service_terms_def to_seconds_def)

lemma quote_input_typed: "schema_ok quote_schema" "well_typed quote_schema quote_input"
  by (simp_all add: schema_ok_def quote_schema_def well_typed_def quote_input_def has_type_simps key_input_def declares_def safe_int_def)

lemma quote_input_checked: "fst (checkServiceInput quote_input (schema_json quote_schema)) = Input_valid"
  using check_accepted [OF quote_input_typed(1), of quote_input] quote_input_typed(2) by (simp add: prod_eq_iff)

lemma quote_row: "sessionRow ''x1'' quote_opened = Inr (quote_session, quote_opened)"
  by (simp add: sessionRow_def quote_opened_def quote_session_def eval_tx eval_table)

lemma quote_authority: "newAuthority quote_env 100000 quote_opened = Inr ((), quote_opened)"
  by (simp add: quote_opened_def eval_quote)

lemma quote_enforced: "enforceCall quote_env 100000 quote_buyer (in_terms quote_session) quote_opened = Inr ((), quote_opened)"
  by (simp add: quote_opened_def enforceCall_def eval_quote)

lemma quote_capacity: "checkCapacity 100000 quote_session quote_opened = Inr ((), quote_opened)"
  by (simp add: quote_opened_def quote_session_def checkCapacity_def calls_in_flight_def eval_quote service_terms_def)

lemma quote_inserted:
  "insertCall quote_env 100000 ''k1'' quote_session ''call-0001'' t quote_opened =
    (let c = new_call quote_env 100000 ''k1'' quote_session ''call-0001'' t
     in Inr (c, quote_opened\<lparr>instant_sessions := [hold 5 quote_session], instant_calls := [c]\<rparr>))"
  by (simp add: quote_opened_def quote_session_def insertCall_def eval_quote service_terms_def update_sessions_eval hold_def)

lemma quote_placed:
  "createInstantCall quote_env 100000 ''k1'' quote_buyer ''x1'' ''call-0001'' quote_input quote_opened =
     Inr ((instantCallDto quote_call, False), quote_called)"
proof -
  have facts: "in_buyer_id quote_session = ''buyer''" "who_user quote_buyer = ''buyer''" "instant_calls quote_opened = []"
    "in_status quote_session = I_open" "in_expires_at quote_session = 160" "in_balance_minor quote_session = 20"
    "in_held_minor quote_session = 0" "it_unit_price_minor (in_terms quote_session) = 5"
    "it_input_schema (in_terms quote_session) = quote_schema" "isPublicMarketplaceSeller quote_opened (it_seller_id (in_terms quote_session))"
    "\<not> referenceFleetLocked quote_env (agent_of_seller (it_seller_id (in_terms quote_session)))"
    by (simp_all add: quote_session_def quote_opened_def eval_quote service_terms_def)
  have new: "newCall quote_env 100000 ''k1'' quote_buyer quote_session ''call-0001'' quote_input quote_opened = Inr (quote_call, quote_called)"
    by (simp add: newCall_def Let_def facts quote_authority quote_enforced quote_capacity quote_input_checked quote_inserted
      quote_call_def quote_called_def bnd_def andthen_def require_def asks_def ret_def del: canonicalJSON.simps)
  show ?thesis
    by (simp add: createInstantCall_def quote_row facts new bnd_def andthen_def require_def select_one_def asks_def ret_def
      del: canonicalJSON.simps)
qed

text \<open>The provider claims the call, and answers it.\<close>

definition quote_lease :: string where
  "quote_lease = replicate 64 (CHR ''a'')"

definition quote_claimed :: db where
  "quote_claimed = quote_called\<lparr>instant_calls := [claimed_call quote_lease quote_call]\<rparr>"

definition quote_answered :: instant_call where
  "quote_answered = completed_call 110000 (canonicalJSON (ie_show quote_env) (J_obj quote_input))
     (receipt_of quote_env 110000 quote_session quote_call (canonicalJSON (ie_show quote_env) (J_obj quote_input)))
     (claimed_call quote_lease quote_call)"

definition quote_done :: db where
  "quote_done = quote_claimed\<lparr>
     credit_accounts := credit_accounts quote_opened @ [\<lparr>ca_user_id = ''seller'', ca_available_minor = 5, ca_escrow_minor = 0\<rparr>],
     credit_entries := credit_entries quote_opened @ [\<lparr>ce_user_id = ''seller'', ce_reference = ''k1'', ce_kind = ''instant_sale'',
       ce_available_delta = 5, ce_escrow_delta = 0, ce_created_at = 110\<rparr>],
     instant_sessions := [charge 5 (hold 5 quote_session)], instant_calls := [quote_answered]\<rparr>"

lemma quote_call_row:
  "ic_id quote_call = ''k1''" "ic_session_id quote_call = ''x1''" "ic_seller_id quote_call = ''seller''"
  "ic_state quote_call = C_pending" "ic_output_json quote_call = None" "ic_receipt quote_call = None" "ic_deadline_at quote_call = 130" "ic_unit_price_minor quote_call = 5"
  by (simp_all add: quote_call_def new_call_def Let_def quote_session_def service_terms_def quote_service_def to_seconds_def
    del: canonicalJSON.simps)

lemma quote_waits:
  assumes "instant_calls s = [c]" and "ic_deadline_at c = 130" and "instant_sessions s = [x]" and "in_id x = ''x1''"
    and "in_expires_at x = 160" and "in_status x = I_open"
  shows "expireCalls 110000 ''x1'' s = Inr ((), s)" "finalizeSession 110000 ''x1'' s = Inr (x, s)"
  using assms
  by (simp_all add: expireCalls_def finalizeSession_def sessionRow_def overdue_call_def to_seconds_def fail_each_def
    bnd_def andthen_def asks_def ret_def select_one_def some_or_def)

lemma quote_claim: "claimInstantCall quote_env 110000 ''seller'' ''k1'' t quote_called = Inr (instantCallDto (claimed_call quote_lease quote_call), quote_claimed)"
proof -
  note waits = quote_waits [of quote_called quote_call "hold 5 quote_session"]
  have "expireCalls 110000 ''x1'' quote_called = Inr ((), quote_called)"
    by (rule waits) (simp_all add: quote_called_def quote_call_row hold_def quote_session_def)
  moreover have "callRow ''k1'' quote_called = Inr (quote_call, quote_called)"
    by (simp add: callRow_def quote_called_def quote_call_row eval_tx eval_table)
  moreover have "ie_hash quote_env t = quote_lease" by (simp add: quote_env_def quote_lease_def)
  moreover have "update_calls (\<lambda>c. ic_id c = ''k1'' \<and> ic_state c = C_pending) (claimed_call quote_lease) quote_called
      = Inr ([claimed_call quote_lease quote_call], quote_claimed)"
    by (simp add: update_calls_eval quote_called_def quote_claimed_def quote_call_row claimed_call_def call_receipt_def Let_def eval_tx)
  ultimately show ?thesis
    by (simp add: claimInstantCall_def quote_call_row bnd_def andthen_def require_def ret_def first_or_def)
qed

lemma quote_completed:
  "completeInstantCall quote_env 110000 ''seller'' ''k1'' t (Answered quote_input) quote_claimed =
     Inr ((instantCallDto quote_answered, False), quote_done)"
proof -
  let ?c = "claimed_call quote_lease quote_call"
  have row: "ic_id ?c = ''k1''" "ic_session_id ?c = ''x1''" "ic_seller_id ?c = ''seller''" "ic_state ?c = C_claimed"
    "ic_deadline_at ?c = 130" "ic_unit_price_minor ?c = 5"
    by (simp_all add: claimed_call_def quote_call_row)
  have waits: "expireCalls 110000 ''x1'' quote_claimed = Inr ((), quote_claimed)"
    by (rule quote_waits(1) [of _ ?c "hold 5 quote_session"])
      (simp_all add: quote_claimed_def quote_called_def row hold_def quote_session_def)
  have calls: "callRow ''k1'' quote_claimed = Inr (?c, quote_claimed)"
    by (simp add: callRow_def quote_claimed_def row eval_tx eval_table)
  have lease: "validLease quote_env ?c t"
    by (simp add: validLease_def claimed_call_def quote_env_def quote_lease_def hex64_def list_all_iff)
  have charged: "chargeCall quote_env 110000 ?c quote_input quote_claimed = Inr (quote_answered, quote_done)"
  proof -
    have session: "sessionRow ''x1'' quote_claimed = Inr (hold 5 quote_session, quote_claimed)"
      by (simp add: sessionRow_def quote_claimed_def quote_called_def hold_def quote_session_def eval_tx eval_table)
    have schema: "it_output_schema (in_terms (hold 5 quote_session)) = quote_schema" "in_id (hold 5 quote_session) = ''x1''"
      by (simp_all add: hold_def quote_session_def service_terms_def quote_service_def)
    obtain r where r: "verifyOutputSchema (Some quote_input) (schema_json quote_schema) = Some r" "vo_status r = V_passed"
      using verify_accepted [OF quote_input_typed(1)] quote_input_typed(2) by blast
    let ?t = "canonicalJSON (ie_show quote_env) (J_obj quote_input)"
    have credit: "changeCredit 110 ''seller'' ''k1'' ''instant_sale'' 5 0 quote_claimed = Inr ((), quote_claimed\<lparr>
        credit_accounts := credit_accounts quote_done, credit_entries := credit_entries quote_done\<rparr>)"
      by (simp add: changeCredit_eval with_account_def bump_account_def safe_int_def quote_done_def quote_claimed_def
        quote_called_def quote_opened_def funded_db_def)
    have paid: "update_sessions ''x1'' (charge 5) (quote_claimed\<lparr>
        credit_accounts := credit_accounts quote_done, credit_entries := credit_entries quote_done\<rparr>)
      = Inr ([charge 5 (hold 5 quote_session)], quote_done\<lparr>instant_calls := [?c]\<rparr>)"
      by (simp add: update_sessions_eval quote_claimed_def quote_done_def quote_called_def session_conservation_def charge_def hold_def
        quote_session_def Let_def eval_tx eval_table)
    have receipt: "receipt_of quote_env 110000 (hold 5 quote_session) ?c t = receipt_of quote_env 110000 quote_session quote_call t" for t
      by (simp add: receipt_of_def hold_def claimed_call_def)
    have stored: "update_calls (\<lambda>c. ic_id c = ''k1'' \<and> ic_state c = C_claimed)
        (completed_call 110000 ?t (receipt_of quote_env 110000 (hold 5 quote_session) ?c ?t)) (quote_done\<lparr>instant_calls := [?c]\<rparr>)
      = Inr ([quote_answered], quote_done)"
      by (simp add: update_calls_eval row receipt quote_answered_def quote_done_def call_receipt_def completed_call_def Let_def eval_tx eval_table
        del: canonicalJSON.simps)
    have left: "finalizeSession 110000 ''x1'' quote_done = Inr (charge 5 (hold 5 quote_session), quote_done)"
      by (rule quote_waits(2) [of _ quote_answered])
        (simp_all add: quote_done_def quote_answered_def completed_call_def row charge_def hold_def quote_session_def
          del: canonicalJSON.simps)
    show ?thesis
      by (simp add: chargeCall_def row session schema r credit paid stored left Let_def to_seconds_def bnd_def andthen_def
        require_def ret_def some_or_def first_or_def del: canonicalJSON.simps)
  qed
  show ?thesis
    by (simp add: completeInstantCall_def calls row lease waits charged bnd_def andthen_def require_def ret_def)
qed

lemma quote_sound: "instant_sound quote_env quote_db"
proof -
  have e: "credit_accounts quote_db = credit_accounts funded_db" "credit_entries quote_db = credit_entries funded_db"
    "instant_sessions quote_db = []" "instant_calls quote_db = []" "instant_services quote_db = [quote_service]"
    by (simp_all add: quote_db_def funded_db_def)
  have "books quote_db" using books_cong [OF e(1,2)] books_funded by simp
  moreover have "services_ok quote_db"
    by (simp add: services_ok_def e(5) service_bounds_def quote_service_def quote_input_typed)
  moreover have "entry_known quote_db x" if "x \<in> set (credit_entries quote_db)" for x
    using that by (auto simp: entry_known_def e(2) funded_db_def)
  ultimately show ?thesis by (simp add: instant_sound_def e)
qed

lemma quote_history: "instant_history quote_env quote_db quote_called" "instant_history quote_env quote_called quote_done"
  "instant_sound quote_env quote_called"
proof -
  have "payload_input (ie_show quote_env) quote_input = Some quote_input"
    by (simp add: payload_input_def quote_input_def quote_env_def json_string_def utf8_length_def escape_char_def
      show_nat.simps digit_char_def)
  moreover have "reference_input ''call-0001'' = Some ''call-0001''"
    by (simp add: reference_input_def trim_def is_space_def)
  ultimately have placed: "instant_request quote_env quote_opened quote_called"
    by (rule instant_request.place [OF _ _ quote_placed, rotated])
  have opened: "instant_request quote_env quote_db quote_opened"
    by (rule instant_request.begin_session [OF quote_form_parsed quote_open])
  show h: "instant_history quote_env quote_db quote_called"
    by (rule instant_history.request [OF instant_history.request [OF instant_history.start opened] placed])
  show "instant_sound quote_env quote_called" using history_sound [OF h quote_sound] by simp
  let ?t = "replicate 43 (CHR ''t'')"
  have "instantClaimInput ?t = Some ?t" by (simp add: instantClaimInput_def)
  then have claimed: "instant_request quote_env quote_called quote_claimed"
    and answer: "instant_request quote_env quote_claimed quote_done"
    by (rule instant_request.claim [OF _ quote_claim], rule instant_request.answer [OF _ quote_completed])
  show "instant_history quote_env quote_called quote_done"
    by (rule instant_history.request [OF instant_history.request [OF instant_history.start claimed] answer])
qed

lemma quote_done_rows:
  "charge 5 (hold 5 quote_session) \<in> set (instant_sessions quote_done)" "quote_answered \<in> set (instant_calls quote_done)"
  "in_id (charge 5 (hold 5 quote_session)) = ''x1''" "in_buyer_id (charge 5 (hold 5 quote_session)) = ''buyer''"
  "in_spent_minor (charge 5 (hold 5 quote_session)) = 5" "in_budget_minor (charge 5 (hold 5 quote_session)) = 20"
  "in_terms (charge 5 (hold 5 quote_session)) = service_terms quote_service"
  "ic_session_id quote_answered = ''x1''" "ic_state quote_answered = C_completed" "ic_seller_id quote_answered = ''seller''"
  "ic_id quote_answered = ''k1''" "ic_unit_price_minor quote_answered = 5"
  by (simp_all add: quote_done_def charge_def hold_def quote_session_def quote_answered_def completed_call_def claimed_call_def
    quote_call_row del: canonicalJSON.simps)

lemma quote_called_rows:
  "session_at quote_called ''x1'' = Some (hold 5 quote_session)" "call_at quote_called ''k1'' = Some quote_call"
  "in_expires_at (hold 5 quote_session) = 160" "in_buyer_id (hold 5 quote_session) = ''buyer''"
  "in_budget_minor (hold 5 quote_session) = 20" "in_spent_minor (hold 5 quote_session) = 0"
  "in_balance_minor (hold 5 quote_session) = 20" "avail quote_called ''buyer'' = 1030"
  by (simp_all add: session_at_def call_at_def quote_called_def hold_def quote_session_def quote_call_row avail_def
    creditBalance_def quote_opened_def)

lemma instant_money_adds_up_witness:
  "posted quote_done ''buyer'' ''x1'' ''instant_funding'' = Some (- 20, 0)
   \<and> posted quote_done ''seller'' ''k1'' ''instant_sale'' = Some (5, 0)"
  using instant_money_adds_up [OF quote_history(3,2) quote_done_rows(1)] quote_done_rows
  by (auto simp: calls_of_def)

lemma expired_session_is_settled_witness:
  "\<exists>y s'. readInstantSession 160000 ''buyer'' ''x1'' False quote_called = Inr ((y, 0), s')
    \<and> in_status y = I_closed \<and> in_refunded_minor y = 20 \<and> avail s' ''buyer'' = 1050"
  using expired_session_is_settled [OF quote_history(3) quote_called_rows(1), of 160000 False] quote_called_rows by auto

lemma call_is_charged_once_witness:
  "\<exists>c'. call_at quote_done ''k1'' = Some c' \<and> call_terms c' = call_terms quote_call
    \<and> posted quote_done ''seller'' ''k1'' ''instant_sale'' = (if ic_state c' = C_completed then Some (5, 0) else None)"
proof -
  obtain c' where "call_at quote_done ''k1'' = Some c'" "call_terms c' = call_terms quote_call"
    "posted quote_done (ic_seller_id quote_call) ''k1'' ''instant_sale'' =
       (if ic_state c' = C_completed then Some (ic_unit_price_minor quote_call, 0) else None)"
    using call_is_charged_once [OF quote_history(3,2) quote_called_rows(2)] by (elim exE conjE) (rule that)
  then show ?thesis unfolding quote_call_row by blast
qed

lemma calls_are_well_typed_witness:
  "\<exists>es r. ic_output_json quote_answered = Some (canonicalJSON (ie_show quote_env) (J_obj es))
     \<and> well_typed quote_schema es \<and> ic_receipt quote_answered = Some r \<and> ir_amount_minor r = 5"
proof -
  have "it_output_schema (service_terms quote_service) = quote_schema" "it_unit_price_minor (service_terms quote_service) = 5"
    by (simp_all add: service_terms_def quote_service_def)
  then show ?thesis
    using calls_are_well_typed [OF quote_history(3,2) quote_done_rows(2,1)] quote_done_rows
    by (auto simp del: canonicalJSON.simps)
qed

end
