(* ===== verification/Async.thy ===== *)
theory Async
  imports Prelude
begin

text \<open>
  Asynchronous code outside one transaction: a job runs until it has to wait, for a
  statement or a transaction of the database, or for a service on the network.  Between
  two waits every other job, and everything else in the program, may run.  The clock is
  read when the job runs.

  A job is a tree: each node is what is awaited, with the rest of the job for every
  answer.  The last parts give the rule by which a property of the state is shown to
  survive any interleaving of jobs, and the bound on the steps of a job.
\<close>

section \<open>Jobs\<close>

datatype ('s, 'q, 'r, 'e, 'a) job =
    Finished "'e + 'a"
  | Access "int \<Rightarrow> 's \<Rightarrow> 's" "int \<Rightarrow> 's \<Rightarrow> ('s, 'q, 'r, 'e, 'a) job"
  | Call 'q "'r \<Rightarrow> ('s, 'q, 'r, 'e, 'a) job"

lemma job_induct [case_names Finished Access Call]:
  fixes P :: "('s, 'q, 'r, 'e, 'a) job \<Rightarrow> bool"
  assumes "\<And>r. P (Finished r)" and "\<And>g k. (\<And>now s. P (k now s)) \<Longrightarrow> P (Access g k)"
    and "\<And>q k. (\<And>r. P (k r)) \<Longrightarrow> P (Call q k)"
  shows "P j"
proof (induction j)
  case (Access g k)
  then have "P (k now s)" for now s by blast
  with assms(2) show ?case .
next
  case (Call q k)
  then have "P (k r)" for r by blast
  with assms(3) show ?case .
qed (rule assms(1))

definition done_with :: "'a \<Rightarrow> ('s, 'q, 'r, 'e, 'a) job" where
  "done_with a = Finished (Inr a)"

definition fail_with :: "'e \<Rightarrow> ('s, 'q, 'r, 'e, 'a) job" where
  "fail_with e = Finished (Inl e)"

definition settled :: "'e + 'a \<Rightarrow> ('s, 'q, 'r, 'e, 'a) job" where
  "settled r = Finished r"

text \<open>\<open>const a = await j; ...\<close>.\<close>

primrec await :: "('s, 'q, 'r, 'e, 'a) job \<Rightarrow> ('a \<Rightarrow> ('s, 'q, 'r, 'e, 'b) job) \<Rightarrow> ('s, 'q, 'r, 'e, 'b) job" where
  "await (Finished r) f = (case r of Inl e \<Rightarrow> Finished (Inl e) | Inr a \<Rightarrow> f a)"
| "await (Access g k) f = Access g (\<lambda>now s. await (k now s) f)"
| "await (Call q k) f = Call q (\<lambda>r. await (k r) f)"

text \<open>\<open>try { j } catch (e) { ... }\<close>, with the result returned.\<close>

primrec caught :: "('s, 'q, 'r, 'e, 'a) job \<Rightarrow> ('e \<Rightarrow> ('s, 'q, 'r, 'e, 'a) job) \<Rightarrow> ('s, 'q, 'r, 'e, 'a) job" where
  "caught (Finished r) h = (case r of Inl e \<Rightarrow> h e | Inr a \<Rightarrow> Finished (Inr a))"
| "caught (Access g k) h = Access g (\<lambda>now s. caught (k now s) h)"
| "caught (Call q k) h = Call q (\<lambda>r. caught (k r) h)"

text \<open>\<open>for (const x of xs) ...\<close>, carrying a value.\<close>

fun each :: "'x list \<Rightarrow> 'b \<Rightarrow> ('x \<Rightarrow> 'b \<Rightarrow> ('s, 'q, 'r, 'e, 'b) job) \<Rightarrow> ('s, 'q, 'r, 'e, 'b) job" where
  "each [] b f = done_with b"
| "each (x # xs) b f = await (f x b) (\<lambda>b. each xs b f)"

section \<open>Running jobs side by side\<close>

text \<open>
  One step: a job accesses the state, or is answered by the network, which the state
  keeps a log of.  \<open>elsewhere\<close> is what the rest of the program may do meanwhile.
\<close>

inductive job_step ::
  "('q \<Rightarrow> 'r \<Rightarrow> 's \<Rightarrow> 's) \<Rightarrow> ('s, 'q, 'r, 'e, 'a) job \<Rightarrow> 's \<Rightarrow> ('s, 'q, 'r, 'e, 'a) job \<Rightarrow> 's \<Rightarrow> bool" for log where
  accessed: "job_step log (Access g k) s (k now s) (g now s)"
| answered: "job_step log (Call q k) s (k r) (log q r s)"

inductive_cases job_stepE: "job_step log j s j' s'"

inductive schedule ::
  "('q \<Rightarrow> 'r \<Rightarrow> 's \<Rightarrow> 's) \<Rightarrow> ('s \<Rightarrow> 's \<Rightarrow> bool) \<Rightarrow> ('s, 'q, 'r, 'e, 'a) job list \<Rightarrow> 's
     \<Rightarrow> nat \<Rightarrow> ('s, 'q, 'r, 'e, 'a) job list \<Rightarrow> 's \<Rightarrow> bool" for log elsewhere js s where
  begin_all: "schedule log elsewhere js s 0 js s"
| job: "schedule log elsewhere js s n ks t \<Longrightarrow> i < length ks \<Longrightarrow> job_step log (ks ! i) t k u \<Longrightarrow>
     schedule log elsewhere js s (Suc n) (ks[i := k]) u"
| other: "schedule log elsewhere js s n ks t \<Longrightarrow> elsewhere t u \<Longrightarrow> schedule log elsewhere js s n ks u"

section \<open>Interference\<close>

text \<open>
  \<open>guarded\<close>: from any later state, a state that the others may have brought about, the
  job keeps the invariant, changes the state only as is allowed, and calls the network
  only as is permitted.
\<close>

primrec guarded ::
  "('s \<Rightarrow> bool) \<Rightarrow> ('s \<Rightarrow> 's \<Rightarrow> bool) \<Rightarrow> ('s \<Rightarrow> 'q \<Rightarrow> bool) \<Rightarrow> ('q \<Rightarrow> 'r \<Rightarrow> 's \<Rightarrow> 's) \<Rightarrow> ('s \<Rightarrow> 'e + 'a \<Rightarrow> bool)
     \<Rightarrow> ('s, 'q, 'r, 'e, 'a) job \<Rightarrow> 's \<Rightarrow> bool" where
  "guarded ok evolve permits log post (Finished r) s = (\<forall>t. evolve s t \<longrightarrow> ok t \<longrightarrow> post t r)"
| "guarded ok evolve permits log post (Access g k) s = (\<forall>t now. evolve s t \<longrightarrow> ok t \<longrightarrow>
     ok (g now t) \<and> evolve t (g now t) \<and> guarded ok evolve permits log post (k now t) (g now t))"
| "guarded ok evolve permits log post (Call q k) s = (\<forall>t r. evolve s t \<longrightarrow> ok t \<longrightarrow>
     permits t q \<and> ok (log q r t) \<and> evolve t (log q r t) \<and> guarded ok evolve permits log post (k r) (log q r t))"

locale interference =
  fixes ok :: "'s \<Rightarrow> bool" and evolve :: "'s \<Rightarrow> 's \<Rightarrow> bool" and permits :: "'s \<Rightarrow> 'q \<Rightarrow> bool"
    and log :: "'q \<Rightarrow> 'r \<Rightarrow> 's \<Rightarrow> 's"
  assumes evolve_refl: "evolve s s"
    and evolve_trans: "evolve s t \<Longrightarrow> evolve t u \<Longrightarrow> evolve s u"
begin

lemma guarded_later:
  assumes "guarded ok evolve permits log post j s" and "evolve s t"
  shows "guarded ok evolve permits log post j t"
  using assms(1)
proof (cases j)
  case (Finished r)
  with assms evolve_trans [OF assms(2)] show ?thesis by simp
next
  case (Access g k)
  with assms evolve_trans [OF assms(2)] show ?thesis by simp
next
  case (Call q k)
  with assms evolve_trans [OF assms(2)] show ?thesis by simp
qed

lemma guarded_post:
  "guarded ok evolve permits log post j s \<Longrightarrow> (\<And>t r. evolve s t \<Longrightarrow> ok t \<Longrightarrow> post t r \<Longrightarrow> post' t r) \<Longrightarrow>
     guarded ok evolve permits log post' j s"
proof (induction j arbitrary: s rule: job_induct)
  case (Finished r)
  then show ?case by simp
next
  case (Access g k)
  have "guarded ok evolve permits log post' (k now t) (g now t)" if t: "evolve s t" "ok t" for now t
  proof (rule Access.IH)
    show "guarded ok evolve permits log post (k now t) (g now t)" using Access.prems(1) t by simp
    have "evolve t (g now t)" using Access.prems(1) t by simp
    then show "post' u r" if "evolve (g now t) u" "ok u" "post u r" for u r
      using Access.prems(2) that evolve_trans t by meson
  qed
  with Access.prems(1) show ?case by simp
next
  case (Call q k)
  have "guarded ok evolve permits log post' (k r) (log q r t)" if t: "evolve s t" "ok t" for r t
  proof (rule Call.IH)
    show "guarded ok evolve permits log post (k r) (log q r t)" using Call.prems(1) t by simp
    have "evolve t (log q r t)" using Call.prems(1) t by simp
    then show "post' u r'" if "evolve (log q r t) u" "ok u" "post u r'" for u r'
      using Call.prems(2) that evolve_trans t by meson
  qed
  with Call.prems(1) show ?case by simp
qed

lemma guarded_await:
  "guarded ok evolve permits log
       (\<lambda>t r. case r of Inl e \<Rightarrow> post t (Inl e) | Inr a \<Rightarrow> guarded ok evolve permits log post (f a) t) j s \<Longrightarrow>
     guarded ok evolve permits log post (await j f) s"
proof (induction j arbitrary: s rule: job_induct)
  case (Finished r)
  show ?case
  proof (cases r)
    case (Inl e)
    with Finished show ?thesis by simp
  next
    case (Inr a)
    with Finished have "evolve s t \<Longrightarrow> ok t \<Longrightarrow> guarded ok evolve permits log post (f a) t" for t by simp
    with Inr show ?thesis
    proof (cases "f a")
      case (Finished r')
      with Inr \<open>\<And>t. evolve s t \<Longrightarrow> ok t \<Longrightarrow> _ t\<close> evolve_refl show ?thesis by auto
    next
      case (Access g k)
      with Inr \<open>\<And>t. evolve s t \<Longrightarrow> ok t \<Longrightarrow> _ t\<close> evolve_refl show ?thesis by auto
    next
      case (Call q k)
      with Inr \<open>\<And>t. evolve s t \<Longrightarrow> ok t \<Longrightarrow> _ t\<close> evolve_refl show ?thesis by auto
    qed
  qed
next
  case (Access g k)
  then show ?case by simp
next
  case (Call q k)
  then show ?case by simp
qed

lemma guarded_caught:
  "guarded ok evolve permits log
       (\<lambda>t r. case r of Inl e \<Rightarrow> guarded ok evolve permits log post (h e) t | Inr a \<Rightarrow> post t (Inr a)) j s \<Longrightarrow>
     guarded ok evolve permits log post (caught j h) s"
proof (induction j arbitrary: s rule: job_induct)
  case (Finished r)
  show ?case
  proof (cases r)
    case (Inr a)
    with Finished show ?thesis by simp
  next
    case (Inl e)
    with Finished have "evolve s t \<Longrightarrow> ok t \<Longrightarrow> guarded ok evolve permits log post (h e) t" for t by simp
    with Inl show ?thesis
    proof (cases "h e")
      case (Finished r')
      with Inl \<open>\<And>t. evolve s t \<Longrightarrow> ok t \<Longrightarrow> _ t\<close> evolve_refl show ?thesis by auto
    next
      case (Access g k)
      with Inl \<open>\<And>t. evolve s t \<Longrightarrow> ok t \<Longrightarrow> _ t\<close> evolve_refl show ?thesis by auto
    next
      case (Call q k)
      with Inl \<open>\<And>t. evolve s t \<Longrightarrow> ok t \<Longrightarrow> _ t\<close> evolve_refl show ?thesis by auto
    qed
  qed
next
  case (Access g k)
  then show ?case by simp
next
  case (Call q k)
  then show ?case by simp
qed

text \<open>The rules for the combinators: what is known where a job ends is known where the next begins.\<close>

lemma await_rule:
  assumes "guarded ok evolve permits log Q j s"
    and "\<And>t a. evolve s t \<Longrightarrow> ok t \<Longrightarrow> Q t (Inr a) \<Longrightarrow> guarded ok evolve permits log post (f a) t"
    and "\<And>t e. evolve s t \<Longrightarrow> ok t \<Longrightarrow> Q t (Inl e) \<Longrightarrow> post t (Inl e)"
  shows "guarded ok evolve permits log post (await j f) s"
  by (rule guarded_await, rule guarded_post [OF assms(1)]) (use assms(2,3) in \<open>auto split: sum.splits\<close>)

lemma caught_rule:
  assumes "guarded ok evolve permits log Q j s"
    and "\<And>t e. evolve s t \<Longrightarrow> ok t \<Longrightarrow> Q t (Inl e) \<Longrightarrow> guarded ok evolve permits log post (h e) t"
    and "\<And>t a. evolve s t \<Longrightarrow> ok t \<Longrightarrow> Q t (Inr a) \<Longrightarrow> post t (Inr a)"
  shows "guarded ok evolve permits log post (caught j h) s"
  by (rule guarded_caught, rule guarded_post [OF assms(1)]) (use assms(2,3) in \<open>auto split: sum.splits\<close>)

text \<open>What stays true once it is true is still known after a job.\<close>

lemma guarded_carry:
  assumes "guarded ok evolve permits log Q j s" and "K s" and "\<And>s t. K s \<Longrightarrow> evolve s t \<Longrightarrow> K t"
  shows "guarded ok evolve permits log (\<lambda>t r. K t \<and> Q t r) j s"
  by (rule guarded_post [OF assms(1)]) (use assms(2,3) in blast)

lemma await_knowing:
  assumes "K s" and "\<And>s t. K s \<Longrightarrow> evolve s t \<Longrightarrow> K t" and "guarded ok evolve permits log Q j s"
    and "\<And>t a. ok t \<Longrightarrow> K t \<Longrightarrow> Q t (Inr a) \<Longrightarrow> guarded ok evolve permits log (\<lambda>_ _. True) (f a) t"
  shows "guarded ok evolve permits log (\<lambda>_ _. True) (await j f) s"
  by (rule await_rule [OF guarded_carry [where K = K, OF assms(3,1,2)]]) (use assms(4) in blast)+

lemma guarded_settled: "(\<And>t. evolve s t \<Longrightarrow> ok t \<Longrightarrow> post t r) \<Longrightarrow> guarded ok evolve permits log post (settled r) s"
  by (simp add: settled_def)

lemma guarded_done: "(\<And>t. evolve s t \<Longrightarrow> ok t \<Longrightarrow> post t (Inr a)) \<Longrightarrow> guarded ok evolve permits log post (done_with a) s"
  by (simp add: done_with_def)

lemma guarded_fail: "(\<And>t. evolve s t \<Longrightarrow> ok t \<Longrightarrow> post t (Inl e)) \<Longrightarrow> guarded ok evolve permits log post (fail_with e) s"
  by (simp add: fail_with_def)

text \<open>Jobs that need to know nothing and of whose answer nothing is said.\<close>

definition harmless :: "('s, 'q, 'r, 'e, 'a) job \<Rightarrow> bool" where
  "harmless j \<longleftrightarrow> (\<forall>s. guarded ok evolve permits log (\<lambda>_ _. True) j s)"

lemma harmlessD: "harmless j \<Longrightarrow> guarded ok evolve permits log (\<lambda>_ _. True) j s"
  by (simp add: harmless_def)

lemma harmless_await: "harmless j \<Longrightarrow> (\<And>a. harmless (f a)) \<Longrightarrow> harmless (await j f)"
  unfolding harmless_def by (intro allI, rule await_rule [where Q = "\<lambda>_ _. True"]) simp_all

lemma harmless_caught: "harmless j \<Longrightarrow> (\<And>e. harmless (h e)) \<Longrightarrow> harmless (caught j h)"
  unfolding harmless_def by (intro allI, rule caught_rule [where Q = "\<lambda>_ _. True"]) simp_all

lemma harmless_settled: "harmless (settled r)"
  by (simp add: harmless_def settled_def)

lemma harmless_done: "harmless (done_with a)"
  by (simp add: harmless_def done_with_def)

lemma harmless_fail: "harmless (fail_with e)"
  by (simp add: harmless_def fail_with_def)

lemma harmless_each: "(\<And>x b. harmless (f x b)) \<Longrightarrow> harmless (each xs b f)"
  by (induction xs arbitrary: b) (auto intro: harmless_done harmless_await)

lemmas harmless_intros = harmless_await harmless_caught harmless_settled harmless_done harmless_fail harmless_each

text \<open>Whatever the interleaving, the invariant holds and the state has only evolved.\<close>

lemma schedule_keeps:
  assumes "schedule log elsewhere js s n ks t" and "ok s"
    and "\<And>j. j \<in> set js \<Longrightarrow> guarded ok evolve permits log post j s"
    and "\<And>t u. ok t \<Longrightarrow> elsewhere t u \<Longrightarrow> ok u \<and> evolve t u"
  shows "ok t \<and> evolve s t \<and> (\<forall>k \<in> set ks. guarded ok evolve permits log post k t)"
  using assms
proof induction
  case begin_all
  then show ?case by (simp add: evolve_refl)
next
  case (job n ks t i k u)
  then have t: "ok t" "evolve s t" "\<forall>k \<in> set ks. guarded ok evolve permits log post k t" by simp_all
  have g: "guarded ok evolve permits log post (ks ! i) t" using t(3) job.hyps(2) by simp
  from job.hyps(3) have u: "ok u \<and> evolve t u \<and> guarded ok evolve permits log post k u"
    using g t(1) evolve_refl by cases auto
  then have "guarded ok evolve permits log post k' u" if "k' \<in> set (ks[i := k])" for k'
    using that t(3) guarded_later set_update_subset_insert by fast
  with u t(2) evolve_trans show ?case by blast
next
  case (other n ks t u)
  then have t: "ok t" "evolve s t" "\<forall>k \<in> set ks. guarded ok evolve permits log post k t" by simp_all
  with other.prems(3) [OF t(1) other.hyps(2)] evolve_trans guarded_later show ?case by blast
qed

end

section \<open>Bounds\<close>

inductive ends_within :: "nat \<Rightarrow> ('s, 'q, 'r, 'e, 'a) job \<Rightarrow> bool" where
  finished: "ends_within n (Finished r)"
| access: "(\<And>now s. ends_within n (k now s)) \<Longrightarrow> ends_within (Suc n) (Access g k)"
| call: "(\<And>r. ends_within n (k r)) \<Longrightarrow> ends_within (Suc n) (Call q k)"

inductive_cases ends_AccessE: "ends_within n (Access g k)"
inductive_cases ends_CallE: "ends_within n (Call q k)"

lemma ends_mono: "ends_within n j \<Longrightarrow> n \<le> m \<Longrightarrow> ends_within m j"
proof (induction arbitrary: m rule: ends_within.induct)
  case (access n k g)
  then obtain m' where "m = Suc m'" "n \<le> m'" by (cases m) auto
  with access show ?case by (auto intro: ends_within.access)
next
  case (call n k q)
  then obtain m' where "m = Suc m'" "n \<le> m'" by (cases m) auto
  with call show ?case by (auto intro: ends_within.call)
qed (rule ends_within.finished)

text \<open>What every result of a job satisfies, however it is reached.\<close>

primrec answers :: "('a \<Rightarrow> bool) \<Rightarrow> ('s, 'q, 'r, 'e, 'a) job \<Rightarrow> bool" where
  "answers P (Finished r) = (case r of Inl e \<Rightarrow> True | Inr a \<Rightarrow> P a)"
| "answers P (Access g k) = (\<forall>now s. answers P (k now s))"
| "answers P (Call q k) = (\<forall>r. answers P (k r))"

lemma answers_await: "(\<And>a. answers P (f a)) \<Longrightarrow> answers P (await j f)"
  by (induction j rule: job_induct) (auto split: sum.split)

lemma answers_leaf: "P a \<Longrightarrow> answers P (done_with a)" "answers P (fail_with e)"
  by (simp_all add: done_with_def fail_with_def)

lemma ends_await_answer:
  assumes "ends_within n j" and "answers P j" and "\<And>a. P a \<Longrightarrow> ends_within m (f a)"
  shows "ends_within (n + m) (await j f)"
  using assms(1,2)
proof induction
  case (finished n r)
  show ?case
  proof (cases r)
    case (Inr a)
    with finished ends_mono [OF assms(3) [of a]] show ?thesis by simp
  qed (simp add: ends_within.finished)
qed (auto intro: ends_within.intros)

lemma ends_await:
  assumes "ends_within n j" and "\<And>a. ends_within m (f a)"
  shows "ends_within (n + m) (await j f)"
proof (rule ends_await_answer [OF assms(1) _ assms(2)])
  show "answers (\<lambda>_. True) j" by (induction j rule: job_induct) (simp_all split: sum.split)
qed

lemma ends_caught:
  assumes "ends_within n j" and "\<And>e. ends_within m (h e)"
  shows "ends_within (n + m) (caught j h)"
  using assms(1)
proof induction
  case (finished n r)
  show ?case
  proof (cases r)
    case (Inl e)
    with ends_mono [OF assms(2) [of e]] show ?thesis by simp
  qed (simp add: ends_within.finished)
qed (auto intro: ends_within.intros)

lemma ends_each:
  assumes "\<And>x b. x \<in> set xs \<Longrightarrow> ends_within n (f x b)" and "length xs \<le> l"
  shows "ends_within (l * n) (each xs b f)"
  using assms
proof (induction xs arbitrary: b l)
  case Nil
  then show ?case by (simp add: done_with_def ends_within.finished)
next
  case (Cons x xs)
  then obtain l' where "l = Suc l'" "length xs \<le> l'" by (cases l) auto
  with Cons show ?case by (auto intro!: ends_await)
qed

lemma ends_next:
  assumes "ends_within 1 j" and "\<And>a. ends_within n (f a)"
  shows "ends_within (Suc n) (await j f)"
  using ends_await [OF assms] by simp

lemma ends_leaf: "ends_within n (done_with a)" "ends_within n (fail_with e)" "ends_within n (settled r)"
  by (simp_all add: done_with_def fail_with_def settled_def ends_within.finished)

lemma ends_settled: "(\<And>a. ends_within n (f a)) \<Longrightarrow> ends_within n (await (settled r) f)"
  using ends_await [of 0 "settled r" n f] by (simp add: ends_leaf)

text \<open>Each step of a job uses up one of its bound, so jobs that run side by side all come to an end.\<close>

lemma ends_step: "ends_within n j \<Longrightarrow> job_step log j s j' s' \<Longrightarrow> \<exists>m. n = Suc m \<and> ends_within m j'"
  by (auto elim!: job_stepE ends_AccessE ends_CallE)

lemma schedule_within:
  assumes "schedule log elsewhere js s n ks t" and "list_all2 ends_within bs js"
  shows "\<exists>cs. list_all2 ends_within cs ks \<and> n + sum_list cs \<le> sum_list bs"
  using assms
proof induction
  case begin_all
  then show ?case by auto
next
  case (job n ks t i k u)
  then obtain cs where cs: "list_all2 ends_within cs ks" "n + sum_list cs \<le> sum_list bs" by blast
  then have i: "i < length cs" "ends_within (cs ! i) (ks ! i)" using job.hyps(2) by (simp_all add: list_all2_conv_all_nth)
  from ends_step [OF this(2) job.hyps(3)] obtain m where m: "cs ! i = Suc m" "ends_within m k" by blast
  have "list_all2 ends_within (cs[i := m]) (ks[i := k])" using cs(1) m(2) by (simp add: list_all2_update_cong)
  moreover have "sum_list cs = Suc (sum_list (cs[i := m]))"
    using i(1) m(1) elem_le_sum_list [OF i(1)] by (simp add: sum_list_update)
  ultimately show ?case using cs(2) by (intro exI [of _ "cs[i := m]"]) simp
next
  case (other n ks t u)
  then show ?case by blast
qed

section \<open>Evaluation\<close>

text \<open>A given course of events: which job goes on, at what time or with which reply.\<close>

datatype 'r event = Tick int | Reply 'r

fun play_one :: "('q \<Rightarrow> 'r \<Rightarrow> 's \<Rightarrow> 's) \<Rightarrow> 'r event \<Rightarrow> ('s, 'q, 'r, 'e, 'a) job \<Rightarrow> 's \<Rightarrow> ('s, 'q, 'r, 'e, 'a) job \<times> 's" where
  "play_one log (Tick now) (Access g k) s = (k now s, g now s)"
| "play_one log (Reply r) (Call q k) s = (k r, log q r s)"
| "play_one log e j s = (j, s)"

fun play :: "('q \<Rightarrow> 'r \<Rightarrow> 's \<Rightarrow> 's) \<Rightarrow> (nat \<times> 'r event) list \<Rightarrow> ('s, 'q, 'r, 'e, 'a) job list \<Rightarrow> 's
    \<Rightarrow> ('s, 'q, 'r, 'e, 'a) job list \<times> 's" where
  "play log [] js s = (js, s)"
| "play log ((i, e) # es) js s = play log es (js[i := fst (play_one log e (js ! i) s)]) (snd (play_one log e (js ! i) s))"

lemma play_one_step:
  assumes "schedule log elsewhere js s n ks t" and "i < length ks"
  shows "\<exists>m. schedule log elsewhere js s m (ks[i := fst (play_one log e (ks ! i) t)]) (snd (play_one log e (ks ! i) t))"
proof (cases "job_step log (ks ! i) t (fst (play_one log e (ks ! i) t)) (snd (play_one log e (ks ! i) t))")
  case True
  from schedule.job [OF assms this] show ?thesis by blast
next
  case False
  then have "play_one log e (ks ! i) t = (ks ! i, t)"
    by (cases e; cases "ks ! i") (auto intro: job_step.intros)
  with assms(1) show ?thesis by auto
qed

lemma play_continues:
  "schedule log elsewhere js s n ks t \<Longrightarrow> \<forall>(i, e) \<in> set es. i < length ks \<Longrightarrow> play log es ks t = (ls, u) \<Longrightarrow>
     \<exists>m. schedule log elsewhere js s m ls u"
proof (induction es arbitrary: n ks t)
  case (Cons ie es)
  obtain i e where ie: "ie = (i, e)" by (cases ie)
  obtain m where "schedule log elsewhere js s m (ks[i := fst (play_one log e (ks ! i) t)]) (snd (play_one log e (ks ! i) t))"
    using play_one_step [OF Cons.prems(1), of i] Cons.prems(2) ie by fastforce
  from Cons.IH [OF this] Cons.prems(2,3) ie show ?case by auto
qed auto

lemma play_schedule:
  "play log es js s = (ks, t) \<Longrightarrow> \<forall>(i, e) \<in> set es. i < length js \<Longrightarrow> \<exists>n. schedule log elsewhere js s n ks t"
  by (rule play_continues [OF schedule.begin_all])

end
