(* ===== verification/ExternalSettlement.thy ===== *)
theory ExternalSettlement
  imports Async Trades JsDate
begin

text \<open>
  Payouts and refunds on chain, \<open>lib/external-settlement.ts\<close>: the outbox of transfers,
  their nonces, signing, sending and confirmation, and the sweep that takes up what was
  left.  Nothing here runs in one transaction but the allocation of a nonce: every other
  statement is a step of its own, and several workers may process the same transfer.

  The network, the wallet and the configuration are not code of this repository: a call
  of a service is answered by any reply, and \<open>settle_env\<close> holds the rest.  A transfer's
  fee evidence is not kept in the model; that reading it may fail is \<open>se_measured\<close>.
\<close>

section \<open>Configuration\<close>

record accepted_token =
  at_chain_id :: int
  at_address :: string
  at_rpc_url :: "string option"

text \<open>
  \<open>se_variable\<close> is \<open>process.env\<close>, \<open>se_tokens\<close> the tokens that are accepted and ready,
  \<open>se_signer\<close> the address of the settlement key and \<open>se_account\<close> the address of the same
  key on a chain; \<open>se_is_address\<close>, \<open>se_parse_units\<close> and \<open>se_keccak\<close> are functions of the
  chain library, \<open>se_valid_url\<close> is \<open>validHttpUrl\<close>; \<open>se_bind_date\<close> is how the database driver
  binds a \<open>Date\<close> that no column encodes.
\<close>

record settle_env =
  se_trade :: trade_env
  se_variable :: "string \<Rightarrow> string option"
  se_tokens :: "accepted_token list"
  se_signer :: "string option"
  se_account :: "int \<Rightarrow> string"
  se_is_address :: "string \<Rightarrow> bool"
  se_valid_url :: "string \<Rightarrow> bool"
  se_parse_units :: "string \<Rightarrow> nat \<Rightarrow> int"
  se_keccak :: "string \<Rightarrow> string"
  se_measured :: "settlement_transfer \<Rightarrow> string \<Rightarrow> app_error + unit"
  se_error_text :: "app_error \<Rightarrow> string"
  se_bind_date :: "millis \<Rightarrow> int"

definition TEMPO_CHAIN_ID :: int where "TEMPO_CHAIN_ID = 4217"

definition PATHUSD_ADDRESS :: string where
  "PATHUSD_ADDRESS = ''0x20c0000000000000000000000000000000000000''"

definition show_int :: "int \<Rightarrow> string" where
  "show_int n = (if n < 0 then CHR ''-'' # show_nat (nat (- n)) else show_nat (nat n))"

definition findAcceptedToken :: "settle_env \<Rightarrow> int \<Rightarrow> string \<Rightarrow> accepted_token option" where
  "findAcceptedToken env chainId address =
     find (\<lambda>t. at_chain_id t = chainId \<and> lower (at_address t) = lower address) (se_tokens env)"

definition public_rpc_urls :: "(int \<times> string) list" where
  "public_rpc_urls = [(1, ''https://rpc.ankr.com/eth''), (10, ''https://rpc.ankr.com/optimism''),
     (56, ''https://rpc.ankr.com/bsc''), (137, ''https://rpc.ankr.com/polygon''), (43114, ''https://rpc.ankr.com/avalanche''),
     (8453, ''https://rpc.ankr.com/base''), (42161, ''https://rpc.ankr.com/arbitrum'')]"

definition getRpcUrl :: "settle_env \<Rightarrow> int \<Rightarrow> string option" where
  "getRpcUrl env chainId =
    (let specific = se_variable env (''EVM_RPC_URL_'' @ show_int chainId) in
     if truthy specific then specific
     else if chainId = 4217 \<and> truthy (se_variable env ''TEMPO_RPC_URL'') then se_variable env ''TEMPO_RPC_URL''
     else if truthy (se_variable env ''EVM_RPC_URL'') then se_variable env ''EVM_RPC_URL''
     else map_of public_rpc_urls chainId)"

text \<open>\<open>a || b\<close> of two texts that may be missing.\<close>

definition either_text :: "string option \<Rightarrow> string option \<Rightarrow> string option" where
  "either_text a b = (if truthy a then a else b)"

definition getTempoRpcUrl :: "settle_env \<Rightarrow> string option" where
  "getTempoRpcUrl env =
    (let v = either_text (map_option trim (se_variable env ''TEMPO_RPC_URL''))
         (either_text (map_option trim (se_variable env ''EVM_RPC_URL_4217'')) (Some []))
     in if se_valid_url env (the v) then v else None)"

definition checked_address :: "settle_env \<Rightarrow> string option \<Rightarrow> string option" where
  "checked_address env v = (let raw = (case v of None \<Rightarrow> [] | Some x \<Rightarrow> trim x) in
     if se_is_address env raw then Some raw else None)"

definition getTreasuryAddress :: "settle_env \<Rightarrow> string option" where
  "getTreasuryAddress env = checked_address env (se_variable env ''TREASURY_ADDRESS'')"

definition getMppRecipientAddress :: "settle_env \<Rightarrow> string option" where
  "getMppRecipientAddress env = checked_address env
     (either_text (se_variable env ''MPP_RECIPIENT_ADDRESS'') (se_variable env ''TREASURY_ADDRESS''))"

section \<open>The database and the network\<close>

text \<open>What a payment transaction says: the token contract, its \<open>transfer(to, amount)\<close>, and the nonce.\<close>

record payment =
  pm_chain_id :: int
  pm_from :: string
  pm_nonce :: int
  pm_token :: string
  pm_to :: string
  pm_amount :: int

text \<open>
  The calls of the chain client and of the account.  \<open>Prepare\<close> fills in gas and fees and
  keeps what it was given; its answer is what it filled in, which \<open>Sign\<close> is given too.
\<close>

datatype chain_request =
    Transaction_count string
  | Prepare payment
  | Sign payment string
  | Send string
  | Get_transaction string
  | Wait_receipt string

datatype chain_reply = Refused string | Number int | Text string | Receipt bool string

text \<open>
  The state that the workers share.  \<open>wd_signed\<close> and \<open>wd_sent\<close> are no state of the program:
  they record what the account has signed and what has been given to the network.
\<close>

record world =
  wd_db :: db
  wd_signed :: "(payment \<times> string) list"
  wd_sent :: "string list"

definition chain_log :: "chain_request \<Rightarrow> chain_reply \<Rightarrow> world \<Rightarrow> world" where
  "chain_log q r w = (case q of
     Sign p x \<Rightarrow> (case r of Text raw \<Rightarrow> w\<lparr>wd_signed := (p, raw) # wd_signed w\<rparr> | _ \<Rightarrow> w)
   | Send raw \<Rightarrow> w\<lparr>wd_sent := raw # wd_sent w\<rparr>
   | _ \<Rightarrow> w)"

type_synonym 'a work = "(world, chain_request, chain_reply, app_error, 'a) job"

definition transact :: "(millis \<Rightarrow> 'a dbtx) \<Rightarrow> 'a work" where
  "transact m = Access (\<lambda>now w. w\<lparr>wd_db := snd (transaction (m now) (wd_db w))\<rparr>)
     (\<lambda>now w. settled (fst (transaction (m now) (wd_db w))))"

definition query :: "'a dbtx \<Rightarrow> 'a work" where
  "query m = transact (\<lambda>_. m)"

definition when_fails :: "chain_reply \<Rightarrow> app_error" where
  "when_fails r = PlainError (case r of Refused e \<Rightarrow> e | _ \<Rightarrow> ''UNEXPECTED_REPLY'')"

definition ask_number :: "chain_request \<Rightarrow> int work" where
  "ask_number q = Call q (\<lambda>r. case r of Number n \<Rightarrow> done_with n | _ \<Rightarrow> fail_with (when_fails r))"

definition ask_text :: "chain_request \<Rightarrow> string work" where
  "ask_text q = Call q (\<lambda>r. case r of Text t \<Rightarrow> done_with t | _ \<Rightarrow> fail_with (when_fails r))"

definition ask_receipt :: "chain_request \<Rightarrow> (bool \<times> string) work" where
  "ask_receipt q = Call q (\<lambda>r. case r of Receipt ok fee \<Rightarrow> done_with (ok, fee) | _ \<Rightarrow> fail_with (when_fails r))"

section \<open>Addresses\<close>

definition hex_char :: "char \<Rightarrow> bool" where
  "hex_char c \<longleftrightarrow> c \<in> set ''0123456789abcdefABCDEF''"

text \<open>\<open>email.match(/^wallet_(0x[a-fA-F0-9]{40})@wallet\.local$/)\<close>.\<close>

definition walletMatch :: "string \<Rightarrow> string option" where
  "walletMatch email = (let a = take 42 (drop 7 email) in
     if take 7 email = ''wallet_'' \<and> length a = 42 \<and> take 2 a = ''0x'' \<and> list_all hex_char (drop 2 a)
       \<and> drop 49 email = ''@wallet.local''
     then Some a else None)"

definition only_address :: "settle_env \<Rightarrow> string option \<Rightarrow> string option" where
  "only_address env a = (case a of None \<Rightarrow> None | Some x \<Rightarrow> if se_is_address env x then Some x else None)"

definition payoutAddressForUser :: "settle_env \<Rightarrow> id \<Rightarrow> string option work" where
  "payoutAddressForUser env userId =
     await (query (select_one payout_addresses (\<lambda>d. pd_user_id d = userId))) (\<lambda>configured.
     case only_address env (map_option pd_address configured) of
       Some a \<Rightarrow> done_with (Some a)
     | None \<Rightarrow> await (query (select_one users (\<lambda>u. u_id u = userId))) (\<lambda>user.
        case only_address env (Option.bind user (\<lambda>u. walletMatch (u_email u))) of
          Some a \<Rightarrow> done_with (Some a)
        | None \<Rightarrow> (let agentId = (if starts_with agent_prefix userId then drop (length agent_prefix) userId else []) in
           if agentId = [] then done_with None
           else await (query (select_one agents (\<lambda>g. ag_id g = agentId))) (\<lambda>agent.
             done_with (case Option.bind agent ag_owner_address of
               None \<Rightarrow> None | Some x \<Rightarrow> if x \<noteq> [] \<and> se_is_address env x then Some x else None)))))"

definition recordPayoutAddress :: "id \<Rightarrow> string \<Rightarrow> unit work" where
  "recordPayoutAddress userId address = query (\<lambda>s. Inr ((), s\<lparr>payout_addresses :=
     (if list_ex (\<lambda>d. pd_user_id d = userId) (payout_addresses s)
      then set_rows (\<lambda>d. pd_user_id d = userId) (\<lambda>d. d\<lparr>pd_address := lower address\<rparr>) (payout_addresses s)
      else payout_addresses s @ [\<lparr>pd_user_id = userId, pd_address = lower address\<rparr>])\<rparr>))"

section \<open>Queueing a transfer\<close>

text \<open>\<open>x.toFixed(d)\<close> of a positive number below \<open>10 ^ 21\<close>.\<close>

definition to_fixed :: "nat \<Rightarrow> num \<Rightarrow> string" where
  "to_fixed d x = (let n = nat \<lfloor>x * 10 ^ d + 1 / 2\<rfloor>; rest = show_nat (n mod 10 ^ d) in
     show_nat (n div 10 ^ d)
       @ (if d = 0 then [] else CHR ''.'' # replicate (d - length rest) (CHR ''0'') @ rest))"

definition rawAmountForUsd :: "settle_env \<Rightarrow> payment_receipt \<Rightarrow> num \<Rightarrow> app_error + int" where
  "rawAmountForUsd env receipt usdAmount =
    (let paidRaw = (case pr_token_amount receipt of None \<Rightarrow> 0 | Some n \<Rightarrow> n);
         isPathUsd = (pr_chain_id receipt = Some TEMPO_CHAIN_ID
           \<and> map_option lower (pr_token_address receipt) = Some (lower PATHUSD_ADDRESS));
         decimals = (case pr_token_decimals receipt of Some d \<Rightarrow> Some d | None \<Rightarrow> if isPathUsd then Some 6 else None);
         usdPrice = (case pr_token_usd_price receipt of Some p \<Rightarrow> Some p | None \<Rightarrow> if isPathUsd then Some 1 else None) in
     if paidRaw \<le> 0 \<or> decimals = None \<or> usdPrice \<noteq> Some 1 \<or> usdAmount \<le> 0
     then Inl (SettlementError ''INVALID_PAYMENT_RECEIPT'' False)
     else if the decimals < 0 \<or> 100 < the decimals then Inl (PlainError ''RangeError'')
     else (let raw = se_parse_units env (to_fixed (nat (the decimals)) usdAmount) (nat (the decimals)) in
       if raw \<le> 0 then Inl (SettlementError ''SETTLEMENT_DUST'' False)
       else if paidRaw < raw then Inl (SettlementError ''SETTLEMENT_EXCEEDS_PAYMENT'' False)
       else Inr raw))"

definition kind_name :: "transfer_kind \<Rightarrow> string" where
  "kind_name k = (case k of Kind_payout \<Rightarrow> ''seller_payout'' | Kind_refund \<Rightarrow> ''buyer_refund'')"

definition business_key :: "id \<Rightarrow> transfer_kind \<Rightarrow> string" where
  "business_key tradeId k = tradeId @ CHR '':'' # kind_name k"

definition new_transfer ::
  "millis \<Rightarrow> id \<Rightarrow> trade \<Rightarrow> transfer_kind \<Rightarrow> payment_receipt \<Rightarrow> string \<Rightarrow> string \<Rightarrow> int \<Rightarrow> num \<Rightarrow> settlement_transfer" where
  "new_transfer now fresh t kind receipt from' recipient amount usd =
     \<lparr>st_id = fresh, st_business_key = business_key (t_id t) kind, st_trade_id = t_id t, st_kind = kind,
      st_chain_id = the (pr_chain_id receipt), st_token_address = the (pr_token_address receipt),
      st_from_address = lower from', st_to_address = lower recipient, st_token_amount = amount, st_usd_amount = usd,
      st_nonce = None, st_raw_transaction = None, st_tx_hash = None, st_status = St_pending, st_attempts = 0,
      st_last_error = None, st_updated_at = to_seconds now, st_confirmed_at = None\<rparr>"

definition receipt_of_trade :: "id \<Rightarrow> payment_receipt option dbtx" where
  "receipt_of_trade tradeId = select_one payment_receipts (\<lambda>r. pr_trade_id r = Some tradeId)"

definition insertTransfer :: "settlement_transfer \<Rightarrow> unit dbtx" where
  "insertTransfer row = insert_ignore settlement_transfers settlement_transfers_update
     (\<lambda>r. st_id r = st_id row \<or> st_business_key r = st_business_key row) row"

definition queueTransfer ::
  "settle_env \<Rightarrow> id \<Rightarrow> trade \<Rightarrow> transfer_kind \<Rightarrow> string \<Rightarrow> num \<Rightarrow> settlement_transfer work" where
  "queueTransfer env fresh t kind recipient usdAmount =
     await (query (receipt_of_trade (t_id t))) (\<lambda>found. case found of
       None \<Rightarrow> fail_with (SettlementError ''PAYMENT_RECEIPT_MISSING'' False)
     | Some receipt \<Rightarrow>
        if \<not> truthy (pr_token_address receipt) \<or> pr_chain_id receipt = None \<or> pr_chain_id receipt = Some 0
        then fail_with (SettlementError ''PAYMENT_RECEIPT_MISSING'' False)
        else (case (if t_payment_rail t = Mpp then getMppRecipientAddress env else getTreasuryAddress env) of
          None \<Rightarrow> fail_with (SettlementError ''SETTLEMENT_WALLET_MISSING'' False)
        | Some from' \<Rightarrow>
            await (settled (rawAmountForUsd env receipt usdAmount)) (\<lambda>tokenAmount.
            await (transact (\<lambda>now. insertTransfer (new_transfer now fresh t kind receipt from' recipient tokenAmount usdAmount)))
              (\<lambda>_.
            await (query (select_one settlement_transfers (\<lambda>r. st_business_key r = business_key (t_id t) kind))) (\<lambda>queued.
              case queued of
                None \<Rightarrow> fail_with (SettlementError ''OUTBOX_WRITE_FAILED'' True)
              | Some q \<Rightarrow>
                  if lower (st_to_address q) \<noteq> lower recipient \<or> st_token_amount q \<noteq> tokenAmount
                  then fail_with (SettlementError ''SETTLEMENT_CONFLICT'' False)
                  else done_with q)))))"

section \<open>The nonce of a transfer\<close>

definition wallet_key :: "settlement_transfer \<Rightarrow> string" where
  "wallet_key r = show_int (st_chain_id r) @ CHR '':'' # lower (st_from_address r)"

definition transfer_at :: "id \<Rightarrow> settlement_transfer option dbtx" where
  "transfer_at i = select_one settlement_transfers (\<lambda>r. st_id r = i)"

text \<open>The upsert keeps the larger of the stored next nonce and the network's.\<close>

definition raiseNonce :: "string \<Rightarrow> int \<Rightarrow> unit dbtx" where
  "raiseNonce key networkNonce = modify (\<lambda>s. s\<lparr>settlement_nonces :=
     (if list_ex (\<lambda>n. sn_key n = key) (settlement_nonces s)
      then set_rows (\<lambda>n. sn_key n = key) (\<lambda>n. n\<lparr>sn_next_nonce := max (sn_next_nonce n) networkNonce\<rparr>) (settlement_nonces s)
      else settlement_nonces s @ [\<lparr>sn_key = key, sn_next_nonce = networkNonce\<rparr>])\<rparr>)"

definition allocate_tx :: "millis \<Rightarrow> settlement_transfer \<Rightarrow> int \<Rightarrow> int dbtx" where
  "allocate_tx now transfer networkNonce =
    (let key = wallet_key transfer in
     bnd (transfer_at (st_id transfer)) (\<lambda>found.
     bnd (some_or (PlainError ''TypeError'') found) (\<lambda>fresh. case st_nonce fresh of
       Some n \<Rightarrow> ret n
     | None \<Rightarrow>
        andthen (raiseNonce key networkNonce)
       (bnd (select_one settlement_nonces (\<lambda>n. sn_key n = key)) (\<lambda>state.
        bnd (some_or (PlainError ''TypeError'') state) (\<lambda>state.
        (let nonce = max networkNonce (sn_next_nonce state) in
         bnd (update_where settlement_nonces settlement_nonces_update (\<lambda>n. sn_key n = key) (\<lambda>n. n\<lparr>sn_next_nonce := nonce + 1\<rparr>)) (\<lambda>_.
         bnd (update_where settlement_transfers settlement_transfers_update (\<lambda>r. st_id r = st_id transfer)
           (\<lambda>r. r\<lparr>st_nonce := Some nonce, st_updated_at := to_seconds now\<rparr>)) (\<lambda>_.
         ret nonce)))))))))"

definition allocateNonce :: "settlement_transfer \<Rightarrow> int \<Rightarrow> int work" where
  "allocateNonce transfer networkNonce = (case st_nonce transfer of
     Some n \<Rightarrow> done_with n
   | None \<Rightarrow> transact (\<lambda>now. allocate_tx now transfer networkNonce))"

section \<open>Processing a transfer\<close>

definition update_transfers ::
  "(settlement_transfer \<Rightarrow> bool) \<Rightarrow> (millis \<Rightarrow> settlement_transfer \<Rightarrow> settlement_transfer) \<Rightarrow> settlement_transfer list work" where
  "update_transfers p f = transact (\<lambda>now. update_where settlement_transfers settlement_transfers_update p
     (\<lambda>r. (f now r)\<lparr>st_updated_at := to_seconds now\<rparr>))"

text \<open>The release gate of a payout whose trade is not completed yet.\<close>

definition payoutAllowed :: "settle_env \<Rightarrow> settlement_transfer \<Rightarrow> unit work" where
  "payoutAllowed env transfer =
    (if st_kind transfer = Kind_payout then
       await (query (select_one trades (\<lambda>t. t_id t = st_trade_id transfer))) (\<lambda>found. case found of
         Some t \<Rightarrow> if t_status t = T_pending_release
           then query (assertTradeReleaseAllowed (se_trade env) (t_id t) Seller_payout) else done_with ()
       | None \<Rightarrow> done_with ())
     else done_with ())"

text \<open>The address that signs, once there is a service to ask and a key for the wallet.\<close>

definition signer :: "settle_env \<Rightarrow> settlement_transfer \<Rightarrow> app_error + string" where
  "signer env transfer =
    (let chainId = st_chain_id transfer; from' = lower (st_from_address transfer);
         rpcUrl = (if chainId = TEMPO_CHAIN_ID then getTempoRpcUrl env
           else either_text (Option.bind (findAcceptedToken env chainId (st_token_address transfer)) at_rpc_url)
             (getRpcUrl env chainId)) in
     if \<not> truthy rpcUrl then Inl (SettlementError ''RPC_NOT_CONFIGURED'' False)
     else (case se_signer env of
       None \<Rightarrow> Inl (PlainError ''EVM_SETTLEMENT_PRIVATE_KEY is not configured'')
     | Some a \<Rightarrow>
         if lower a \<noteq> from' \<or> lower (se_account env chainId) \<noteq> from'
         then Inl (PlainError ''Settlement signer does not match the configured payment recipient'')
         else Inr (se_account env chainId)))"

definition payment_of :: "settlement_transfer \<Rightarrow> string \<Rightarrow> int \<Rightarrow> payment" where
  "payment_of r account nonce = \<lparr>pm_chain_id = st_chain_id r, pm_from = account, pm_nonce = nonce,
     pm_token = st_token_address r, pm_to = st_to_address r, pm_amount = st_token_amount r\<rparr>"

definition signTransfer :: "settle_env \<Rightarrow> string \<Rightarrow> settlement_transfer \<Rightarrow> unit work" where
  "signTransfer env account claimed =
     await (ask_number (Transaction_count account)) (\<lambda>networkNonce.
     await (allocateNonce claimed networkNonce) (\<lambda>nonce.
     await (ask_text (Prepare (payment_of claimed account nonce))) (\<lambda>fees.
     await (ask_text (Sign (payment_of claimed account nonce) fees)) (\<lambda>raw.
     await (update_transfers (\<lambda>r. st_id r = st_id claimed \<and> st_status r = St_signing)
       (\<lambda>now r. r\<lparr>st_raw_transaction := Some raw, st_tx_hash := Some (se_keccak env raw), st_status := St_prepared\<rparr>))
       (\<lambda>_. done_with ())))))"

definition claim_transfer :: "settlement_transfer \<Rightarrow> settlement_transfer" where
  "claim_transfer r = r\<lparr>st_status := St_signing, st_attempts := st_attempts r + 1, st_last_error := None\<rparr>"

definition prepareTransfer :: "settle_env \<Rightarrow> string \<Rightarrow> settlement_transfer \<Rightarrow> settlement_transfer work" where
  "prepareTransfer env account transfer =
     await (update_transfers (\<lambda>r. st_id r = st_id transfer \<and> st_status r = St_pending) (\<lambda>now. claim_transfer)) (\<lambda>rows.
     case rows of
       [] \<Rightarrow> done_with transfer
     | claimed # _ \<Rightarrow>
        await (caught (signTransfer env account claimed)
          (\<lambda>e. await (update_transfers (\<lambda>r. st_id r = st_id transfer)
              (\<lambda>now r. r\<lparr>st_status := St_pending, st_last_error := Some (se_error_text env e)\<rparr>))
            (\<lambda>_. fail_with (SettlementError ''TRANSFER_PREPARE_FAILED'' True)))) (\<lambda>_.
        await (query (transfer_at (st_id transfer))) (\<lambda>found. case found of
          None \<Rightarrow> fail_with (PlainError ''TypeError'')
        | Some r \<Rightarrow> done_with r)))"

text \<open>
  A row that has gone is \<open>undefined\<close>, here \<open>None\<close>.  A refused \<open>Send\<close> is no failure when
  the network knows the transaction.
\<close>

definition head :: "'a list \<Rightarrow> 'a option" where
  "head xs = (case xs of [] \<Rightarrow> None | x # _ \<Rightarrow> Some x)"

definition broadcast :: "string \<Rightarrow> string \<Rightarrow> unit work" where
  "broadcast raw hash = caught (await (ask_text (Send raw)) (\<lambda>_. done_with ()))
     (\<lambda>_. caught (await (ask_text (Get_transaction hash)) (\<lambda>_. done_with ()))
       (\<lambda>_. fail_with (PlainError ''Signed settlement transaction was not accepted by the network'')))"

definition confirmTransfer :: "settle_env \<Rightarrow> settlement_transfer \<Rightarrow> string \<Rightarrow> string \<Rightarrow> settlement_transfer option work" where
  "confirmTransfer env transfer raw hash =
    (let this = (\<lambda>r. st_id r = st_id transfer) in
     await (broadcast raw hash) (\<lambda>_.
     await (update_transfers this (\<lambda>now r. r\<lparr>st_status := St_submitted\<rparr>)) (\<lambda>_.
     await (ask_receipt (Wait_receipt hash)) (\<lambda>(success, fee).
     await (settled (se_measured env transfer fee)) (\<lambda>_.
     if \<not> success then
       await (update_transfers this
           (\<lambda>now r. r\<lparr>st_status := St_failed, st_last_error := Some ''Settlement transaction reverted''\<rparr>)) (\<lambda>_.
         fail_with (SettlementError ''TRANSFER_REVERTED'' False))
     else
       await (update_transfers this
           (\<lambda>now r. r\<lparr>st_status := St_confirmed, st_confirmed_at := Some (to_seconds now), st_last_error := None\<rparr>)) (\<lambda>rows.
         done_with (head rows)))))))"

definition sendTransfer :: "settle_env \<Rightarrow> settlement_transfer \<Rightarrow> string \<Rightarrow> string \<Rightarrow> settlement_transfer option work" where
  "sendTransfer env transfer raw hash = caught (confirmTransfer env transfer raw hash)
     (\<lambda>e. case e of
        SettlementError c retryable \<Rightarrow> fail_with e
      | _ \<Rightarrow> await (update_transfers (\<lambda>r. st_id r = st_id transfer)
            (\<lambda>now r. r\<lparr>st_status := St_submitted, st_last_error := Some (se_error_text env e)\<rparr>)) (\<lambda>_.
          query (transfer_at (st_id transfer))))"

definition resumeTransfer :: "settle_env \<Rightarrow> settlement_transfer \<Rightarrow> settlement_transfer option work" where
  "resumeTransfer env transfer =
     await (payoutAllowed env transfer) (\<lambda>_.
     await (settled (signer env transfer)) (\<lambda>account.
     await (if truthy (st_raw_transaction transfer) then done_with transfer
            else prepareTransfer env account transfer) (\<lambda>current.
       if \<not> truthy (st_raw_transaction current) \<or> \<not> truthy (st_tx_hash current) then done_with (Some current)
       else sendTransfer env current (the (st_raw_transaction current)) (the (st_tx_hash current)))))"

definition processSettlementTransfer :: "settle_env \<Rightarrow> id \<Rightarrow> settlement_transfer option work" where
  "processSettlementTransfer env transferId =
     await (query (transfer_at transferId)) (\<lambda>found. case found of
       None \<Rightarrow> fail_with (SettlementError ''TRANSFER_NOT_FOUND'' False)
     | Some transfer \<Rightarrow>
        if st_status transfer = St_confirmed then done_with (Some transfer)
        else if st_status transfer = St_failed then fail_with (SettlementError ''TRANSFER_FAILED'' False)
        else resumeTransfer env transfer)"

section \<open>Settling a trade\<close>

text \<open>\<open>processed.every((item) => item.status === 'confirmed')\<close>.\<close>

fun all_confirmed :: "settlement_transfer option list \<Rightarrow> app_error + bool" where
  "all_confirmed [] = Inr True"
| "all_confirmed (None # rs) = Inl (PlainError ''TypeError'')"
| "all_confirmed (Some r # rs) = (if st_status r = St_confirmed then all_confirmed rs else Inr False)"

definition processEach :: "settle_env \<Rightarrow> bool \<Rightarrow> settlement_transfer list \<Rightarrow> settlement_transfer option list work" where
  "processEach env process queued = each queued [] (\<lambda>q rs.
     await (if process then processSettlementTransfer env (st_id q) else done_with (Some q)) (\<lambda>r. done_with (rs @ [r])))"

definition seller_usd :: "trade \<Rightarrow> num \<Rightarrow> num" where
  "seller_usd t sellerPercent =
     jdiv (of_int (jround (jmul (jmul (t_seller_amount t) (jdiv sellerPercent 100)) 100))) 100"

definition buyer_usd :: "trade \<Rightarrow> num \<Rightarrow> num" where
  "buyer_usd t sellerPercent = jdiv (of_int (jround (jmul (jsub (t_seller_amount t) (seller_usd t sellerPercent)) 100))) 100"

text \<open>The destination of a payout that was queued before stays what it was.\<close>

definition payoutDestination :: "settle_env \<Rightarrow> trade \<Rightarrow> string option work" where
  "payoutDestination env t =
     await (query (select_one settlement_transfers (\<lambda>r. st_business_key r = business_key (t_id t) Kind_payout))) (\<lambda>existing.
       case Option.bind existing (\<lambda>r. if st_to_address r \<noteq> [] \<and> se_is_address env (st_to_address r)
            then Some (st_to_address r) else None) of
         Some a \<Rightarrow> done_with (Some a)
       | None \<Rightarrow> payoutAddressForUser env (t_seller_id t))"

definition queuePayout :: "settle_env \<Rightarrow> id \<Rightarrow> trade \<Rightarrow> num \<Rightarrow> settlement_transfer list work" where
  "queuePayout env fresh t usd =
     await (payoutDestination env t) (\<lambda>address. case address of
       None \<Rightarrow> fail_with (SettlementError ''SELLER_PAYOUT_ADDRESS_MISSING'' False)
     | Some a \<Rightarrow>
         if a = [] then fail_with (SettlementError ''SELLER_PAYOUT_ADDRESS_MISSING'' False)
         else await (queueTransfer env fresh t Kind_payout a usd) (\<lambda>q. done_with [q]))"

definition payer_of :: "settle_env \<Rightarrow> payment_receipt option \<Rightarrow> string option" where
  "payer_of env receipt = (case Option.bind receipt pr_payer_address of
     None \<Rightarrow> None | Some a \<Rightarrow> if a \<noteq> [] \<and> se_is_address env a then Some a else None)"

definition queueRefund :: "settle_env \<Rightarrow> id \<Rightarrow> trade \<Rightarrow> num \<Rightarrow> settlement_transfer list work" where
  "queueRefund env fresh t usd =
     await (query (receipt_of_trade (t_id t))) (\<lambda>receipt. case payer_of env receipt of
       None \<Rightarrow> fail_with (SettlementError ''BUYER_REFUND_ADDRESS_MISSING'' False)
     | Some a \<Rightarrow> await (queueTransfer env fresh t Kind_refund a usd) (\<lambda>q. done_with [q]))"

definition settleExternallyFundedTrade ::
  "settle_env \<Rightarrow> id \<Rightarrow> id \<Rightarrow> trade \<Rightarrow> num \<Rightarrow> bool \<Rightarrow> (bool \<times> settlement_transfer option list) work" where
  "settleExternallyFundedTrade env fresh1 fresh2 t sellerPercent process =
    (if t_payment_rail t \<noteq> Mpp \<and> t_payment_rail t \<noteq> Evm then done_with (True, [])
     else if sellerPercent < 0 \<or> 100 < sellerPercent then fail_with (SettlementError ''INVALID_DISTRIBUTION'' False)
     else
       await (if t_status t = T_pending_release \<and> 0 < sellerPercent
              then query (assertTradeReleaseAllowed (se_trade env) (t_id t) Seller_payout) else done_with ()) (\<lambda>_.
       await (if 0 < seller_usd t sellerPercent then queuePayout env fresh1 t (seller_usd t sellerPercent)
              else done_with []) (\<lambda>payout.
       await (if 0 < buyer_usd t sellerPercent then queueRefund env fresh2 t (buyer_usd t sellerPercent)
              else done_with []) (\<lambda>refund.
       await (processEach env process (payout @ refund)) (\<lambda>processed.
       await (settled (all_confirmed processed)) (\<lambda>complete. done_with (complete, processed)))))))"

definition refund_usd :: "payment_receipt \<Rightarrow> num" where
  "refund_usd receipt = (case pr_usd_value_at_payment receipt of
     Some v \<Rightarrow> if v \<noteq> 0 then v else pr_amount receipt | None \<Rightarrow> pr_amount receipt)"

definition refundCancelledExternalTrade ::
  "settle_env \<Rightarrow> id \<Rightarrow> trade \<Rightarrow> bool \<Rightarrow> (bool \<times> settlement_transfer option list) work" where
  "refundCancelledExternalTrade env fresh t process =
    (if t_payment_rail t \<noteq> Mpp \<and> t_payment_rail t \<noteq> Evm \<or> t_status t \<noteq> T_cancelled
     then fail_with (SettlementError ''INVALID_REFUND_STATE'' False)
     else
       await (query (receipt_of_trade (t_id t))) (\<lambda>receipt. case payer_of env receipt of
         None \<Rightarrow> fail_with (SettlementError ''BUYER_REFUND_ADDRESS_MISSING'' False)
       | Some a \<Rightarrow>
         await (queueTransfer env fresh t Kind_refund a (refund_usd (the receipt))) (\<lambda>queued.
         await (if process then processSettlementTransfer env (st_id queued) else done_with (Some queued)) (\<lambda>transfer.
         await (settled (all_confirmed [transfer])) (\<lambda>complete.
         await (if complete then query (update_where trades trades_update
               (\<lambda>r. t_id r = t_id t \<and> t_status r = T_cancelled) (\<lambda>r. r\<lparr>t_payout_status := Payout_refunded\<rparr>))
             else done_with []) (\<lambda>_.
           done_with (complete, [transfer])))))))"

section \<open>The sweep\<close>

record sweep_summary =
  sw_attempted :: nat
  sw_confirmed :: nat
  sw_pending :: nat
  sw_failed :: nat

definition count_result :: "settlement_transfer option \<Rightarrow> sweep_summary \<Rightarrow> app_error + sweep_summary" where
  "count_result r n = (case r of
     None \<Rightarrow> Inl (PlainError ''TypeError'')
   | Some x \<Rightarrow> Inr (if st_status x = St_confirmed then n\<lparr>sw_confirmed := sw_confirmed n + 1\<rparr>
       else if st_status x = St_failed then n\<lparr>sw_failed := sw_failed n + 1\<rparr>
       else n\<lparr>sw_pending := sw_pending n + 1\<rparr>))"

text \<open>The date is a parameter of a raw SQL fragment.\<close>

definition stale_signing :: "settle_env \<Rightarrow> millis \<Rightarrow> settlement_transfer \<Rightarrow> bool" where
  "stale_signing env stale r \<longleftrightarrow> st_status r = St_signing \<and> st_updated_at r < se_bind_date env stale"

definition processPendingSettlementTransfers :: "settle_env \<Rightarrow> nat \<Rightarrow> sweep_summary work" where
  "processPendingSettlementTransfers env limit =
     await (transact (\<lambda>now. update_where settlement_transfers settlement_transfers_update
         (stale_signing env (now - 5 * 60000)) (\<lambda>r. r\<lparr>st_status := St_pending, st_updated_at := to_seconds now\<rparr>))) (\<lambda>_.
     await (query (asks (\<lambda>s. take limit (filter (\<lambda>r. st_status r \<in> {St_pending, St_prepared, St_submitted})
         (settlement_transfers s))))) (\<lambda>rows.
       each rows \<lparr>sw_attempted = length rows, sw_confirmed = 0, sw_pending = 0, sw_failed = 0\<rparr> (\<lambda>row n.
         caught (await (processSettlementTransfer env (st_id row)) (\<lambda>r. settled (count_result r n)))
           (\<lambda>_. done_with (n\<lparr>sw_failed := sw_failed n + 1\<rparr>)))))"

end
