(* ===== verification/SettlementSafety.thy ===== *)
theory SettlementSafety
  imports ExternalSettlement
begin

text \<open>
  The outbox under any interleaving of its workers: a transfer keeps its terms and, once
  it has one, its nonce; no two transfers of a wallet share a nonce; whatever the account
  signs and whatever the network is given is a payment of one transfer.
\<close>

section \<open>The invariant\<close>

abbreviation transfers :: "world \<Rightarrow> settlement_transfer list" where
  "transfers w \<equiv> settlement_transfers (wd_db w)"

















section \<open>What a worker knows\<close>








section \<open>Steps\<close>

definition outbox_view :: "db \<Rightarrow> settlement_transfer list \<times> settlement_nonce list" where
  "outbox_view s = (settlement_transfers s, settlement_nonces s)"











definition with_transfers :: "settlement_transfer list \<Rightarrow> world \<Rightarrow> world" where
  "with_transfers rs w = w\<lparr>wd_db := (wd_db w)\<lparr>settlement_transfers := rs\<rparr>\<rparr>"



lemma with_transfers_simps [simp]: "transfers (with_transfers rs w) = rs" "wd_signed (with_transfers rs w) = wd_signed w"
  by (simp_all add: with_transfers_def)



section \<open>Allocating a nonce\<close>




section \<open>Signing and sending\<close>


















section \<open>Every job of the settlement\<close>
















section \<open>Workers\<close>

text \<open>The jobs of the settlement, each with a bound on its steps, and what the rest of the market leaves alone.\<close>

definition ignoring :: "'a work \<Rightarrow> unit work" where
  "ignoring j = await j (\<lambda>_. done_with ())"


definition market_step :: "world \<Rightarrow> world \<Rightarrow> bool" where
  "market_step w v \<longleftrightarrow> outbox_view (wd_db v) = outbox_view (wd_db w) \<and> wd_signed v = wd_signed w \<and> wd_sent v = wd_sent w"






section \<open>Bounds\<close>


























section \<open>Examples\<close>

text \<open>One refund that waits to be sent, and workers that take it up.\<close>

definition refund_env :: settle_env where
  "refund_env = \<lparr>se_trade = \<lparr>te_deployment = plain_deployment, te_dev_wallet = None, te_agreed = (\<lambda>_ _. Inr None), te_original = (\<lambda>_ _. False),
       te_ineligible = (\<lambda>_ _ _. None), te_recorded = (\<lambda>_ _. ret ()), te_performed = (\<lambda>_. ret ()), te_decided = (\<lambda>_. ret ())\<rparr>,
     se_variable = (\<lambda>_. None), se_tokens = [], se_signer = Some ''0xa'', se_account = (\<lambda>_. ''0xa''), se_is_address = (\<lambda>_. True),
     se_valid_url = (\<lambda>_. True), se_parse_units = (\<lambda>_ _. 0), se_keccak = (\<lambda>raw. ''#'' @ raw), se_measured = (\<lambda>_ _. Inr ()),
     se_error_text = (\<lambda>_. ''error''), se_bind_date = (\<lambda>t. t)\<rparr>"

definition refund_transfer :: settlement_transfer where
  "refund_transfer = \<lparr>st_id = ''f1'', st_business_key = business_key ''t1'' Kind_refund, st_trade_id = ''t1'', st_kind = Kind_refund,
     st_chain_id = 8453, st_token_address = ''0xC'', st_from_address = ''0xa'', st_to_address = ''0xB'', st_token_amount = 20000000,
     st_usd_amount = 20, st_nonce = None, st_raw_transaction = None, st_tx_hash = None, st_status = St_pending, st_attempts = 0,
     st_last_error = None, st_updated_at = 0, st_confirmed_at = None\<rparr>"

definition refund_world :: world where
  "refund_world = \<lparr>wd_db = empty_db\<lparr>settlement_transfers := [refund_transfer]\<rparr>, wd_signed = [], wd_sent = []\<rparr>"

abbreviation worker :: "unit work" where
  "worker \<equiv> ignoring (processSettlementTransfer refund_env ''f1'')"

text \<open>Evaluation that looks at the rest of a job only when it is reached.\<close>

lemma lazy_job:
  "Access g k = Access g k" "Call q h = Call q h"
  "j = j' \<Longrightarrow> await j f = await j' f" "j = j' \<Longrightarrow> caught j c = caught j' c"
  by simp_all

lemmas lazily = lazy_job sum.case_cong_weak option.case_cong_weak chain_reply.case_cong_weak list.case_cong_weak

lemma refund_env_parts: "se_variable refund_env = (\<lambda>_. None)" "se_tokens refund_env = []" "se_signer refund_env = Some ''0xa''"
  "se_account refund_env = (\<lambda>_. ''0xa'')" "se_keccak refund_env = (\<lambda>raw. ''#'' @ raw)" "se_measured refund_env = (\<lambda>_ _. Inr ())"
  "se_error_text refund_env = (\<lambda>_. ''error'')" "se_bind_date refund_env = (\<lambda>t. t)"
  by (simp_all add: refund_env_def)

lemma lower_a: "lower ''0xa'' = ''0xa''"
  by code_simp

lemmas eval_settlement = processSettlementTransfer_def ignoring_def transfer_at_def query_def transact_def settled_def done_with_def fail_with_def
  resumeTransfer_def payoutAllowed_def signer_def prepareTransfer_def claim_transfer_def update_transfers_def signTransfer_def
  allocateNonce_def allocate_tx_def raiseNonce_def sendTransfer_def confirmTransfer_def broadcast_def ask_text_def ask_number_def ask_receipt_def
  truthy_def either_text_def getRpcUrl_def public_rpc_urls_def TEMPO_CHAIN_ID_def head_def chain_log_def payment_of_def wallet_key_def set_rows_def
  refund_env_parts lower_a refund_transfer_def refund_world_def transaction_def Let_def eval_tx empty_db_tables select_one_def asks_def update_where_def modify_def some_or_def findAcceptedToken_def







section \<open>Two observations\<close>

text \<open>
  The sweep compares \<open>updated_at\<close>, which the schema stores in seconds, with a \<open>Date\<close> inside a raw
  SQL fragment, which no column encodes. If the driver binds it as its milliseconds, every
  transfer that is being signed counts as stale, however recently it was claimed.
\<close>

lemma signing_always_stale:
  "se_bind_date env = (\<lambda>t. t) \<Longrightarrow> st_status r = St_signing \<Longrightarrow> st_updated_at r = to_seconds claimed \<Longrightarrow>
     claimed \<le> now \<Longrightarrow> 1000000 \<le> now \<Longrightarrow> stale_signing env (now - 5 * 60000) r"
  by (simp add: stale_signing_def to_seconds_def)

text \<open>
  And a worker that was taken for stale may be alive. Here the first worker has its transaction
  signed, stored and sent after a second one has claimed the transfer; the second fails and makes
  the transfer pending again; a third, which read the row before all this, then has another
  transaction signed, which replaces the one that was sent. Both have the same nonce, so at most
  one of them is mined; but the row names the one, and the other may be the one.
\<close>

definition three_workers :: "(nat \<times> chain_reply event) list" where
  "three_workers = [(2, Tick 1700000000000), (0, Tick 1700000000000), (0, Tick 1700000001000), (0, Reply (Number 7)),
     (0, Tick 1700000001000), (0, Reply (Text ''gas'')),
     (3, Tick 1700000002000),
     (1, Tick 1700000003000), (1, Tick 1700000003000),
     (0, Reply (Text ''rawA'')), (0, Tick 1700000004000), (0, Tick 1700000004000), (0, Reply (Text ''hashA'')),
     (1, Reply (Refused ''timeout'')), (1, Tick 1700000005000),
     (2, Tick 1700000006000), (2, Reply (Number 7)), (2, Reply (Text ''gas'')), (2, Reply (Text ''rawB'')),
     (2, Tick 1700000007000), (2, Tick 1700000007000), (2, Reply (Text ''hashB''))]"

lemma signed_transaction_replaced:
  "\<exists>ks v n. schedule chain_log market_step [worker, worker, worker, ignoring (processPendingSettlementTransfers refund_env 0)]
       refund_world n ks v
     \<and> wd_sent v = [''rawB'', ''rawA''] \<and> map st_raw_transaction (transfers v) = [Some ''rawB'']"
proof -
  let ?jobs = "[worker, worker, worker, ignoring (processPendingSettlementTransfers refund_env 0)]"
  have "\<exists>ks v. play chain_log three_workers ?jobs refund_world = (ks, v)
     \<and> wd_sent v = [''rawB'', ''rawA''] \<and> map st_raw_transaction (transfers v) = [Some ''rawB'']"
    by (simp add: three_workers_def eval_settlement processPendingSettlementTransfers_def stale_signing_def to_seconds_def cong: lazily)
  then obtain ks v where p: "play chain_log three_workers ?jobs refund_world = (ks, v)"
    and v: "wd_sent v = [''rawB'', ''rawA'']" "map st_raw_transaction (transfers v) = [Some ''rawB'']" by (elim exE conjE) (rule that)
  have "\<forall>(i, e) \<in> set three_workers. i < length ?jobs" by (simp add: three_workers_def)
  from play_schedule [OF p this] obtain n where "schedule chain_log market_step ?jobs refund_world n ks v" ..
  with v show ?thesis by (intro exI conjI)
qed

end
