(* ===== verification/WorkflowPlanning.thy ===== *)
theory WorkflowPlanning
  imports Capabilities "HOL-Library.Char_ord" "HOL-Library.List_Lexorder"
begin

text \<open>
  Workflow plans, \<open>lib/workflow-planning.ts\<close>: a graph of at most sixteen steps is checked
  and brought into its normal form, which is what is stored, hashed and approved.  The depth
  of a step is computed by a memoised depth-first search, as in the code.

  The order of the steps is \<open>localeCompare\<close>, which depends on the locale of the process: it
  is the argument \<open>le\<close>.
\<close>

section \<open>The input\<close>

record workflow_node =
  wn_key :: string
  wn_objective :: string
  wn_required_capabilities :: "string list"
  wn_budget :: int
  wn_depends_on :: "string list"
  wn_deadline_seconds :: int

record workflow_input =
  wi_objective :: string
  wi_max_budget :: int
  wi_deadline_seconds :: int
  wi_nodes :: "workflow_node list"

definition node_key_ok :: "string \<Rightarrow> bool" where
  "node_key_ok k = (case k of [] \<Rightarrow> False | c # cs \<Rightarrow>
     CHR ''a'' \<le> c \<and> c \<le> CHR ''z'' \<and> length cs \<le> 39
       \<and> list_all (\<lambda>x. CHR ''a'' \<le> x \<and> x \<le> CHR ''z'' \<or> CHR ''0'' \<le> x \<and> x \<le> CHR ''9'' \<or> x = CHR ''_'' \<or> x = CHR ''-'') cs)"

definition between :: "nat \<Rightarrow> nat \<Rightarrow> 'a list \<Rightarrow> bool" where
  "between a b xs \<longleftrightarrow> a \<le> length xs \<and> length xs \<le> b"

definition money_ok :: "int \<Rightarrow> bool" where
  "money_ok cents \<longleftrightarrow> 1 \<le> cents \<and> cents \<le> 100000000000"

definition deadline_ok :: "int \<Rightarrow> bool" where
  "deadline_ok t \<longleftrightarrow> 1 \<le> t \<and> t \<le> 30 * 24 * 3600"

text \<open>\<open>workflowNodeInput\<close> and \<open>workflowPlanInput\<close>, after trimming.\<close>

definition workflowNodeInput :: "workflow_node \<Rightarrow> bool" where
  "workflowNodeInput n \<longleftrightarrow> node_key_ok (wn_key n) \<and> between 10 2000 (wn_objective n)
     \<and> between 1 20 (wn_required_capabilities n) \<and> list_all (between 1 80) (wn_required_capabilities n)
     \<and> money_ok (wn_budget n) \<and> length (wn_depends_on n) \<le> 15 \<and> list_all node_key_ok (wn_depends_on n)
     \<and> deadline_ok (wn_deadline_seconds n)"

definition workflowPlanInput :: "workflow_input \<Rightarrow> bool" where
  "workflowPlanInput w \<longleftrightarrow> between 10 2000 (wi_objective w) \<and> money_ok (wi_max_budget w)
     \<and> deadline_ok (wi_deadline_seconds w) \<and> between 1 16 (wi_nodes w) \<and> list_all workflowNodeInput (wi_nodes w)"

section \<open>The depth of a step\<close>

definition node_at :: "workflow_node list \<Rightarrow> string \<Rightarrow> workflow_node option" where
  "node_at nodes key = find (\<lambda>n. wn_key n = key) nodes"

text \<open>Every level of the search visits one more of the steps there are.\<close>

lemma node_at_in: "node_at nodes key = Some n \<Longrightarrow> n \<in> set nodes \<and> wn_key n = key"
  by (auto simp: node_at_def find_Some_iff)

lemma visits_fewer:
  assumes "node_at nodes key = Some n" and "key \<notin> set visiting"
  shows "card (wn_key ` set nodes - set (key # visiting)) < card (wn_key ` set nodes - set visiting)"
proof (rule psubset_card_mono)
  have "key \<in> wn_key ` set nodes" using node_at_in [OF assms(1)] by blast
  then show "wn_key ` set nodes - set (key # visiting) \<subset> wn_key ` set nodes - set visiting" using assms(2) by auto
qed simp

text \<open>
  \<open>depth(key)\<close>, with the steps on the way to \<open>key\<close> and the depths known so far; the search
  returns the depths known after it.
\<close>

function (sequential)
  depthOf :: "workflow_node list \<Rightarrow> string list \<Rightarrow> (string \<times> nat) list \<Rightarrow> string \<Rightarrow> string + (nat \<times> (string \<times> nat) list)" and
  depthsOf :: "workflow_node list \<Rightarrow> string list \<Rightarrow> (string \<times> nat) list \<Rightarrow> string list \<Rightarrow> string + (nat list \<times> (string \<times> nat) list)"
where
  "depthOf nodes visiting memo key =
    (if key \<in> set visiting then Inl ''WORKFLOW_CYCLE''
     else case map_of memo key of Some v \<Rightarrow> Inr (v, memo) | None \<Rightarrow>
       (case node_at nodes key of
          None \<Rightarrow> Inl ''WORKFLOW_UNKNOWN_DEPENDENCY''
        | Some node \<Rightarrow>
            if \<not> distinct (wn_depends_on node) then Inl ''WORKFLOW_DUPLICATE_DEPENDENCY''
            else (case depthsOf nodes (key # visiting) memo (wn_depends_on node) of
               Inl e \<Rightarrow> Inl e
             | Inr (depths, memo') \<Rightarrow>
                 (let value = (if depths = [] then 0 else 1 + fold max depths 0) in
                  if 3 < value then Inl ''WORKFLOW_DEPTH_LIMIT'' else Inr (value, (key, value) # memo')))))"
| "depthsOf nodes visiting memo [] = Inr ([], memo)"
| "depthsOf nodes visiting memo (d # ds) =
    (case depthOf nodes visiting memo d of
       Inl e \<Rightarrow> Inl e
     | Inr (v, memo') \<Rightarrow> (case depthsOf nodes visiting memo' ds of
         Inl e \<Rightarrow> Inl e | Inr (vs, memo'') \<Rightarrow> Inr (v # vs, memo'')))"
  by pat_completeness auto

termination
  by (relation "measures [\<lambda>x. case x of Inl (nodes, visiting, _, _) \<Rightarrow> card (wn_key ` set nodes - set visiting)
       | Inr (nodes, visiting, _, _) \<Rightarrow> card (wn_key ` set nodes - set visiting),
      \<lambda>x. case x of Inl _ \<Rightarrow> 0 | Inr (_, _, _, ds) \<Rightarrow> length ds]")
    (auto simp: visits_fewer simp del: set_simps)

section \<open>The normal form\<close>

record planned_node =
  pn_key :: string
  pn_objective :: string
  pn_required_capabilities :: "string list"
  pn_budget_minor :: int
  pn_depends_on :: "string list"
  pn_deadline_seconds :: int
  pn_depth :: nat

record workflow_plan =
  wp_objective :: string
  wp_max_budget_minor :: int
  wp_deadline_seconds :: int
  wp_nodes :: "planned_node list"
  wp_allocated_minor :: int

text \<open>\<open>[...new Set(xs)]\<close>.\<close>

definition unique_of :: "'a list \<Rightarrow> 'a list" where
  "unique_of xs = rev (remdups (rev xs))"

fun normalCapabilities :: "string list \<Rightarrow> string + string list" where
  "normalCapabilities [] = Inr []"
| "normalCapabilities (c # cs) = (case normalizeCapability c of
     None \<Rightarrow> Inl ''WORKFLOW_UNKNOWN_CAPABILITY''
   | Some i \<Rightarrow> (case normalCapabilities cs of Inl e \<Rightarrow> Inl e | Inr rest \<Rightarrow> Inr (i # rest)))"

definition deadline_conflict :: "workflow_node list \<Rightarrow> workflow_node \<Rightarrow> bool" where
  "deadline_conflict nodes node \<longleftrightarrow> list_ex (\<lambda>d. case node_at nodes d of
     None \<Rightarrow> False | Some p \<Rightarrow> wn_deadline_seconds node < wn_deadline_seconds p) (wn_depends_on node)"

definition planNode :: "workflow_input \<Rightarrow> workflow_node \<Rightarrow> (string \<times> nat) list \<Rightarrow> int
    \<Rightarrow> string + (planned_node \<times> (string \<times> nat) list \<times> int)" where
  "planNode w node memo allocated = (case depthOf (wi_nodes w) [] memo (wn_key node) of
     Inl e \<Rightarrow> Inl e
   | Inr (depth, memo') \<Rightarrow>
      if wi_deadline_seconds w < wn_deadline_seconds node then Inl ''WORKFLOW_DEADLINE_EXCEEDED''
      else if deadline_conflict (wi_nodes w) node then Inl ''WORKFLOW_DEPENDENCY_DEADLINE''
      else (case normalCapabilities (wn_required_capabilities node) of
         Inl e \<Rightarrow> Inl e
       | Inr capabilities \<Rightarrow>
          if wi_max_budget w < allocated + wn_budget node then Inl ''WORKFLOW_BUDGET_EXCEEDED''
          else Inr (\<lparr>pn_key = wn_key node, pn_objective = wn_objective node, pn_required_capabilities = unique_of capabilities,
                 pn_budget_minor = wn_budget node, pn_depends_on = sort (wn_depends_on node),
                 pn_deadline_seconds = wn_deadline_seconds node, pn_depth = depth\<rparr>, memo', allocated + wn_budget node)))"

fun planNodes :: "workflow_input \<Rightarrow> workflow_node list \<Rightarrow> (string \<times> nat) list \<Rightarrow> int \<Rightarrow> string + (planned_node list \<times> int)" where
  "planNodes w [] memo allocated = Inr ([], allocated)"
| "planNodes w (node # nodes) memo allocated = (case planNode w node memo allocated of
     Inl e \<Rightarrow> Inl e
   | Inr (p, memo', allocated') \<Rightarrow> (case planNodes w nodes memo' allocated' of
       Inl e \<Rightarrow> Inl e | Inr (ps, spent) \<Rightarrow> Inr (p # ps, spent)))"

text \<open>A stable sort.\<close>

fun insert_node :: "(string \<Rightarrow> string \<Rightarrow> bool) \<Rightarrow> planned_node \<Rightarrow> planned_node list \<Rightarrow> planned_node list" where
  "insert_node le x [] = [x]"
| "insert_node le x (y # ys) = (if le (pn_key x) (pn_key y) then x # y # ys else y # insert_node le x ys)"

definition sort_nodes :: "(string \<Rightarrow> string \<Rightarrow> bool) \<Rightarrow> planned_node list \<Rightarrow> planned_node list" where
  "sort_nodes le ps = foldr (insert_node le) ps []"

definition normalizeWorkflow :: "(string \<Rightarrow> string \<Rightarrow> bool) \<Rightarrow> workflow_input \<Rightarrow> string + workflow_plan" where
  "normalizeWorkflow le w =
    (if \<not> distinct (map wn_key (wi_nodes w)) then Inl ''WORKFLOW_DUPLICATE_NODE''
     else (case planNodes w (wi_nodes w) [] 0 of
       Inl e \<Rightarrow> Inl e
     | Inr (ps, spent) \<Rightarrow> Inr \<lparr>wp_objective = wi_objective w, wp_max_budget_minor = wi_max_budget w,
          wp_deadline_seconds = wi_deadline_seconds w, wp_nodes = sort_nodes le ps, wp_allocated_minor = spent\<rparr>))"

section \<open>The stored plan\<close>

datatype workflow_state = Workflow_planned | Workflow_cancelled

text \<open>\<open>plan_json\<close> and the lists of a step are kept as the values they are the JSON of.\<close>

record workflow =
  wf_id :: string
  wf_buyer_id :: string
  wf_client_reference :: string
  wf_objective :: string
  wf_plan :: workflow_plan
  wf_max_budget_minor :: int
  wf_deadline_seconds :: int
  wf_state :: workflow_state

record workflow_node_row =
  wr_id :: string
  wr_workflow_id :: string
  wr_node :: planned_node

record workflow_tables =
  workflows :: "workflow list"
  workflow_nodes :: "workflow_node_row list"

definition node_of :: "planned_node \<Rightarrow> workflow_node" where
  "node_of p = \<lparr>wn_key = pn_key p, wn_objective = pn_objective p, wn_required_capabilities = pn_required_capabilities p,
     wn_budget = pn_budget_minor p, wn_depends_on = pn_depends_on p, wn_deadline_seconds = pn_deadline_seconds p\<rparr>"

definition input_of :: "workflow_plan \<Rightarrow> workflow_input" where
  "input_of p = \<lparr>wi_objective = wp_objective p, wi_max_budget = wp_max_budget_minor p,
     wi_deadline_seconds = wp_deadline_seconds p, wi_nodes = map node_of (wp_nodes p)\<rparr>"

record workflow_snapshot =
  ws_id :: string
  ws_buyer_id :: string
  ws_plan :: workflow_plan

text \<open>The comparisons of canonical texts are comparisons of the values.\<close>

definition workflowSnapshot :: "(string \<Rightarrow> string \<Rightarrow> bool) \<Rightarrow> workflow \<Rightarrow> workflow_node_row list \<Rightarrow> string + workflow_snapshot" where
  "workflowSnapshot le w rows =
    (let stored = wf_plan w in
     if \<not> between 8 200 (wf_client_reference w) \<or> \<not> workflowPlanInput (input_of stored) then Inl ''WORKFLOW_CONTRACT_INVALID''
     else (case normalizeWorkflow le (input_of stored) of
       Inl e \<Rightarrow> Inl ''WORKFLOW_CONTRACT_INVALID''
     | Inr normalized \<Rightarrow>
         if stored \<noteq> normalized \<or> sort_nodes le (map wr_node rows) \<noteq> wp_nodes normalized
           \<or> list_ex (\<lambda>r. wr_workflow_id r \<noteq> wf_id w) rows \<or> wf_objective w \<noteq> wp_objective normalized
           \<or> wf_max_budget_minor w \<noteq> wp_max_budget_minor normalized \<or> wf_deadline_seconds w \<noteq> wp_deadline_seconds normalized
         then Inl ''WORKFLOW_CONTRACT_INVALID''
         else Inr \<lparr>ws_id = wf_id w, ws_buyer_id = wf_buyer_id w, ws_plan = normalized\<rparr>))"

definition nodes_of :: "string \<Rightarrow> workflow_tables \<Rightarrow> workflow_node_row list" where
  "nodes_of i s = filter (\<lambda>r. wr_workflow_id r = i) (workflow_nodes s)"

text \<open>
  The requests.  The answer is the snapshot that the plan hash of the response is taken of,
  and whether the request was a repetition; an error is the code and the status.
\<close>

type_synonym workflow_answer = "(string \<times> nat) + (workflow_snapshot \<times> bool)"

definition answer_of :: "(string \<Rightarrow> string \<Rightarrow> bool) \<Rightarrow> workflow \<Rightarrow> bool \<Rightarrow> workflow_tables \<Rightarrow> workflow_answer" where
  "answer_of le w repeated s = (case workflowSnapshot le w (nodes_of (wf_id w) s) of
     Inl e \<Rightarrow> Inl (e, 500) | Inr x \<Rightarrow> Inr (x, repeated))"

definition replayWorkflow :: "(string \<Rightarrow> string \<Rightarrow> bool) \<Rightarrow> string \<Rightarrow> string \<Rightarrow> workflow_plan \<Rightarrow> workflow_tables \<Rightarrow> workflow_answer option" where
  "replayWorkflow le buyer reference plan s = (case find (\<lambda>w. wf_client_reference w = reference) (workflows s) of
     None \<Rightarrow> None
   | Some prior \<Rightarrow> Some (if wf_buyer_id prior \<noteq> buyer \<or> wf_plan prior \<noteq> plan then Inl (''IDEMPOTENCY_CONFLICT'', 409)
       else answer_of le prior True s))"

text \<open>
  The insertion is one transaction, which fails as a whole when the reference or an id is
  taken.  \<open>node_ids\<close> are the ids that the steps are given.
\<close>

definition insertWorkflow :: "workflow \<Rightarrow> (string \<Rightarrow> string) \<Rightarrow> workflow_tables \<Rightarrow> workflow_tables option" where
  "insertWorkflow w node_ids s =
    (let rows = map (\<lambda>p. \<lparr>wr_id = node_ids (pn_key p), wr_workflow_id = wf_id w, wr_node = p\<rparr>) (wp_nodes (wf_plan w)) in
     if list_ex (\<lambda>x. wf_id x = wf_id w \<or> wf_client_reference x = wf_client_reference w) (workflows s)
       \<or> \<not> distinct (map wr_id (workflow_nodes s @ rows)) then None
     else Some (s\<lparr>workflows := workflows s @ [w], workflow_nodes := workflow_nodes s @ rows\<rparr>))"

definition postWorkflow ::
  "(string \<Rightarrow> string \<Rightarrow> bool) \<Rightarrow> bool \<Rightarrow> bool \<Rightarrow> string \<Rightarrow> string \<Rightarrow> (string \<Rightarrow> string) \<Rightarrow> string \<Rightarrow> workflow_input \<Rightarrow> workflow_tables
     \<Rightarrow> workflow_answer \<times> workflow_tables" where
  "postWorkflow le enabled admitted buyer fresh node_ids reference input s =
    (if \<not> between 8 200 reference \<or> \<not> workflowPlanInput input then (Inl (''INVALID_WORKFLOW_REQUEST'', 400), s)
     else (case normalizeWorkflow le input of
       Inl e \<Rightarrow> (Inl (e, 400), s)
     | Inr plan \<Rightarrow> (case replayWorkflow le buyer reference plan s of
         Some a \<Rightarrow> (a, s)
       | None \<Rightarrow>
           if \<not> enabled then (Inl (''WORKFLOW_PLANNING_DISABLED'', 503), s)
           else if \<not> admitted then (Inl (''WORKFLOW_PLAN_RATE_LIMIT'', 429), s)
           else (let w = \<lparr>wf_id = fresh, wf_buyer_id = buyer, wf_client_reference = reference, wf_objective = wp_objective plan,
                   wf_plan = plan, wf_max_budget_minor = wp_max_budget_minor plan,
                   wf_deadline_seconds = wp_deadline_seconds plan, wf_state = Workflow_planned\<rparr> in
             (case insertWorkflow w node_ids s of
                None \<Rightarrow> (Inl (''INTERNAL_ERROR'', 500), s)
              | Some t \<Rightarrow> (case answer_of le w False t of
                  Inl e \<Rightarrow> (Inl (''INTERNAL_ERROR'', 500), s) | Inr a \<Rightarrow> (Inr a, t)))))))"

definition cancelWorkflow :: "(string \<Rightarrow> string \<Rightarrow> bool) \<Rightarrow> string \<Rightarrow> string \<Rightarrow> workflow_tables \<Rightarrow> workflow_answer \<times> workflow_tables" where
  "cancelWorkflow le buyer i s =
    (let hit = (\<lambda>w. wf_id w = i \<and> wf_buyer_id w = buyer \<and> wf_state w = Workflow_planned);
         cancelled = (\<lambda>w. w\<lparr>wf_state := Workflow_cancelled\<rparr>) in
     case find hit (workflows s) of
       Some w \<Rightarrow> (let t = s\<lparr>workflows := map (\<lambda>x. if hit x then cancelled x else x) (workflows s)\<rparr> in
          (answer_of le (cancelled w) False t, t))
     | None \<Rightarrow> (case find (\<lambda>w. wf_id w = i \<and> wf_buyer_id w = buyer) (workflows s) of
          Some prior \<Rightarrow> (answer_of le prior True s, s)
        | None \<Rightarrow> (Inl (''WORKFLOW_NOT_FOUND'', 404), s)))"

section \<open>Chains of dependencies\<close>

definition depends :: "workflow_node list \<Rightarrow> (string \<times> string) set" where
  "depends nodes = {(k, d). \<exists>n. node_at nodes k = Some n \<and> d \<in> set (wn_depends_on n)}"

text \<open>\<open>n\<close> dependencies one after the other, from \<open>k\<close>.\<close>

definition chain :: "workflow_node list \<Rightarrow> nat \<Rightarrow> string \<Rightarrow> bool" where
  "chain nodes n k \<longleftrightarrow> (\<exists>d. (k, d) \<in> depends nodes ^^ n)"

lemma chain_0 [simp]: "chain nodes 0 k"
  by (simp add: chain_def)

lemma chain_Suc: "node_at nodes k = Some n \<Longrightarrow> chain nodes (Suc m) k \<longleftrightarrow> (\<exists>d \<in> set (wn_depends_on n). chain nodes m d)"
proof -
  assume "node_at nodes k = Some n"
  then have "(k, e) \<in> depends nodes \<longleftrightarrow> e \<in> set (wn_depends_on n)" for e by (simp add: depends_def)
  then show ?thesis unfolding chain_def using relpow_Suc_D2 relpow_Suc_I2 by metis
qed

lemma chain_prefix: "chain nodes (a + b) k \<Longrightarrow> chain nodes a k"
  unfolding chain_def relpow_add by blast

lemma chain_mono: "chain nodes b k \<Longrightarrow> a \<le> b \<Longrightarrow> chain nodes a k"
  using chain_prefix [of nodes a "b - a" k] by simp

lemma cycle_chains:
  assumes "(k, k) \<in> (depends nodes)\<^sup>+"
  shows "chain nodes n k"
proof -
  obtain m where m: "0 < m" "(k, k) \<in> depends nodes ^^ m" using assms trancl_power by blast
  have "(k, k) \<in> depends nodes ^^ (j * m)" for j
    by (induction j) (use m(2) in \<open>auto simp: relpow_add\<close>)
  from this [of n] have "chain nodes (n * m) k" unfolding chain_def by blast
  then show ?thesis by (rule chain_mono) (use m(1) in simp)
qed

text \<open>The depth of a step is the length of the longest chain from it.\<close>

definition longest :: "workflow_node list \<Rightarrow> string \<Rightarrow> nat \<Rightarrow> bool" where
  "longest nodes k v \<longleftrightarrow> chain nodes v k \<and> \<not> chain nodes (Suc v) k"

lemma longest_unique: "longest nodes k v \<Longrightarrow> longest nodes k u \<Longrightarrow> v = u"
  using chain_mono unfolding longest_def by (metis not_less_eq_eq nle_le)

lemma longest_le: "longest nodes k v \<Longrightarrow> chain nodes n k \<longleftrightarrow> n \<le> v"
  using chain_mono unfolding longest_def by (metis not_less_eq_eq)

lemma fold_max: "fold max xs (m :: nat) = Max (insert m (set xs))"
  using Max.set_eq_fold [of m xs] by simp

lemma list_all2_both:
  "list_all2 P xs ys \<Longrightarrow> y \<in> set ys \<Longrightarrow> \<exists>x \<in> set xs. P x y"
  "list_all2 P xs ys \<Longrightarrow> x \<in> set xs \<Longrightarrow> \<exists>y \<in> set ys. P x y"
  by (induction rule: list_all2_induct) auto

lemma longest_step:
  assumes "node_at nodes k = Some n" and "list_all2 (longest nodes) (wn_depends_on n) vs"
  shows "longest nodes k (if vs = [] then 0 else 1 + fold max vs 0)"
proof (cases "vs = []")
  case True
  with assms show ?thesis by (simp add: longest_def chain_Suc)
next
  case False
  let ?m = "fold max vs 0"
  have le: "v \<le> ?m" if "v \<in> set vs" for v using that by (simp add: fold_max)
  have "?m \<in> set vs"
  proof -
    have "?m \<in> insert 0 (set vs)" unfolding fold_max by (rule Max_in) simp_all
    moreover have "?m = 0 \<Longrightarrow> ?m \<in> set vs" using le False by (metis le_zero_eq list.set_sel(1))
    ultimately show ?thesis by auto
  qed
  then obtain d where d: "d \<in> set (wn_depends_on n)" "longest nodes d ?m"
    using list_all2_both(1) [OF assms(2)] by blast
  have "\<not> chain nodes (Suc ?m) d" if in_deps: "d \<in> set (wn_depends_on n)" for d
  proof -
    obtain v where v: "v \<in> set vs" "longest nodes d v"
      using list_all2_both(2) [OF assms(2) in_deps] by blast
    with le show ?thesis by (simp add: longest_le not_less_eq_eq)
  qed
  moreover have "chain nodes ?m d" using d(2) by (simp add: longest_def)
  ultimately show ?thesis using False d(1) assms(1) by (auto simp: longest_def chain_Suc)
qed

section \<open>The search is right\<close>

definition step_ok :: "workflow_node list \<Rightarrow> string \<Rightarrow> bool" where
  "step_ok nodes k \<longleftrightarrow> (\<exists>n. node_at nodes k = Some n \<and> distinct (wn_depends_on n)
     \<and> (\<forall>d \<in> set (wn_depends_on n). node_at nodes d \<noteq> None))"

definition memo_ok :: "workflow_node list \<Rightarrow> (string \<times> nat) list \<Rightarrow> bool" where
  "memo_ok nodes memo \<longleftrightarrow> (\<forall>(k, v) \<in> set memo. longest nodes k v \<and> v \<le> 3 \<and> step_ok nodes k)"

lemma depthOf_sound:
  "memo_ok nodes memo \<Longrightarrow> depthOf nodes visiting memo key = Inr (v, memo') \<Longrightarrow>
     longest nodes key v \<and> v \<le> 3 \<and> step_ok nodes key \<and> memo_ok nodes memo'"
  "memo_ok nodes memo \<Longrightarrow> depthsOf nodes visiting memo ds = Inr (vs, memo') \<Longrightarrow>
     list_all2 (longest nodes) ds vs \<and> (\<forall>d \<in> set ds. step_ok nodes d) \<and> memo_ok nodes memo'"
proof (induction nodes visiting memo key and nodes visiting memo ds arbitrary: v memo' and vs memo' rule: depthOf_depthsOf.induct)
  case (1 nodes visiting memo key)
  show ?case
  proof (cases "map_of memo key")
    case (Some u)
    then have "(key, u) \<in> set memo" by (rule map_of_SomeD)
    with 1 Some show ?thesis by (auto simp: memo_ok_def split: if_splits)
  next
    case None
    with "1.prems"(2) obtain n vs m where n: "node_at nodes key = Some n" "distinct (wn_depends_on n)"
      and run: "depthsOf nodes (key # visiting) memo (wn_depends_on n) = Inr (vs, m)"
      and v: "v = (if vs = [] then 0 else 1 + fold max vs 0)" "v \<le> 3" "memo' = (key, v) # m" and k: "key \<notin> set visiting"
      by (auto simp: Let_def split: if_splits option.splits sum.splits)
    have IH: "list_all2 (longest nodes) (wn_depends_on n) vs \<and> (\<forall>d \<in> set (wn_depends_on n). step_ok nodes d) \<and> memo_ok nodes m"
      using "1.IH" [OF k None n(1) _ "1.prems"(1) run] n(2) by simp
    then have "longest nodes key v" using longest_step [OF n(1)] v(1) by simp
    moreover have "step_ok nodes key" using n IH by (auto simp: step_ok_def)
    ultimately show ?thesis using IH v by (simp add: memo_ok_def)
  qed
next
  case (3 nodes visiting memo d ds)
  then show ?case by (fastforce split: sum.splits)
qed auto

definition sound_graph :: "workflow_node list \<Rightarrow> bool" where
  "sound_graph nodes \<longleftrightarrow> (\<forall>n \<in> set nodes. step_ok nodes (wn_key n)) \<and> (\<forall>k. \<not> chain nodes 4 k)"

lemma depthOf_complete:
  "sound_graph nodes \<Longrightarrow> memo_ok nodes memo \<Longrightarrow> node_at nodes key \<noteq> None \<Longrightarrow> \<forall>k \<in> set visiting. (k, key) \<in> (depends nodes)\<^sup>+ \<Longrightarrow>
     \<exists>v memo'. depthOf nodes visiting memo key = Inr (v, memo')"
  "sound_graph nodes \<Longrightarrow> memo_ok nodes memo \<Longrightarrow> \<forall>d \<in> set ds. node_at nodes d \<noteq> None \<Longrightarrow>
     \<forall>d \<in> set ds. \<forall>k \<in> set visiting. (k, d) \<in> (depends nodes)\<^sup>+ \<Longrightarrow> \<exists>vs memo'. depthsOf nodes visiting memo ds = Inr (vs, memo')"
proof (induction nodes visiting memo key and nodes visiting memo ds rule: depthOf_depthsOf.induct)
  case (1 nodes visiting memo key)
  obtain n where n: "node_at nodes key = Some n" using "1.prems"(3) by auto
  then have "step_ok nodes key" using "1.prems"(1) node_at_in unfolding sound_graph_def by blast
  then have deps: "distinct (wn_depends_on n)" "\<forall>d \<in> set (wn_depends_on n). node_at nodes d \<noteq> None"
    using n by (simp_all add: step_ok_def)
  have k: "key \<notin> set visiting"
    using "1.prems"(1,4) cycle_chains unfolding sound_graph_def by blast
  show ?case
  proof (cases "map_of memo key")
    case None
    have edge: "(key, d) \<in> (depends nodes)\<^sup>+" if "d \<in> set (wn_depends_on n)" for d
      using that n by (auto simp: depends_def)
    then have "\<forall>d \<in> set (wn_depends_on n). \<forall>k \<in> set (key # visiting). (k, d) \<in> (depends nodes)\<^sup>+"
      using "1.prems"(4) by (auto intro: trancl_trans)
    then obtain vs m where run: "depthsOf nodes (key # visiting) memo (wn_depends_on n) = Inr (vs, m)"
      using "1.IH" [OF k None n _ "1.prems"(1,2) deps(2)] deps(1) by blast
    define u where "u = (if vs = [] then 0 else 1 + fold max vs 0)"
    have "longest nodes key u"
      unfolding u_def using longest_step [OF n] depthOf_sound(2) [OF "1.prems"(2) run] by blast
    from longest_le [OF this, of 4] have "\<not> 3 < u" using "1.prems"(1) by (simp add: sound_graph_def)
    with k None n deps(1) run show ?thesis by (simp add: Let_def u_def [symmetric])
  qed (use k in simp)
next
  case (3 nodes visiting memo d ds)
  then obtain v m where d: "depthOf nodes visiting memo d = Inr (v, m)" by fastforce
  with "3.prems"(2) have "memo_ok nodes m" using depthOf_sound(1) by blast
  with 3 d show ?case by fastforce
qed auto

section \<open>When a plan is accepted\<close>

text \<open>The rules, without the search.\<close>

definition admissible :: "workflow_input \<Rightarrow> bool" where
  "admissible w \<longleftrightarrow> distinct (map wn_key (wi_nodes w)) \<and> sound_graph (wi_nodes w)
     \<and> (\<forall>n \<in> set (wi_nodes w). wn_deadline_seconds n \<le> wi_deadline_seconds w \<and> \<not> deadline_conflict (wi_nodes w) n
          \<and> (\<forall>c \<in> set (wn_required_capabilities n). normalizeCapability c \<noteq> None))
     \<and> sum_list (map wn_budget (wi_nodes w)) \<le> wi_max_budget w"

definition capabilities_of :: "string list \<Rightarrow> string list" where
  "capabilities_of cs = unique_of (map (\<lambda>c. the (normalizeCapability c)) cs)"

definition planned :: "workflow_node list \<Rightarrow> workflow_node \<Rightarrow> planned_node \<Rightarrow> bool" where
  "planned nodes n p \<longleftrightarrow> pn_key p = wn_key n \<and> pn_objective p = wn_objective n
     \<and> pn_required_capabilities p = capabilities_of (wn_required_capabilities n) \<and> pn_budget_minor p = wn_budget n
     \<and> pn_depends_on p = sort (wn_depends_on n) \<and> pn_deadline_seconds p = wn_deadline_seconds n
     \<and> longest nodes (wn_key n) (pn_depth p)"

lemma normalCapabilities_known:
  "(\<forall>c \<in> set cs. normalizeCapability c \<noteq> None) \<Longrightarrow> normalCapabilities cs = Inr (map (\<lambda>c. the (normalizeCapability c)) cs)"
  by (induction cs) auto

lemma normalCapabilities_all: "normalCapabilities cs = Inr is \<Longrightarrow> \<forall>c \<in> set cs. normalizeCapability c \<noteq> None"
  by (induction cs arbitrary: "is") (auto split: option.splits sum.splits)

lemma normalCapabilities_iff:
  "normalCapabilities cs = Inr is \<longleftrightarrow> (\<forall>c \<in> set cs. normalizeCapability c \<noteq> None) \<and> is = map (\<lambda>c. the (normalizeCapability c)) cs"
  using normalCapabilities_known [of cs] normalCapabilities_all [of cs "is"] by auto

lemma planNodes_sound:
  "memo_ok (wi_nodes w) memo \<Longrightarrow> planNodes w ns memo a = Inr (ps, t) \<Longrightarrow>
     list_all2 (planned (wi_nodes w)) ns ps \<and> t = a + sum_list (map wn_budget ns) \<and> (ns \<noteq> [] \<longrightarrow> t \<le> wi_max_budget w)
     \<and> (\<forall>n \<in> set ns. step_ok (wi_nodes w) (wn_key n) \<and> (\<exists>v \<le> 3. longest (wi_nodes w) (wn_key n) v)
          \<and> wn_deadline_seconds n \<le> wi_deadline_seconds w \<and> \<not> deadline_conflict (wi_nodes w) n
          \<and> (\<forall>c \<in> set (wn_required_capabilities n). normalizeCapability c \<noteq> None))"
proof (induction ns arbitrary: memo a ps t)
  case (Cons n ns)
  from Cons.prems(2) obtain p m b qs where one: "planNode w n memo a = Inr (p, m, b)"
    and rest: "planNodes w ns m b = Inr (qs, t)" and ps: "ps = p # qs"
    by (auto split: sum.splits prod.splits)
  from one obtain d caps where d: "depthOf (wi_nodes w) [] memo (wn_key n) = Inr (d, m)"
    and caps: "normalCapabilities (wn_required_capabilities n) = Inr caps"
    and c: "wn_deadline_seconds n \<le> wi_deadline_seconds w" "\<not> deadline_conflict (wi_nodes w) n"
      "b = a + wn_budget n" "b \<le> wi_max_budget w"
    and p: "p = \<lparr>pn_key = wn_key n, pn_objective = wn_objective n, pn_required_capabilities = unique_of caps,
        pn_budget_minor = wn_budget n, pn_depends_on = sort (wn_depends_on n),
        pn_deadline_seconds = wn_deadline_seconds n, pn_depth = d\<rparr>"
    by (auto simp: planNode_def split: sum.splits prod.splits if_splits)
  note sound = depthOf_sound(1) [OF Cons.prems(1) d]
  then have "memo_ok (wi_nodes w) m" by simp
  from Cons.IH [OF this rest] have IH: "list_all2 (planned (wi_nodes w)) ns qs \<and> t = b + sum_list (map wn_budget ns)
     \<and> (ns \<noteq> [] \<longrightarrow> t \<le> wi_max_budget w)
     \<and> (\<forall>n \<in> set ns. step_ok (wi_nodes w) (wn_key n) \<and> (\<exists>v \<le> 3. longest (wi_nodes w) (wn_key n) v)
          \<and> wn_deadline_seconds n \<le> wi_deadline_seconds w \<and> \<not> deadline_conflict (wi_nodes w) n
          \<and> (\<forall>c \<in> set (wn_required_capabilities n). normalizeCapability c \<noteq> None))" .
  have "planned (wi_nodes w) n p"
    using sound caps by (simp add: planned_def p capabilities_of_def normalCapabilities_iff)
  moreover have "\<forall>c \<in> set (wn_required_capabilities n). normalizeCapability c \<noteq> None"
    using caps by (simp add: normalCapabilities_iff)
  moreover have "ns = [] \<Longrightarrow> t \<le> wi_max_budget w" using IH c(4) by simp
  ultimately show ?case using IH sound c(1-3) unfolding ps by auto
qed simp

lemma planNodes_complete:
  assumes "admissible w" and "\<forall>n \<in> set (wi_nodes w). 0 \<le> wn_budget n"
  shows "memo_ok (wi_nodes w) memo \<Longrightarrow> wi_nodes w = done' @ ns \<Longrightarrow> a = sum_list (map wn_budget done') \<Longrightarrow>
     \<exists>ps t. planNodes w ns memo a = Inr (ps, t)"
proof (induction ns arbitrary: memo a done')
  case (Cons n ns)
  have n: "n \<in> set (wi_nodes w)" using Cons.prems(2) by simp
  have G: "sound_graph (wi_nodes w)" using assms(1) by (simp add: admissible_def)
  with n have "node_at (wi_nodes w) (wn_key n) \<noteq> None" by (auto simp: sound_graph_def step_ok_def)
  from depthOf_complete(1) [OF G Cons.prems(1) this, of "[]"]
  obtain d m where d: "depthOf (wi_nodes w) [] memo (wn_key n) = Inr (d, m)" by auto
  have "0 \<le> sum_list (map wn_budget ns)" using assms(2) Cons.prems(2) by (intro sum_list_nonneg) auto
  then have "a + wn_budget n \<le> wi_max_budget w"
    using assms(1) unfolding admissible_def Cons.prems(2) Cons.prems(3) by simp
  then have one: "\<exists>p. planNode w n memo a = Inr (p, m, a + wn_budget n)"
    using assms(1) n d unfolding admissible_def planNode_def by (auto simp: normalCapabilities_known)
  have "memo_ok (wi_nodes w) m" using depthOf_sound(1) [OF Cons.prems(1) d] by simp
  from Cons.IH [OF this, of "done' @ [n]" "a + wn_budget n"] Cons.prems(2,3) one show ?case by fastforce
qed simp

lemma node_at_iff: "distinct (map wn_key nodes) \<Longrightarrow> node_at nodes k = Some n \<longleftrightarrow> n \<in> set nodes \<and> wn_key n = k"
proof -
  assume d: "distinct (map wn_key nodes)"
  have "node_at nodes k = Some n" if "n \<in> set nodes" "wn_key n = k" for n
    unfolding node_at_def using find_unique [OF d that(1)] that(2) by simp
  then show ?thesis using node_at_in by blast
qed

lemma depends_starts: "(k, d) \<in> depends nodes \<Longrightarrow> k \<in> wn_key ` set nodes"
  using node_at_in by (fastforce simp: depends_def)

lemma sound_graph_nodes:
  assumes "\<And>n. n \<in> set nodes \<Longrightarrow> step_ok nodes (wn_key n) \<and> (\<exists>v \<le> 3. longest nodes (wn_key n) v)"
  shows "sound_graph nodes"
proof -
  have "\<not> chain nodes 4 k" for k
  proof
    assume c: "chain nodes 4 k"
    then obtain d where "(k, d) \<in> depends nodes ^^ Suc 3" by (auto simp: chain_def eval_nat_numeral)
    then obtain e where "(k, e) \<in> depends nodes" by (meson relpow_Suc_D2)
    from depends_starts [OF this] obtain n where n: "n \<in> set nodes" "k = wn_key n" by blast
    with assms obtain v where "v \<le> 3" "longest nodes k v" by blast
    with c longest_le [of nodes k v 4] show False by simp
  qed
  with assms show ?thesis by (simp add: sound_graph_def)
qed

lemma normalize_sound:
  assumes "normalizeWorkflow le w = Inr p" and "wi_nodes w \<noteq> []"
  shows "admissible w" and "\<exists>ps. list_all2 (planned (wi_nodes w)) (wi_nodes w) ps \<and> p = \<lparr>wp_objective = wi_objective w,
     wp_max_budget_minor = wi_max_budget w, wp_deadline_seconds = wi_deadline_seconds w, wp_nodes = sort_nodes le ps,
     wp_allocated_minor = sum_list (map wn_budget (wi_nodes w))\<rparr>"
proof -
  from assms obtain ps t where d: "distinct (map wn_key (wi_nodes w))" and run: "planNodes w (wi_nodes w) [] 0 = Inr (ps, t)"
    and p: "p = \<lparr>wp_objective = wi_objective w, wp_max_budget_minor = wi_max_budget w, wp_deadline_seconds = wi_deadline_seconds w,
      wp_nodes = sort_nodes le ps, wp_allocated_minor = t\<rparr>"
    by (auto simp: normalizeWorkflow_def split: if_splits sum.splits prod.splits)
  have "memo_ok (wi_nodes w) []" by (simp add: memo_ok_def)
  note sound = planNodes_sound [OF this run]
  then show "\<exists>ps. list_all2 (planned (wi_nodes w)) (wi_nodes w) ps \<and> p = \<lparr>wp_objective = wi_objective w,
     wp_max_budget_minor = wi_max_budget w, wp_deadline_seconds = wi_deadline_seconds w, wp_nodes = sort_nodes le ps,
     wp_allocated_minor = sum_list (map wn_budget (wi_nodes w))\<rparr>" using p by auto
  have "sound_graph (wi_nodes w)" by (rule sound_graph_nodes) (use sound in blast)
  with sound d assms(2) show "admissible w" by (auto simp: admissible_def)
qed

lemma normalize_complete:
  assumes "admissible w" and "\<forall>n \<in> set (wi_nodes w). 0 \<le> wn_budget n"
  shows "\<exists>p. normalizeWorkflow le w = Inr p"
proof -
  have "memo_ok (wi_nodes w) []" by (simp add: memo_ok_def)
  from planNodes_complete [OF assms this, of "[]" "wi_nodes w" 0]
  obtain ps t where "planNodes w (wi_nodes w) [] 0 = Inr (ps, t)" by auto
  then show ?thesis using assms(1) by (simp add: normalizeWorkflow_def admissible_def)
qed

text \<open>
  C17. A plan is accepted exactly when it obeys the rules: its keys are distinct; the dependencies of
  a step are distinct and are steps of the plan; no chain has more than three dependencies (so there
  is no cycle); no step outlives the workflow, nor a prerequisite its dependent; every capability is
  in the catalogue; and the budgets of the steps together are within the maximum.
\<close>

theorem plan_accepted_iff:
  assumes "workflowPlanInput w"
  shows "(\<exists>p. normalizeWorkflow le w = Inr p) \<longleftrightarrow>
     distinct (map wn_key (wi_nodes w))
     \<and> (\<forall>n \<in> set (wi_nodes w). distinct (wn_depends_on n) \<and> set (wn_depends_on n) \<subseteq> wn_key ` set (wi_nodes w))
     \<and> (\<forall>k. \<not> chain (wi_nodes w) 4 k)
     \<and> (\<forall>n \<in> set (wi_nodes w). wn_deadline_seconds n \<le> wi_deadline_seconds w
          \<and> (\<forall>p \<in> set (wi_nodes w). wn_key p \<in> set (wn_depends_on n) \<longrightarrow> wn_deadline_seconds p \<le> wn_deadline_seconds n)
          \<and> (\<forall>c \<in> set (wn_required_capabilities n). normalizeCapability c \<noteq> None))
     \<and> sum_list (map wn_budget (wi_nodes w)) \<le> wi_max_budget w"
    (is "?accepted \<longleftrightarrow> ?rules")
proof -
  have w: "wi_nodes w \<noteq> []" "\<forall>n \<in> set (wi_nodes w). 0 \<le> wn_budget n"
    using assms by (auto simp: workflowPlanInput_def between_def list_all_iff workflowNodeInput_def money_ok_def)
  have "?accepted \<longleftrightarrow> admissible w" using normalize_sound(1) [OF _ w(1)] normalize_complete [OF _ w(2)] by blast
  also have "\<dots> \<longleftrightarrow> ?rules"
  proof (cases "distinct (map wn_key (wi_nodes w))")
    case True
    note at = node_at_iff [OF True]
    have known: "node_at (wi_nodes w) d \<noteq> None \<longleftrightarrow> d \<in> wn_key ` set (wi_nodes w)" for d using at by auto
    have steps: "step_ok (wi_nodes w) (wn_key n) \<longleftrightarrow> distinct (wn_depends_on n) \<and> set (wn_depends_on n) \<subseteq> wn_key ` set (wi_nodes w)"
      if "n \<in> set (wi_nodes w)" for n
    proof -
      have "node_at (wi_nodes w) (wn_key n) = Some n" using at that by simp
      then show ?thesis unfolding step_ok_def using known by auto
    qed
    have conflict: "\<not> deadline_conflict (wi_nodes w) n \<longleftrightarrow>
        (\<forall>p \<in> set (wi_nodes w). wn_key p \<in> set (wn_depends_on n) \<longrightarrow> wn_deadline_seconds p \<le> wn_deadline_seconds n)" for n
      unfolding deadline_conflict_def list_ex_iff using at by (auto simp: not_less split: option.splits)
    show ?thesis using True steps conflict unfolding admissible_def sound_graph_def by auto
  qed (simp add: admissible_def)
  finally show ?thesis .
qed

section \<open>A normal form is its own normal form\<close>

definition collates :: "(string \<Rightarrow> string \<Rightarrow> bool) \<Rightarrow> bool" where
  "collates le \<longleftrightarrow> (\<forall>a b. le a b \<or> le b a) \<and> (\<forall>a b c. le a b \<longrightarrow> le b c \<longrightarrow> le a c)"

lemma mset_sort_nodes: "mset (sort_nodes le ps) = mset ps"
proof -
  have "mset (insert_node le x ys) = add_mset x (mset ys)" for x ys by (induction ys) auto
  then show ?thesis unfolding sort_nodes_def by (induction ps) simp_all
qed

lemma sort_nodes_sorted:
  assumes "collates le"
  shows "sorted_wrt (\<lambda>x y. le (pn_key x) (pn_key y)) (sort_nodes le ps)"
proof -
  have members: "set (insert_node le x ys) = insert x (set ys)" for x ys by (induction ys) auto
  have "sorted_wrt (\<lambda>x y. le (pn_key x) (pn_key y)) (insert_node le x ys)"
    if "sorted_wrt (\<lambda>x y. le (pn_key x) (pn_key y)) ys" for x ys
    using that
  proof (induction ys)
    case (Cons y ys)
    then show ?case using assms members [of x ys] unfolding collates_def by auto
  qed simp
  then show ?thesis unfolding sort_nodes_def by (induction ps) simp_all
qed

lemma sort_nodes_id: "sorted_wrt (\<lambda>x y. le (pn_key x) (pn_key y)) ps \<Longrightarrow> sort_nodes le ps = ps"
proof (induction ps)
  case (Cons p ps)
  then have "sort_nodes le (p # ps) = insert_node le p ps" by (simp add: sort_nodes_def)
  also have "\<dots> = p # ps" using Cons.prems by (cases ps) auto
  finally show ?case .
qed (simp add: sort_nodes_def)

lemma catalogue_names: "list_all (\<lambda>i. canonicalize i = i) (map cap_id CAPABILITIES)"
  by code_simp

lemma aliases_spare_names: "list_all (\<lambda>(k, i). k \<in> set (map cap_id CAPABILITIES) \<longrightarrow> i = k) aliasToCapability"
  by code_simp

lemma catalogue_fixed:
  assumes "i \<in> cap_id ` set CAPABILITIES"
  shows "normalizeCapability i = Some i"
proof -
  have c: "canonicalize i = i" using assms catalogue_names by (auto simp: list_all_iff)
  with assms have "(i, i) \<in> set aliasToCapability" by (force simp: aliasToCapability_def alias_entries_def)
  then obtain j where j: "map_of aliasToCapability i = Some j" by (meson weak_map_of_SomeI)
  then have "(i, j) \<in> set aliasToCapability" by (rule map_of_SomeD)
  with assms aliases_spare_names have "j = i" by (auto simp: list_all_iff)
  with c j show ?thesis by (simp add: normalizeCapability_def)
qed

lemma unique_of_set [simp]: "set (unique_of xs) = set xs"
  by (simp add: unique_of_def)

lemma capabilities_stable:
  assumes "\<forall>c \<in> set cs. normalizeCapability c \<noteq> None"
  shows "\<forall>c \<in> set (capabilities_of cs). normalizeCapability c = Some c" and "capabilities_of (capabilities_of cs) = capabilities_of cs"
proof -
  show fixed: "\<forall>c \<in> set (capabilities_of cs). normalizeCapability c = Some c"
    using assms normalizeCapability_in_catalogue catalogue_fixed by (fastforce simp: capabilities_of_def)
  then have "map (\<lambda>c. the (normalizeCapability c)) (capabilities_of cs) = capabilities_of cs"
    by (intro map_idI) simp
  then have "capabilities_of (capabilities_of cs) = unique_of (capabilities_of cs)" by (simp only: capabilities_of_def)
  then show "capabilities_of (capabilities_of cs) = capabilities_of cs" by (simp add: capabilities_of_def unique_of_def)
qed

lemma planned_unique: "planned nodes n p \<Longrightarrow> planned nodes n q \<Longrightarrow> p = q"
  using longest_unique by (cases p; cases q) (auto simp: planned_def)

lemma list_all2_functional:
  assumes "list_all2 P xs ys" and "list_all2 P xs zs" and "\<And>x y z. P x y \<Longrightarrow> P x z \<Longrightarrow> y = z"
  shows "ys = zs"
  using assms(1,2)
proof (induction arbitrary: zs rule: list_all2_induct)
  case (Cons x xs y ys)
  from Cons.prems obtain z zs' where z: "zs = z # zs'" "P x z" "list_all2 P xs zs'" by (cases zs) auto
  with assms(3) [OF Cons.hyps(1) z(2)] Cons.IH [OF z(3)] show ?case by simp
qed simp

text \<open>Two plans whose steps have the same keys, dependencies and deadlines.\<close>

definition outline :: "workflow_node list \<Rightarrow> (string \<times> string set \<times> int) set" where
  "outline nodes = (\<lambda>n. (wn_key n, set (wn_depends_on n), wn_deadline_seconds n)) ` set nodes"

lemma outline_same:
  assumes "distinct (map wn_key nodes)" and "distinct (map wn_key nodes')" and o': "outline nodes' = outline nodes"
  shows "depends nodes' = depends nodes" and "longest nodes' = longest nodes" and "chain nodes' = chain nodes"
    and "wn_key ` set nodes' = wn_key ` set nodes"
proof -
  have D: "depends ns = {(k, d). \<exists>D t. (k, D, t) \<in> outline ns \<and> d \<in> D}" if "distinct (map wn_key ns)" for ns
    unfolding depends_def outline_def using node_at_iff [OF that] by auto
  show d: "depends nodes' = depends nodes" using D [OF assms(1)] D [OF assms(2)] o' by simp
  then show "chain nodes' = chain nodes" by (simp add: chain_def fun_eq_iff)
  then show "longest nodes' = longest nodes" by (simp add: longest_def fun_eq_iff)
  have "wn_key ` set ns = fst ` outline ns" for ns by (simp add: outline_def image_image)
  with o' show "wn_key ` set nodes' = wn_key ` set nodes" by simp
qed

lemma outline_conflict:
  assumes d: "distinct (map wn_key nodes)" "distinct (map wn_key nodes')" and o': "outline nodes' = outline nodes"
    and n: "set (wn_depends_on n') = set (wn_depends_on n)" "wn_deadline_seconds n' = wn_deadline_seconds n"
  shows "deadline_conflict nodes' n' = deadline_conflict nodes n"
proof -
  have D: "deadline_conflict ns m \<longleftrightarrow> (\<exists>k D t. (k, D, t) \<in> outline ns \<and> k \<in> set (wn_depends_on m) \<and> wn_deadline_seconds m < t)"
    if "distinct (map wn_key ns)" for ns m
  proof -
    have "(case v of None \<Rightarrow> False | Some p \<Rightarrow> b p) \<longleftrightarrow> (\<exists>p. v = Some p \<and> b p)" for v :: "workflow_node option" and b by (cases v) simp_all
    then have "deadline_conflict ns m \<longleftrightarrow>
        (\<exists>d \<in> set (wn_depends_on m). \<exists>p. node_at ns d = Some p \<and> wn_deadline_seconds m < wn_deadline_seconds p)"
      by (simp only: deadline_conflict_def list_ex_iff)
    also have "\<dots> \<longleftrightarrow> (\<exists>p \<in> set ns. wn_key p \<in> set (wn_depends_on m) \<and> wn_deadline_seconds m < wn_deadline_seconds p)"
      unfolding node_at_iff [OF that] by blast
    finally show ?thesis by (auto simp: outline_def)
  qed
  show ?thesis unfolding D [OF d(1)] D [OF d(2)] o' n ..
qed

text \<open>What the planned steps, taken as an input again, have in common with the first.\<close>

lemma again:
  assumes p: "list_all2 (planned nodes) nodes ps" and q: "mset qs = mset ps" and d: "distinct (map wn_key nodes)"
  shows "distinct (map wn_key (map node_of qs))" and "outline (map node_of qs) = outline nodes"
    and "sum_list (map wn_budget (map node_of qs)) = sum_list (map wn_budget nodes)"
proof -
  have ps: "map pn_key ps = map wn_key nodes" "map pn_budget_minor ps = map wn_budget nodes"
    using p by (induction rule: list_all2_induct) (simp_all add: planned_def)
  have "mset (map pn_key qs) = mset (map pn_key ps)" using q by simp
  then have "distinct (map pn_key qs)" using d ps(1) mset_eq_imp_distinct_iff by metis
  then show "distinct (map wn_key (map node_of qs))" by (simp add: node_of_def comp_def)
  have "sum_list (map pn_budget_minor qs) = sum_list (map pn_budget_minor ps)"
    using q by (metis mset_map sum_mset_sum_list)
  then show "sum_list (map wn_budget (map node_of qs)) = sum_list (map wn_budget nodes)"
    using ps(2) by (simp add: node_of_def comp_def)
  have "set qs = set ps" using q by (metis set_mset_mset)
  moreover have "(\<lambda>p. (pn_key p, set (pn_depends_on p), pn_deadline_seconds p)) ` set ps = outline nodes"
    unfolding outline_def using p by (induction rule: list_all2_induct) (simp_all add: planned_def)
  ultimately show "outline (map node_of qs) = outline nodes"
    by (simp add: outline_def image_image node_of_def)
qed

lemma plan_renormalizes:
  assumes le: "collates le" and ok: "workflowPlanInput w" and run: "normalizeWorkflow le w = Inr p"
  shows "normalizeWorkflow le (input_of p) = Inr p"
proof -
  let ?nodes = "wi_nodes w"
  have w: "?nodes \<noteq> []" "\<forall>n \<in> set ?nodes. 0 \<le> wn_budget n"
    using ok by (auto simp: workflowPlanInput_def between_def list_all_iff workflowNodeInput_def money_ok_def)
  note A = normalize_sound(1) [OF run w(1)]
  from normalize_sound(2) [OF run w(1)] obtain ps where ps: "list_all2 (planned ?nodes) ?nodes ps"
    and p: "p = \<lparr>wp_objective = wi_objective w, wp_max_budget_minor = wi_max_budget w, wp_deadline_seconds = wi_deadline_seconds w,
       wp_nodes = sort_nodes le ps, wp_allocated_minor = sum_list (map wn_budget ?nodes)\<rparr>" by blast
  let ?qs = "sort_nodes le ps"
  let ?again = "map node_of ?qs"
  have d: "distinct (map wn_key ?nodes)" using A by (simp add: admissible_def)
  note same = again [OF ps mset_sort_nodes d]
  note outline = outline_same [OF d same(1,2)]
  have set_qs: "set ?qs = set ps" using mset_sort_nodes by (metis set_mset_mset)
  have source: "\<exists>n \<in> set ?nodes. planned ?nodes n x" if "x \<in> set ?qs" for x
    using list_all2_both(1) [OF ps] that set_qs by blast
  have at: "node_at ?again (wn_key n) = Some n" if "n \<in> set ?again" for n using node_at_iff [OF same(1)] that by simp
  have known: "node_at ?again k \<noteq> None" if "k \<in> wn_key ` set ?nodes" for k
    using outline(4) that at by (metis imageE option.distinct(1))
  have admissible: "admissible (input_of p)"
    unfolding admissible_def
  proof (intro conjI ballI)
    show "distinct (map wn_key (wi_nodes (input_of p)))" using same(1) by (simp add: input_of_def p)
    show "sum_list (map wn_budget (wi_nodes (input_of p))) \<le> wi_max_budget (input_of p)"
      using A same(3) by (simp add: input_of_def p admissible_def)
    show "sound_graph (wi_nodes (input_of p))" unfolding sound_graph_def
    proof (intro conjI ballI)
      show "\<forall>k. \<not> chain (wi_nodes (input_of p)) 4 k" using A outline(3) by (simp add: input_of_def p admissible_def sound_graph_def)
      fix m assume "m \<in> set (wi_nodes (input_of p))"
      then obtain x where x: "x \<in> set ?qs" "m = node_of x" by (auto simp: input_of_def p)
      from source [OF x(1)] obtain n where n: "n \<in> set ?nodes" "planned ?nodes n x" by blast
      from A n(1) have "step_ok ?nodes (wn_key n)" by (simp add: admissible_def sound_graph_def)
      moreover have "node_at ?nodes (wn_key n) = Some n" using node_at_iff [OF d] n(1) by simp
      ultimately have deps: "distinct (wn_depends_on n)" "\<forall>e \<in> set (wn_depends_on n). node_at ?nodes e \<noteq> None"
        by (simp_all add: step_ok_def)
      have "set (wn_depends_on n) \<subseteq> wn_key ` set ?nodes" using deps(2) node_at_in by fastforce
      then have "\<forall>e \<in> set (pn_depends_on x). node_at ?again e \<noteq> None" using n(2) known by (auto simp: planned_def)
      moreover have "node_at ?again (wn_key m) = Some m" using at x by simp
      ultimately show "step_ok (wi_nodes (input_of p)) (wn_key m)"
        using x(2) n(2) deps(1) by (auto simp: step_ok_def input_of_def p planned_def node_of_def)
    qed
    fix m assume "m \<in> set (wi_nodes (input_of p))"
    then obtain x where x: "x \<in> set ?qs" "m = node_of x" by (auto simp: input_of_def p)
    from source [OF x(1)] obtain n where n: "n \<in> set ?nodes" "planned ?nodes n x" by blast
    show "wn_deadline_seconds m \<le> wi_deadline_seconds (input_of p)"
      using A n x(2) by (simp add: admissible_def planned_def node_of_def input_of_def p)
    have "deadline_conflict ?again m = deadline_conflict ?nodes n"
      by (rule outline_conflict [OF d same(1,2)]) (use n(2) x(2) in \<open>simp_all add: planned_def node_of_def\<close>)
    then show "\<not> deadline_conflict (wi_nodes (input_of p)) m" using A n(1) by (simp add: admissible_def input_of_def p)
    fix c assume "c \<in> set (wn_required_capabilities m)"
    then have "c \<in> set (capabilities_of (wn_required_capabilities n))" using n(2) x(2) by (simp add: planned_def node_of_def)
    with capabilities_stable(1) A n(1) show "normalizeCapability c \<noteq> None" unfolding admissible_def by fastforce
  qed
  have "\<forall>m \<in> set (wi_nodes (input_of p)). 0 \<le> wn_budget m"
    using source w(2) by (fastforce simp: input_of_def p node_of_def planned_def)
  from normalize_complete [OF admissible this] obtain p' where p': "normalizeWorkflow le (input_of p) = Inr p'" by blast
  have "ps \<noteq> []" using ps w(1) by auto
  then have "?qs \<noteq> []" using set_qs by auto
  then have "wi_nodes (input_of p) \<noteq> []" by (simp add: input_of_def p)
  from normalize_sound(2) [OF p' this] obtain rs where rs: "list_all2 (planned ?again) ?again rs"
    and eq: "p' = \<lparr>wp_objective = wp_objective p, wp_max_budget_minor = wp_max_budget_minor p, wp_deadline_seconds = wp_deadline_seconds p,
       wp_nodes = sort_nodes le rs, wp_allocated_minor = sum_list (map wn_budget ?again)\<rparr>"
    by (auto simp: input_of_def p)
  have "planned ?again (node_of x) x" if "x \<in> set ?qs" for x
  proof -
    from source [OF that] obtain n where n: "n \<in> set ?nodes" "planned ?nodes n x" by blast
    with A have "\<forall>c \<in> set (wn_required_capabilities n). normalizeCapability c \<noteq> None" by (simp add: admissible_def)
    note caps = capabilities_stable(2) [OF this]
    have "sort (sort (wn_depends_on n)) = sort (wn_depends_on n)" by (rule sorted_sort_id) simp
    with caps n(2) outline(2) show ?thesis by (simp add: planned_def node_of_def)
  qed
  then have "list_all2 (planned ?again) (map node_of xs) xs" if "set xs \<subseteq> set ?qs" for xs
    using that by (induction xs) auto
  then have "list_all2 (planned ?again) ?again ?qs" by blast
  from list_all2_functional [OF rs this] have "rs = ?qs" using planned_unique by blast
  then have "sort_nodes le rs = ?qs" using sort_nodes_id [OF sort_nodes_sorted [OF le]] by simp
  with eq p' same(3) show ?thesis by (simp add: p)
qed

section \<open>Stored workflows\<close>

lemma catalogue_lengths: "list_all (between 1 80) (map cap_id CAPABILITIES)"
  by code_simp

lemma plan_is_valid_input:
  assumes ok: "workflowPlanInput w" and run: "normalizeWorkflow le w = Inr p"
  shows "workflowPlanInput (input_of p)"
proof -
  have w: "wi_nodes w \<noteq> []" using ok by (auto simp: workflowPlanInput_def between_def)
  note A = normalize_sound(1) [OF run w]
  from normalize_sound(2) [OF run w] obtain ps where ps: "list_all2 (planned (wi_nodes w)) (wi_nodes w) ps"
    and p: "p = \<lparr>wp_objective = wi_objective w, wp_max_budget_minor = wi_max_budget w, wp_deadline_seconds = wi_deadline_seconds w,
       wp_nodes = sort_nodes le ps, wp_allocated_minor = sum_list (map wn_budget (wi_nodes w))\<rparr>" by blast
  have qs: "set (sort_nodes le ps) = set ps" "length (sort_nodes le ps) = length ps"
    using mset_sort_nodes by (metis set_mset_mset, metis size_mset)
  have "workflowNodeInput (node_of x)" if x_in: "x \<in> set ps" for x
  proof -
    from list_all2_both(1) [OF ps x_in] obtain n where n: "n \<in> set (wi_nodes w)" "planned (wi_nodes w) n x" by blast
    have v: "workflowNodeInput n" using ok n(1) by (simp add: workflowPlanInput_def list_all_iff)
    let ?caps = "capabilities_of (wn_required_capabilities n)"
    have "length ?caps \<le> length (wn_required_capabilities n)"
      using length_remdups_leq [of "rev (map (\<lambda>c. the (normalizeCapability c)) (wn_required_capabilities n))"]
      by (simp add: capabilities_of_def unique_of_def)
    moreover have "?caps \<noteq> []" using v by (auto simp: workflowNodeInput_def between_def capabilities_of_def unique_of_def)
    moreover have "between 1 80 c" if "c \<in> set ?caps" for c
    proof -
      from that A n(1) obtain c' where "normalizeCapability c' = Some c" by (fastforce simp: capabilities_of_def admissible_def)
      from normalizeCapability_in_catalogue [OF this] catalogue_lengths show ?thesis by (auto simp: list_all_iff)
    qed
    ultimately have "between 1 20 ?caps \<and> list_all (between 1 80) ?caps"
      using v by (auto simp: workflowNodeInput_def between_def list_all_iff Suc_le_eq)
    then show ?thesis using v n(2) by (simp add: workflowNodeInput_def planned_def node_of_def list_all_iff)
  qed
  moreover have "length ps = length (wi_nodes w)" using ps by (simp add: list_all2_lengthD)
  ultimately show ?thesis using ok qs by (simp add: workflowPlanInput_def input_of_def p list_all_iff between_def)
qed

text \<open>Every stored workflow has the snapshot that its plan hash is taken of.\<close>

definition readable :: "(string \<Rightarrow> string \<Rightarrow> bool) \<Rightarrow> workflow_tables \<Rightarrow> workflow \<Rightarrow> bool" where
  "readable le s w \<longleftrightarrow> workflowSnapshot le w (nodes_of (wf_id w) s) = Inr \<lparr>ws_id = wf_id w, ws_buyer_id = wf_buyer_id w, ws_plan = wf_plan w\<rparr>"

definition tables_ok :: "(string \<Rightarrow> string \<Rightarrow> bool) \<Rightarrow> workflow_tables \<Rightarrow> bool" where
  "tables_ok le s \<longleftrightarrow> distinct (map wf_client_reference (workflows s)) \<and> (\<forall>w \<in> set (workflows s). readable le s w)
     \<and> (\<forall>r \<in> set (workflow_nodes s). \<exists>w \<in> set (workflows s). wf_id w = wr_workflow_id r)"

inductive workflow_request :: "(string \<Rightarrow> string \<Rightarrow> bool) \<Rightarrow> workflow_tables \<Rightarrow> workflow_tables \<Rightarrow> bool" for le s where
  post: "workflow_request le s (snd (postWorkflow le enabled admitted buyer fresh node_ids reference input s))"
| cancel: "workflow_request le s (snd (cancelWorkflow le buyer i s))"

lemma insert_readable:
  assumes le: "collates le" and ok: "tables_ok le s" and input: "workflowPlanInput input" "normalizeWorkflow le input = Inr (wf_plan w)"
    and w: "between 8 200 (wf_client_reference w)" "wf_objective w = wp_objective (wf_plan w)"
      "wf_max_budget_minor w = wp_max_budget_minor (wf_plan w)" "wf_deadline_seconds w = wp_deadline_seconds (wf_plan w)"
    and run: "insertWorkflow w node_ids s = Some t"
  shows "tables_ok le t" and "readable le t w"
proof -
  let ?rows = "map (\<lambda>p. \<lparr>wr_id = node_ids (pn_key p), wr_workflow_id = wf_id w, wr_node = p\<rparr>) (wp_nodes (wf_plan w))"
  have t: "t = s\<lparr>workflows := workflows s @ [w], workflow_nodes := workflow_nodes s @ ?rows\<rparr>"
    and clash: "wf_id w \<notin> wf_id ` set (workflows s)" "wf_client_reference w \<notin> wf_client_reference ` set (workflows s)"
    using run by (auto simp: insertWorkflow_def Let_def list_ex_iff split: if_splits)
  have "wr_workflow_id r \<noteq> wf_id w" if "r \<in> set (workflow_nodes s)" for r
    using ok clash(1) that unfolding tables_ok_def by (metis image_eqI)
  then have mine: "nodes_of (wf_id w) t = ?rows" by (auto simp: nodes_of_def t filter_empty_conv comp_def)
  have "wi_nodes input \<noteq> []" using input(1) by (auto simp: workflowPlanInput_def between_def)
  from normalize_sound(2) [OF input(2) this] obtain ps where "wp_nodes (wf_plan w) = sort_nodes le ps" by auto
  then have "sort_nodes le (wp_nodes (wf_plan w)) = wp_nodes (wf_plan w)"
    using sort_nodes_id [OF sort_nodes_sorted [OF le]] by simp
  moreover have "map wr_node ?rows = wp_nodes (wf_plan w)" by (simp add: comp_def)
  moreover note plan_renormalizes [OF le input] plan_is_valid_input [OF input]
  ultimately show new: "readable le t w"
    unfolding readable_def mine workflowSnapshot_def using w by (simp add: Let_def list_ex_iff del: map_map)
  have "nodes_of (wf_id x) t = nodes_of (wf_id x) s" if "x \<in> set (workflows s)" for x
  proof -
    have "wf_id x \<noteq> wf_id w" using clash(1) that by (metis image_eqI)
    then show ?thesis by (auto simp: nodes_of_def t filter_empty_conv)
  qed
  then have "readable le t x" if "x \<in> set (workflows s)" for x
    using ok that unfolding tables_ok_def readable_def by simp
  with new ok clash show "tables_ok le t" unfolding tables_ok_def by (auto simp: t)
qed

lemma snapshot_state: "workflowSnapshot le (w\<lparr>wf_state := x\<rparr>) rows = workflowSnapshot le w rows"
  by (simp add: workflowSnapshot_def Let_def split: sum.split)

lemma request_keeps:
  assumes le: "collates le" and ok: "tables_ok le s" and step: "workflow_request le s t"
  shows "tables_ok le t"
  using step
proof cases
  case (post enabled admitted buyer fresh node_ids reference input)
  let ?w = "\<lambda>plan. \<lparr>wf_id = fresh, wf_buyer_id = buyer, wf_client_reference = reference, wf_objective = wp_objective plan,
     wf_plan = plan, wf_max_budget_minor = wp_max_budget_minor plan, wf_deadline_seconds = wp_deadline_seconds plan,
     wf_state = Workflow_planned\<rparr>"
  show ?thesis
  proof (cases "t = s")
    case False
    with post obtain plan where r: "between 8 200 reference" "workflowPlanInput input" "normalizeWorkflow le input = Inr plan"
      "insertWorkflow (?w plan) node_ids s = Some t"
      by (auto simp: postWorkflow_def Let_def split: if_splits sum.splits option.splits)
    from insert_readable(1) [OF le ok r(2), of "?w plan"] r show ?thesis by simp
  qed (use ok in simp)
next
  case (cancel buyer i)
  define f where "f x = (if wf_id x = i \<and> wf_buyer_id x = buyer \<and> wf_state x = Workflow_planned
    then x\<lparr>wf_state := Workflow_cancelled\<rparr> else x)" for x :: workflow
  have "t = s \<or> t = s\<lparr>workflows := map f (workflows s)\<rparr>"
    unfolding cancel cancelWorkflow_def Let_def f_def by (auto split: option.split)
  moreover have "tables_ok le (s\<lparr>workflows := map f (workflows s)\<rparr>)"
  proof -
    have f: "wf_client_reference (f x) = wf_client_reference x" "wf_id (f x) = wf_id x" "readable le u (f x) = readable le u x" for x u
      by (simp_all add: f_def readable_def snapshot_state)
    have "readable le (s\<lparr>workflows := xs\<rparr>) x = readable le s x" for xs x by (simp add: readable_def nodes_of_def)
    with ok f show ?thesis unfolding tables_ok_def by (simp add: comp_def)
  qed
  ultimately show ?thesis using ok by blast
qed

text \<open>
  C22. A stored plan can always be read back. Whatever requests came before, every workflow in the
  database still has its snapshot: the stored plan is its own normal form and agrees with the rows of
  its steps, cancelled or not. So the request that created it, sent again, is answered with the very
  plan, and changes nothing.
\<close>

theorem workflows_read_back:
  assumes "collates le" and "(workflow_request le)\<^sup>*\<^sup>* \<lparr>workflows = [], workflow_nodes = []\<rparr> s" and "w \<in> set (workflows s)"
  shows "workflowSnapshot le w (nodes_of (wf_id w) s) = Inr \<lparr>ws_id = wf_id w, ws_buyer_id = wf_buyer_id w, ws_plan = wf_plan w\<rparr>
    \<and> (\<forall>input enabled admitted fresh node_ids.
         workflowPlanInput input \<longrightarrow> normalizeWorkflow le input = Inr (wf_plan w) \<longrightarrow> between 8 200 (wf_client_reference w) \<longrightarrow>
         postWorkflow le enabled admitted (wf_buyer_id w) fresh node_ids (wf_client_reference w) input s
           = (Inr (\<lparr>ws_id = wf_id w, ws_buyer_id = wf_buyer_id w, ws_plan = wf_plan w\<rparr>, True), s))"
proof -
  have ok: "tables_ok le s" using assms(2)
  proof induction
    case (step t u)
    then show ?case using request_keeps [OF assms(1)] by blast
  qed (simp add: tables_ok_def)
  then have "readable le s w" using assms(3) by (simp add: tables_ok_def)
  moreover have "find (\<lambda>x. wf_client_reference x = wf_client_reference w) (workflows s) = Some w"
    using ok assms(3) by (intro find_unique) (simp_all add: tables_ok_def)
  ultimately show ?thesis by (auto simp: postWorkflow_def replayWorkflow_def answer_of_def readable_def)
qed

section \<open>Examples\<close>

text \<open>Two steps, the second of which needs the first.\<close>

definition two_steps :: workflow_input where
  "two_steps = \<lparr>wi_objective = ''Compute, then check'', wi_max_budget = 1000, wi_deadline_seconds = 7200,
     wi_nodes = [
       \<lparr>wn_key = ''check'', wn_objective = ''Check the result'', wn_required_capabilities = [''math''], wn_budget = 400,
          wn_depends_on = [''compute''], wn_deadline_seconds = 7200\<rparr>,
       \<lparr>wn_key = ''compute'', wn_objective = ''Compute the result'', wn_required_capabilities = [''statistics'', ''math''], wn_budget = 600,
          wn_depends_on = [], wn_deadline_seconds = 3600\<rparr>]\<rparr>"

lemma two_steps_valid: "workflowPlanInput two_steps"
  by (simp add: workflowPlanInput_def two_steps_def between_def money_ok_def deadline_ok_def workflowNodeInput_def node_key_ok_def less_eq_char_def)

lemma capability_names: "normalizeCapability ''math'' = Some ''math''" "normalizeCapability ''statistics'' = Some ''statistics''"
  by (rule catalogue_fixed; simp add: CAPABILITIES_def)+

lemmas eval_plan = normalizeWorkflow_def planNode_def two_steps_def node_at_def deadline_conflict_def capability_names unique_of_def
  sort_nodes_def

lemma two_steps_plan:
  "\<exists>p. normalizeWorkflow (\<le>) two_steps = Inr p \<and> map pn_key (wp_nodes p) = [''check'', ''compute''] \<and> map pn_depth (wp_nodes p) = [1, 0]"
  by (simp add: eval_plan)

lemma plan_accepted_iff_witness:
  "(\<exists>p. normalizeWorkflow (\<le>) two_steps = Inr p) \<and> (\<forall>k. \<not> chain (wi_nodes two_steps) 4 k)"
  using plan_accepted_iff [OF two_steps_valid, of "(\<le>)"] two_steps_plan by blast

lemma collates_text: "collates (\<le>)"
  unfolding collates_def by auto

lemma two_steps_stored:
  obtains s w where "workflow_request (\<le>) \<lparr>workflows = [], workflow_nodes = []\<rparr> s" and "workflows s = [w]"
    and "normalizeWorkflow (\<le>) two_steps = Inr (wf_plan w)" and "between 8 200 (wf_client_reference w)"
proof -
  let ?empty = "\<lparr>workflows = [], workflow_nodes = []\<rparr> :: workflow_tables"
  obtain p where p: "normalizeWorkflow (\<le>) two_steps = Inr p" "map pn_key (wp_nodes p) = [''check'', ''compute'']"
    using two_steps_plan by (elim exE conjE) (rule that)
  define w where "w = \<lparr>wf_id = ''w1'', wf_buyer_id = ''b1'', wf_client_reference = ''reference'', wf_objective = wp_objective p,
     wf_plan = p, wf_max_budget_minor = wp_max_budget_minor p, wf_deadline_seconds = wp_deadline_seconds p, wf_state = Workflow_planned\<rparr>"
  have "distinct (map pn_key (wp_nodes p))" unfolding p(2) by simp
  then obtain t where t: "insertWorkflow w (\<lambda>k. k) ?empty = Some t" "workflows t = [w]"
    by (simp add: insertWorkflow_def w_def comp_def)
  have "readable (\<le>) t w"
    by (rule insert_readable(2) [OF collates_text _ two_steps_valid _ _ _ _ _ t(1)])
      (simp_all add: tables_ok_def w_def p(1) between_def)
  then have "snd (postWorkflow (\<le>) True True ''b1'' ''w1'' (\<lambda>k. k) ''reference'' two_steps ?empty) = t"
    using p(1) t(1) two_steps_valid
    by (simp add: postWorkflow_def replayWorkflow_def answer_of_def readable_def between_def w_def [symmetric] Let_def)
  then have "workflow_request (\<le>) ?empty t" using workflow_request.post by metis
  moreover have "normalizeWorkflow (\<le>) two_steps = Inr (wf_plan w)" "between 8 200 (wf_client_reference w)"
    by (simp_all add: w_def p(1) between_def)
  ultimately show thesis using that t(2) by blast
qed

lemma workflows_read_back_witness:
  "\<exists>s w. workflows s = [w] \<and> workflowSnapshot (\<le>) w (nodes_of (wf_id w) s) = Inr \<lparr>ws_id = wf_id w, ws_buyer_id = wf_buyer_id w, ws_plan = wf_plan w\<rparr>
     \<and> (\<exists>x. postWorkflow (\<le>) True True (wf_buyer_id w) ''w2'' (\<lambda>k. k) (wf_client_reference w) two_steps s = (Inr (x, True), s))"
proof -
  obtain s w where s: "workflow_request (\<le>) \<lparr>workflows = [], workflow_nodes = []\<rparr> s" "workflows s = [w]"
    "normalizeWorkflow (\<le>) two_steps = Inr (wf_plan w)" and b: "between 8 200 (wf_client_reference w)"
    by (rule two_steps_stored)
  have "w \<in> set (workflows s)" by (simp add: s(2))
  note all = workflows_read_back [OF collates_text r_into_rtranclp [where r = "workflow_request (\<le>)", OF s(1)] this]
  note repeated = all [THEN conjunct2, rule_format, OF two_steps_valid s(3) b]
  show ?thesis
    by (intro exI conjI) (rule s(2), rule all [THEN conjunct1], rule repeated)
qed

end
