(* ===== verification/RouteMandates.thy ===== *)
theory RouteMandates
  imports ServiceOrders Trades VerificationPolicy
begin

text \<open>
  Route mandates, \<open>lib/route-payment-mandate.ts\<close> with \<open>lib/route-funding-steps.ts\<close>: what the
  owner of a buyer allows an automatic route to spend, and the exposure that is reserved under
  it, one funding step for each attempt.

  \<open>mandate_env\<close> holds what is not code of this file: the hashes (SHA-256 of a canonical text),
  the payment configuration, the parsed policies, and the checks of the organization and
  workflow parts. These write only tables that are not part of \<open>db\<close> (the uses of an
  authorization, the runs of a workflow and their reservations), so what is left of each here
  is the error with which it refuses, or none; it may be another one at every call.
\<close>

section \<open>The environment\<close>

type_synonym stored_terms = "mandate_terms \<times> token_contract"

record mandate_input =
  mn_client_reference :: string
  mn_terms :: mandate_terms

text \<open>What \<open>routeAuthorityHash\<close> is taken of.\<close>

record route_authority =
  ra_id :: id
  ra_buyer_id :: id
  ra_objective :: string
  ra_input :: string
  ra_capabilities :: string
  ra_max_budget_minor :: int
  ra_deadline_seconds :: "int option"
  ra_verification :: string
  ra_payment :: string
  ra_retry :: string
  ra_providers :: string

record mandate_retry =
  mr_operation_id :: id
  mr_previous_trade_id :: id
  mr_attempt_id :: id

record exposure_input =
  ex_mandate_id :: id
  ex_plan :: route_plan
  ex_service :: service_definition
  ex_rail :: rail
  ex_total_minor :: int
  ex_order_id :: id
  ex_trade_id :: id
  ex_retry :: "mandate_retry option"

record mandate_env =
  me_is_address :: "string \<Rightarrow> bool"
  me_authority_hash :: "route_authority \<Rightarrow> string"
  me_terms_hash :: "stored_terms \<Rightarrow> string"
  me_request_hash :: "mandate_input \<Rightarrow> string"
  me_evm_enabled :: bool
  me_evm_treasury :: "string option"
  me_token :: "int \<Rightarrow> string \<Rightarrow> (int \<times> num) option"
  me_mpp_enabled :: bool
  me_mpp_chain_id :: int
  me_mpp_currency :: string
  me_mpp_recipient :: "string option"
  me_execution_enabled :: "id \<Rightarrow> bool"
  me_policy :: "string \<Rightarrow> app_error + verification_policy"
  me_allowed_rails :: "string \<Rightarrow> rail list option"
  me_organization :: "route_mandate \<Rightarrow> route_plan \<Rightarrow> db \<Rightarrow> app_error option"
  me_workflow :: "route_mandate \<Rightarrow> route_plan \<Rightarrow> stored_terms \<Rightarrow> db \<Rightarrow> app_error option"
  me_consume_organization :: "exposure_input \<Rightarrow> db \<Rightarrow> app_error option"
  me_reserve_workflow :: "exposure_input \<Rightarrow> route_mandate \<Rightarrow> stored_terms \<Rightarrow> db \<Rightarrow> app_error option"

definition unless_refused :: "(db \<Rightarrow> app_error option) \<Rightarrow> unit dbtx" where
  "unless_refused check = bnd (asks check) (\<lambda>refusal. case refusal of None \<Rightarrow> ret () | Some e \<Rightarrow> throw e)"

section \<open>The terms\<close>

definition digits_only :: "string \<Rightarrow> bool" where
  "digits_only s \<longleftrightarrow> list_all (\<lambda>c. c \<in> set ''0123456789'') s"

text \<open>\<open>/^(?:0|[1-9][0-9]{0,77})$/\<close>.\<close>

definition unit_text :: "string \<Rightarrow> bool" where
  "unit_text s \<longleftrightarrow> s = ''0'' \<or> s \<noteq> [] \<and> hd s \<noteq> CHR ''0'' \<and> length s \<le> 78 \<and> digits_only s"

definition positive_units :: "string \<Rightarrow> bool" where
  "positive_units s \<longleftrightarrow> unit_text s \<and> s \<noteq> ''0''"

definition some_that :: "('a \<Rightarrow> bool) \<Rightarrow> 'a option \<Rightarrow> bool" where
  "some_that p x = (case x of None \<Rightarrow> False | Some a \<Rightarrow> p a)"

definition evm_address :: "mandate_env \<Rightarrow> string \<Rightarrow> bool" where
  "evm_address env a \<longleftrightarrow> me_is_address env a \<and> lower a = a"

definition payment_fields :: "mandate_env \<Rightarrow> mandate_payment \<Rightarrow> bool" where
  "payment_fields env p \<longleftrightarrow> 0 < mp_chain_id p \<and> evm_address env (mp_token_address p) \<and> evm_address env (mp_payer_address p)
     \<and> evm_address env (mp_treasury_address p) \<and> unit_text (mp_minimum_token_reserve_units p)"

definition evm_fee_fields :: "mandate_payment \<Rightarrow> bool" where
  "evm_fee_fields p \<longleftrightarrow> some_that unit_text (mp_minimum_native_reserve_wei p) \<and> some_that positive_units (mp_max_gas_cost_wei p)
     \<and> mp_fee_token_address p = None \<and> mp_minimum_fee_token_reserve_units p = None \<and> mp_max_fee_token_cost_units p = None"

definition mpp_fee_fields :: "mandate_env \<Rightarrow> mandate_payment \<Rightarrow> bool" where
  "mpp_fee_fields env p \<longleftrightarrow> mp_minimum_native_reserve_wei p = None \<and> mp_max_gas_cost_wei p = None
     \<and> some_that (evm_address env) (mp_fee_token_address p) \<and> some_that unit_text (mp_minimum_fee_token_reserve_units p)
     \<and> some_that positive_units (mp_max_fee_token_cost_units p)"

definition routeMandatePaymentInput :: "mandate_env \<Rightarrow> mandate_payment \<Rightarrow> bool" where
  "routeMandatePaymentInput env p \<longleftrightarrow> payment_fields env p
     \<and> (mp_rail p = Evm \<and> evm_fee_fields p \<or> mp_rail p = Mpp \<and> mpp_fee_fields env p)"

definition storedPaymentSchema :: "mandate_env \<Rightarrow> mandate_payment \<Rightarrow> bool" where
  "storedPaymentSchema env p \<longleftrightarrow> routeMandatePaymentInput env p \<or> payment_fields env p \<and> mp_rail p = Mpp \<and> evm_fee_fields p"

definition mandate_money :: "int \<Rightarrow> bool" where
  "mandate_money cents \<longleftrightarrow> 1 \<le> cents \<and> cents \<le> 100000000000"

definition reference_char :: "char \<Rightarrow> bool" where
  "reference_char c \<longleftrightarrow> c \<in> set ''ABCDEFGHIJKLMNOPQRSTUVWXYZabcdefghijklmnopqrstuvwxyz0123456789._:-''"

definition storedMandateInput :: "mandate_env \<Rightarrow> mandate_input \<Rightarrow> bool" where
  "storedMandateInput env i \<longleftrightarrow> (let t = mn_terms i in
     8 \<le> length (mn_client_reference i) \<and> length (mn_client_reference i) \<le> 128 \<and> list_all reference_char (mn_client_reference i)
     \<and> mandate_money (mt_max_aggregate t) \<and> mandate_money (mt_max_per_execution t)
     \<and> (mt_max_retry_budget t = 0 \<or> mandate_money (mt_max_retry_budget t))
     \<and> 1 \<le> mt_max_attempts t \<and> mt_max_attempts t \<le> 3
     \<and> 1 \<le> length (mt_approved_providers t) \<and> length (mt_approved_providers t) \<le> 20
     \<and> list_all (\<lambda>p. 1 \<le> length p \<and> length p \<le> 200) (mt_approved_providers t)
     \<and> 1 \<le> mt_max_latency_seconds t \<and> mt_max_latency_seconds t \<le> 30 * 24 * 3600
     \<and> storedPaymentSchema env (mt_payment t)
     \<and> distinct (mt_approved_providers t)
     \<and> mt_max_per_execution t \<le> mt_max_aggregate t \<and> mt_max_retry_budget t \<le> mt_max_aggregate t)"

definition routeMandateInput :: "mandate_env \<Rightarrow> mandate_input \<Rightarrow> bool" where
  "routeMandateInput env i \<longleftrightarrow> storedMandateInput env i
     \<and> (mp_rail (mt_payment (mn_terms i)) = Mpp \<longrightarrow> mp_fee_token_address (mt_payment (mn_terms i)) \<noteq> None)"

definition routeAuthorityHash :: "mandate_env \<Rightarrow> route_plan \<Rightarrow> string" where
  "routeAuthorityHash env plan = me_authority_hash env
     \<lparr>ra_id = rp_id plan, ra_buyer_id = rp_buyer_id plan, ra_objective = rp_objective plan, ra_input = rp_input_json plan,
      ra_capabilities = rp_required_capabilities plan, ra_max_budget_minor = rp_max_budget_minor plan,
      ra_deadline_seconds = rp_deadline_seconds plan, ra_verification = rp_verification_policy plan,
      ra_payment = rp_payment_policy plan, ra_retry = rp_retry_policy plan, ra_providers = rp_provider_requirements_json plan\<rparr>"

definition ownerControlsBuyer :: "id \<Rightarrow> id \<Rightarrow> db \<Rightarrow> bool" where
  "ownerControlsBuyer ownerId buyerId s =
    (if buyerId = ownerId \<and> \<not> starts_with agent_prefix buyerId then True
     else if \<not> starts_with agent_prefix buyerId then False
     else list_ex (\<lambda>o'. ao_agent_id o' = drop (length agent_prefix) buyerId \<and> ao_user_id o' = ownerId) (agent_owners s))"

definition termsOf :: "mandate_env \<Rightarrow> route_mandate \<Rightarrow> app_error + stored_terms" where
  "termsOf env row =
    (let t = rm_terms row; k = rm_token row; tempoFees = (mp_rail (mt_payment t) = Mpp \<and> mp_fee_token_address (mt_payment t) \<noteq> None) in
     if \<not> storedMandateInput env \<lparr>mn_client_reference = rm_client_reference row, mn_terms = t\<rparr> then Inl (PlainError ''ZodError'')
     else if tc_token_decimals k < 0 \<or> 36 < tc_token_decimals k \<or> tc_token_usd_price k \<le> 0
     then Inl (RouteMandateError ''MANDATE_CONTRACT_INVALID'' 409)
     else if (if tempoFees then tc_fee_token_decimals k \<noteq> Some 6 else tc_fee_token_decimals k \<noteq> None)
     then Inl (RouteMandateError ''MANDATE_CONTRACT_INVALID'' 409)
     else if mt_max_aggregate t \<noteq> rm_max_aggregate_minor row \<or> mt_expires_at t \<noteq> rm_expires_at row * 1000
       \<or> rm_reserved_minor row < 0 \<or> rm_max_aggregate_minor row < rm_reserved_minor row
     then Inl (RouteMandateError ''MANDATE_CONTRACT_INVALID'' 409)
     else Inr (t, k))"

definition paymentContract :: "mandate_env \<Rightarrow> mandate_payment \<Rightarrow> app_error + token_contract" where
  "paymentContract env p =
    (if mp_rail p = Evm then
       (case me_token env (mp_chain_id p) (mp_token_address p) of
          None \<Rightarrow> Inl (RouteMandateError ''MANDATE_PAYMENT_RAIL_UNAVAILABLE'' 409)
        | Some (decimals, price) \<Rightarrow>
            if \<not> me_evm_enabled env \<or> map_option lower (me_evm_treasury env) \<noteq> Some (mp_treasury_address p)
            then Inl (RouteMandateError ''MANDATE_PAYMENT_RAIL_UNAVAILABLE'' 409)
            else Inr \<lparr>tc_token_decimals = decimals, tc_token_usd_price = price, tc_fee_token_decimals = None\<rparr>)
     else if \<not> me_mpp_enabled env \<or> me_mpp_chain_id env \<noteq> mp_chain_id p \<or> lower (me_mpp_currency env) \<noteq> mp_token_address p
       \<or> map_option lower (me_mpp_recipient env) \<noteq> Some (mp_treasury_address p)
     then Inl (RouteMandateError ''MANDATE_PAYMENT_RAIL_UNAVAILABLE'' 409)
     else (case mp_fee_token_address p of
         None \<Rightarrow> Inr \<lparr>tc_token_decimals = 6, tc_token_usd_price = 1, tc_fee_token_decimals = None\<rparr>
       | Some fee \<Rightarrow>
           if fee \<noteq> lower (me_mpp_currency env) then Inl (RouteMandateError ''MANDATE_FEE_TOKEN_UNAVAILABLE'' 409)
           else Inr \<lparr>tc_token_decimals = 6, tc_token_usd_price = 1, tc_fee_token_decimals = Some 6\<rparr>))"

section \<open>Creating and revoking a mandate\<close>

definition buyer_accepts :: "verification_policy \<Rightarrow> bool" where
  "buyer_accepts p \<longleftrightarrow> vp_acceptance_mode p = Some ''explicit_buyer''"

definition insertMandate :: "route_mandate \<Rightarrow> unit dbtx" where
  "insertMandate row = insert_row route_payment_mandates route_payment_mandates_update
     (\<lambda>m. rm_id m = rm_id row \<or> rm_route_id m = rm_route_id row
        \<or> rm_owner_account_id m = rm_owner_account_id row \<and> rm_client_reference m = rm_client_reference row)
     (SqlError ''route_payment_mandates'') row"

text \<open>The answer is the mandate and whether the request was a repetition; \<open>mandateDto\<close> reads its terms.\<close>

definition mandateDto :: "mandate_env \<Rightarrow> route_mandate \<Rightarrow> bool \<Rightarrow> (route_mandate \<times> bool) dbtx" where
  "mandateDto env row repeated = bnd (lift_result (termsOf env row)) (\<lambda>_. ret (row, repeated))"

definition grantMandate :: "mandate_env \<Rightarrow> millis \<Rightarrow> id \<Rightarrow> id \<Rightarrow> mandate_input \<Rightarrow> route_plan \<Rightarrow> (route_mandate \<times> bool) dbtx" where
  "grantMandate env now fresh ownerId input plan =
    (let expiry = mt_expires_at (mn_terms input) div 1000 in
     andthen (require (me_execution_enabled env (rp_buyer_id plan)) (RouteMandateError ''ROUTE_EXECUTION_DISABLED'' 503))
    (andthen (require (\<not> (rp_state plan \<noteq> ''planned'' \<or> rp_service_order_id plan \<noteq> None \<or> rp_expires_at plan * 1000 \<le> now))
        (RouteMandateError ''ROUTE_NOT_AUTHORIZABLE'' 409))
    (andthen (require (\<not> (expiry * 1000 \<le> now \<or> now + 86400000 < expiry * 1000)) (RouteMandateError ''MANDATE_EXPIRY_INVALID'' 400))
    (andthen (require (mt_max_per_execution (mn_terms input) \<le> rp_max_budget_minor plan)
        (RouteMandateError ''MANDATE_EXCEEDS_ROUTE_BUDGET'' 400))
    (bnd (lift_result (me_policy env (rp_verification_policy plan))) (\<lambda>policy.
     andthen (require (buyer_accepts policy) (RouteMandateError ''MANDATE_EXPLICIT_ACCEPTANCE_REQUIRED'' 400))
    (andthen (require (mp_rail (mt_payment (mn_terms input))
          \<in> set (case me_allowed_rails env (rp_payment_policy plan) of None \<Rightarrow> [Mpp, Evm] | Some rails \<Rightarrow> rails))
        (RouteMandateError ''MANDATE_PAYMENT_RAIL_BLOCKED'' 409))
    (bnd (lift_result (paymentContract env (mt_payment (mn_terms input)))) (\<lambda>token.
    (let row = \<lparr>rm_id = fresh, rm_route_id = rp_id plan, rm_buyer_id = rp_buyer_id plan, rm_owner_account_id = ownerId,
           rm_client_reference = mn_client_reference input, rm_request_hash = me_request_hash env input,
           rm_route_hash = routeAuthorityHash env plan, rm_terms = (mn_terms input)\<lparr>mt_expires_at := expiry * 1000\<rparr>,
           rm_token = token, rm_max_aggregate_minor = mt_max_aggregate (mn_terms input), rm_reserved_minor = 0,
           rm_state = Mandate_active, rm_expires_at = expiry, rm_revoked_at = None\<rparr> in
     andthen (insertMandate row) (mandateDto env row False)))))))))))"

definition createRouteMandateInTransaction ::
  "mandate_env \<Rightarrow> millis \<Rightarrow> id \<Rightarrow> id \<Rightarrow> id \<Rightarrow> mandate_input \<Rightarrow> (route_mandate \<times> bool) dbtx" where
  "createRouteMandateInTransaction env now fresh routeId ownerId input =
     andthen (require (routeMandateInput env input) (RouteMandateError ''INVALID_ROUTE_MANDATE'' 400))
    (bnd (select_one route_plans (\<lambda>p. rp_id p = routeId)) (\<lambda>found.
     bnd (some_or (RouteMandateError ''ROUTE_NOT_FOUND'' 404) found) (\<lambda>plan.
     bnd (asks (ownerControlsBuyer ownerId (rp_buyer_id plan))) (\<lambda>controls.
     andthen (require controls (RouteMandateError ''ROUTE_NOT_FOUND'' 404))
    (bnd (select_one route_payment_mandates (\<lambda>m. rm_route_id m = routeId
        \<or> rm_owner_account_id m = ownerId \<and> rm_client_reference m = mn_client_reference input)) (\<lambda>prior. case prior of
       Some m \<Rightarrow> andthen (require (\<not> (rm_route_id m \<noteq> routeId \<or> rm_owner_account_id m \<noteq> ownerId
              \<or> rm_request_hash m \<noteq> me_request_hash env input)) (RouteMandateError ''MANDATE_IDEMPOTENCY_CONFLICT'' 409))
            (mandateDto env m True)
     | None \<Rightarrow> grantMandate env now fresh ownerId input plan))))))"

definition revokeRouteMandate :: "mandate_env \<Rightarrow> millis \<Rightarrow> id \<Rightarrow> id \<Rightarrow> (route_mandate \<times> bool) dbtx" where
  "revokeRouteMandate env now routeId ownerId =
     bnd (select_one route_payment_mandates (\<lambda>m. rm_route_id m = routeId)) (\<lambda>found.
     bnd (some_or (RouteMandateError ''MANDATE_NOT_FOUND'' 404) found) (\<lambda>row.
     bnd (asks (ownerControlsBuyer ownerId (rm_buyer_id row))) (\<lambda>controls.
     andthen (require controls (RouteMandateError ''MANDATE_NOT_FOUND'' 404))
    (if rm_state row = Mandate_revoked then mandateDto env row True
     else bnd (update_where route_payment_mandates route_payment_mandates_update (\<lambda>m. rm_id m = rm_id row)
            (\<lambda>m. m\<lparr>rm_state := Mandate_revoked, rm_revoked_at := Some (to_seconds now)\<rparr>)) (\<lambda>rows.
          bnd (first_or (PlainError ''TypeError'') rows) (\<lambda>revoked. mandateDto env revoked False))))))"

section \<open>Funding steps\<close>

definition findTradeFundingStep :: "id \<Rightarrow> funding_step option dbtx" where
  "findTradeFundingStep tradeId =
     bnd (select_one route_funding_steps (\<lambda>f. fs_trade_id f = tradeId)) (\<lambda>original.
     bnd (select_one route_retry_funding_steps (\<lambda>f. fs_trade_id f = tradeId)) (\<lambda>retry.
     if original \<noteq> None \<and> retry \<noteq> None then throw (PlainError ''ROUTE_FUNDING_STEP_INVARIANT'')
     else ret (case original of Some f \<Rightarrow> Some f | None \<Rightarrow> retry)))"

definition listRouteFundingSteps :: "id \<Rightarrow> funding_step list dbtx" where
  "listRouteFundingSteps routeId =
     bnd (select_all route_funding_steps (\<lambda>f. fs_route_id f = routeId)) (\<lambda>original.
     bnd (select_all route_retry_funding_steps (\<lambda>f. fs_route_id f = routeId)) (\<lambda>retry.
     ret (original @ sort_key fs_created_at retry)))"

definition updateTradeFundingStep :: "id \<Rightarrow> step_state \<Rightarrow> unit dbtx" where
  "updateTradeFundingStep tradeId st =
     bnd (update_where route_funding_steps route_funding_steps_update (\<lambda>f. fs_trade_id f = tradeId) (\<lambda>f. f\<lparr>fs_state := st\<rparr>)) (\<lambda>_.
     bnd (update_where route_retry_funding_steps route_retry_funding_steps_update (\<lambda>f. fs_trade_id f = tradeId) (\<lambda>f. f\<lparr>fs_state := st\<rparr>)) (\<lambda>_.
     ret ()))"

definition insertOriginalStep :: "funding_step \<Rightarrow> unit dbtx" where
  "insertOriginalStep f = insert_row route_funding_steps route_funding_steps_update
     (\<lambda>g. fs_id g = fs_id f \<or> fs_route_id g = fs_route_id f \<or> fs_trade_id g = fs_trade_id f) (SqlError ''route_funding_steps'') f"

definition same_link :: "retry_link option \<Rightarrow> retry_link option \<Rightarrow> bool" where
  "same_link a b = (case (a, b) of (Some x, Some y) \<Rightarrow> rl_operation_id x = rl_operation_id y
     \<or> rl_previous_trade_id x = rl_previous_trade_id y \<or> rl_attempt_id x = rl_attempt_id y | _ \<Rightarrow> False)"

definition insertRetryStep :: "funding_step \<Rightarrow> unit dbtx" where
  "insertRetryStep f = insert_row route_retry_funding_steps route_retry_funding_steps_update
     (\<lambda>g. fs_id g = fs_id f \<or> fs_order_id g = fs_order_id f \<or> fs_trade_id g = fs_trade_id f \<or> same_link (fs_retry g) (fs_retry f))
     (SqlError ''route_retry_funding_steps'') f"

section \<open>Reserving exposure\<close>

definition activeMandate :: "mandate_env \<Rightarrow> millis \<Rightarrow> route_mandate \<Rightarrow> route_plan \<Rightarrow> stored_terms dbtx" where
  "activeMandate env now row plan =
     andthen (require (\<not> (rm_state row \<noteq> Mandate_active \<or> rm_expires_at row * 1000 \<le> now)) (RouteMandateError ''MANDATE_INACTIVE'' 409))
    (bnd (asks (ownerControlsBuyer (rm_owner_account_id row) (rm_buyer_id row))) (\<lambda>controls.
     andthen (require controls (RouteMandateError ''MANDATE_OWNER_CHANGED'' 409))
    (andthen (require (\<not> (rm_buyer_id row \<noteq> rp_buyer_id plan \<or> rm_route_hash row \<noteq> routeAuthorityHash env plan))
        (RouteMandateError ''MANDATE_ROUTE_CHANGED'' 409))
    (bnd (lift_result (termsOf env row)) (\<lambda>terms.
     bnd (lift_result (paymentContract env (mt_payment (fst terms)))) (\<lambda>current.
     andthen (require (current = snd terms) (RouteMandateError ''MANDATE_TOKEN_TERMS_CHANGED'' 409))
    (andthen (unless_refused (me_organization env row plan))
    (andthen (unless_refused (me_workflow env row plan terms))
     (ret terms)))))))))"

definition validateRouteMandate :: "mandate_env \<Rightarrow> millis \<Rightarrow> id \<Rightarrow> route_plan \<Rightarrow> stored_terms dbtx" where
  "validateRouteMandate env now mandateId plan =
     bnd (select_one route_payment_mandates (\<lambda>m. rm_id m = mandateId \<and> rm_route_id m = rp_id plan \<and> rm_buyer_id m = rp_buyer_id plan)) (\<lambda>found.
     bnd (some_or (RouteMandateError ''MANDATE_NOT_FOUND'' 404) found) (\<lambda>row.
     case rp_service_order_id plan of
       Some orderId \<Rightarrow>
         bnd (listRouteFundingSteps (rp_id plan)) (\<lambda>steps.
         andthen (require (case find (\<lambda>f. fs_order_id f = orderId) steps of None \<Rightarrow> False | Some f \<Rightarrow> fs_mandate_id f = rm_id row)
             (RouteMandateError ''MANDATE_ORDER_CONFLICT'' 409))
          (lift_result (termsOf env row)))
     | None \<Rightarrow> activeMandate env now row plan))"

definition freshRouteRetryTerms :: "mandate_env \<Rightarrow> millis \<Rightarrow> id \<Rightarrow> route_plan \<Rightarrow> stored_terms dbtx" where
  "freshRouteRetryTerms env now mandateId plan =
     bnd (select_one route_payment_mandates (\<lambda>m. rm_id m = mandateId \<and> rm_route_id m = rp_id plan)) (\<lambda>found.
     bnd (some_or (RouteMandateError ''MANDATE_NOT_FOUND'' 404) found) (\<lambda>row. activeMandate env now row plan))"

text \<open>The limits of the terms, in the order of the code; \<open>previous\<close> are the steps of the route so far.\<close>

definition checkLimits :: "mandate_env \<Rightarrow> exposure_input \<Rightarrow> route_mandate \<Rightarrow> mandate_terms \<Rightarrow> funding_step list \<Rightarrow> unit dbtx" where
  "checkLimits env x row terms previous =
    (let retryMinor = sum_list (map fs_amount_minor (drop 1 previous)) + (if ex_retry x \<noteq> None then ex_total_minor x else 0) in
     andthen (require (\<not> (previous \<noteq> [] \<and> ex_retry x = None \<or> previous = [] \<and> ex_retry x \<noteq> None))
        (RouteMandateError ''MANDATE_ORDER_CONFLICT'' 409))
    (andthen (require (\<not> mt_max_attempts terms \<le> int (length previous)) (RouteMandateError ''MANDATE_ATTEMPTS_EXHAUSTED'' 409))
    (andthen (require (\<not> mt_max_retry_budget terms < retryMinor) (RouteMandateError ''MANDATE_RETRY_BUDGET_EXCEEDED'' 409))
    (andthen (require (\<not> (mp_rail (mt_payment terms) \<noteq> ex_rail x \<or> sd_seller_id (ex_service x) \<notin> set (mt_approved_providers terms)))
        (RouteMandateError ''MANDATE_PROVIDER_OR_RAIL_BLOCKED'' 409))
    (andthen (require (\<not> (mt_max_per_execution terms < ex_total_minor x
          \<or> rm_max_aggregate_minor row - rm_reserved_minor row < ex_total_minor x)) (RouteMandateError ''MANDATE_BUDGET_EXCEEDED'' 409))
    (andthen (require (case sd_estimated_latency_seconds (ex_service x) of None \<Rightarrow> False | Some l \<Rightarrow> l \<noteq> 0 \<and> l \<le> mt_max_latency_seconds terms)
        (RouteMandateError ''MANDATE_LATENCY_EXCEEDED'' 409))
    (bnd (lift_result (me_policy env (rp_verification_policy (ex_plan x)))) (\<lambda>requested.
     bnd (lift_result (me_policy env (sd_verification_policy (ex_service x)))) (\<lambda>offered.
     require (\<not> (\<not> supportsVerification offered requested \<or> \<not> buyer_accepts offered))
       (RouteMandateError ''MANDATE_VERIFICATION_REQUIRED'' 409))))))))))"

definition chargeMandate :: "millis \<Rightarrow> exposure_input \<Rightarrow> route_mandate \<Rightarrow> unit dbtx" where
  "chargeMandate now x row =
     bnd (update_where route_payment_mandates route_payment_mandates_update
       (\<lambda>m. rm_id m = rm_id row \<and> rm_state m = Mandate_active \<and> to_seconds now < rm_expires_at m
          \<and> rm_reserved_minor m + ex_total_minor x \<le> rm_max_aggregate_minor m)
       (\<lambda>m. m\<lparr>rm_reserved_minor := rm_reserved_minor m + ex_total_minor x\<rparr>)) (\<lambda>rows.
     bnd (first_or (RouteMandateError ''MANDATE_BUDGET_OR_STATE_CHANGED'' 409) rows) (\<lambda>_. ret ()))"

definition new_step :: "mandate_env \<Rightarrow> millis \<Rightarrow> id \<Rightarrow> exposure_input \<Rightarrow> route_mandate \<Rightarrow> stored_terms \<Rightarrow> funding_step" where
  "new_step env now fresh x row terms = \<lparr>fs_id = fresh, fs_mandate_id = rm_id row, fs_route_id = rp_id (ex_plan x),
     fs_order_id = ex_order_id x, fs_trade_id = ex_trade_id x, fs_amount_minor = ex_total_minor x,
     fs_terms_hash = me_terms_hash env terms, fs_state = Step_reserved,
     fs_retry = map_option (\<lambda>r. \<lparr>rl_operation_id = mr_operation_id r, rl_previous_trade_id = mr_previous_trade_id r,
        rl_attempt_id = mr_attempt_id r\<rparr>) (ex_retry x), fs_created_at = to_seconds now\<rparr>"

definition reserveMandateExposure :: "mandate_env \<Rightarrow> millis \<Rightarrow> id \<Rightarrow> exposure_input \<Rightarrow> unit dbtx" where
  "reserveMandateExposure env now fresh x =
     bnd (select_one route_payment_mandates (\<lambda>m. rm_id m = ex_mandate_id x \<and> rm_route_id m = rp_id (ex_plan x))) (\<lambda>found.
     bnd (some_or (RouteMandateError ''MANDATE_NOT_FOUND'' 404) found) (\<lambda>row.
     bnd (activeMandate env now row (ex_plan x)) (\<lambda>terms.
     bnd (listRouteFundingSteps (rp_id (ex_plan x))) (\<lambda>previous.
     andthen (checkLimits env x row (fst terms) previous)
    (andthen (chargeMandate now x row)
    (andthen (if ex_retry x \<noteq> None then insertRetryStep (new_step env now fresh x row terms)
              else insertOriginalStep (new_step env now fresh x row terms))
    (andthen (unless_refused (me_consume_organization env x))
     (unless_refused (me_reserve_workflow env x row terms)))))))))"

section \<open>Eligibility and the outcome of a payment\<close>

record payment_facts =
  pf_rail :: rail
  pf_chain_id :: int
  pf_token_address :: string
  pf_payer_address :: string
  pf_treasury_address :: "string option"
  pf_tx_hash :: "string option"

definition terms_match :: "payment_facts \<Rightarrow> mandate_payment \<Rightarrow> bool" where
  "terms_match a p \<longleftrightarrow> pf_rail a = mp_rail p \<and> pf_chain_id a = mp_chain_id p \<and> lower (pf_token_address a) = mp_token_address p
     \<and> lower (pf_payer_address a) = mp_payer_address p
     \<and> (case pf_treasury_address a of None \<Rightarrow> True | Some t \<Rightarrow> t = [] \<or> lower t = mp_treasury_address p)"

definition claimMatches :: "id \<Rightarrow> payment_facts option \<Rightarrow> funding_step \<Rightarrow> string option dbtx" where
  "claimMatches tradeId actual step = (case actual of
     Some a \<Rightarrow>
       if pf_rail a = Mpp \<and> truthy (pf_tx_hash a) then
         bnd (select_one buyer_mpp_payment_intents (\<lambda>i. mi_trade_id i = tradeId)) (\<lambda>intent. case intent of
           None \<Rightarrow> ret None
         | Some i \<Rightarrow> bnd (select_one buyer_mpp_payment_claims (\<lambda>c. pc_intent_id c = mi_id i)) (\<lambda>claim.
             ret (case claim of None \<Rightarrow> Some ''MANDATE_PAYMENT_CLAIM_MISMATCH''
               | Some c \<Rightarrow> if pc_tx_hash c \<noteq> lower (the (pf_tx_hash a)) \<or> pc_terms_hash c \<noteq> fs_terms_hash step
                   then Some ''MANDATE_PAYMENT_CLAIM_MISMATCH'' else None)))
       else ret None
   | None \<Rightarrow> ret None)"

definition checkStep :: "mandate_env \<Rightarrow> millis \<Rightarrow> trade \<Rightarrow> payment_facts option \<Rightarrow> funding_step \<Rightarrow> string option dbtx" where
  "checkStep env now t actual step =
     bnd (select_one route_payment_mandates (\<lambda>m. rm_id m = fs_mandate_id step)) (\<lambda>found.
     bnd (select_one route_plans (\<lambda>p. rp_id p = fs_route_id step)) (\<lambda>found_plan. case (found, found_plan) of
       (Some row, Some plan) \<Rightarrow>
         if fs_state step \<noteq> Step_reserved \<or> rm_reserved_minor row < fs_amount_minor step
           \<or> fs_amount_minor step \<noteq> to_minor (t_total_cost t) \<or> rp_service_order_id plan \<noteq> Some (fs_order_id step)
         then ret (Some ''MANDATE_CONTRACT_INVALID'')
         else bnd (activeMandate env now row plan) (\<lambda>terms.
           if me_terms_hash env terms \<noteq> fs_terms_hash step \<or> mp_rail (mt_payment (fst terms)) \<noteq> t_payment_rail t
             \<or> t_seller_id t \<notin> set (mt_approved_providers (fst terms))
           then ret (Some ''MANDATE_CONTRACT_INVALID'')
           else if \<not> (case actual of None \<Rightarrow> True | Some a \<Rightarrow> terms_match a (mt_payment (fst terms)))
           then ret (Some ''MANDATE_PAYMENT_TERMS_MISMATCH'')
           else claimMatches (t_id t) actual step)
     | _ \<Rightarrow> ret (Some ''MANDATE_CONTRACT_INVALID'')))"

text \<open>The reason why a payment may not be made or taken, if there is one.\<close>

definition mandateFundingEligibility :: "mandate_env \<Rightarrow> millis \<Rightarrow> trade \<Rightarrow> payment_facts option \<Rightarrow> db \<Rightarrow> app_error + string option" where
  "mandateFundingEligibility env now t actual s = (case findTradeFundingStep (t_id t) s of
     Inl e \<Rightarrow> Inl e
   | Inr (None, _) \<Rightarrow> Inr (if list_ex (\<lambda>p. list_ex (\<lambda>m. rm_route_id m = rp_id p) (route_payment_mandates s)
         \<and> list_ex (\<lambda>o'. so_trade_id o' = t_id t \<and> rp_service_order_id p = Some (so_id o')) (service_orders s)) (route_plans s)
       then Some ''MANDATE_CONTRACT_INVALID'' else None)
   | Inr (Some step, _) \<Rightarrow> Inr (case checkStep env now t actual step s of
         Inr (reason, _) \<Rightarrow> reason
       | Inl (RouteMandateError c status) \<Rightarrow> Some c
       | Inl _ \<Rightarrow> Some ''MANDATE_CONTRACT_INVALID''))"

definition recordMandateFunding :: "id \<Rightarrow> step_state \<Rightarrow> unit dbtx" where
  "recordMandateFunding tradeId st =
     andthen (updateTradeFundingStep tradeId st)
    (bnd (select_one evm_payment_intents (\<lambda>i. ei_trade_id i = tradeId)) (\<lambda>evm.
     bnd (select_one payment_receipts (\<lambda>r. pr_trade_id r = Some tradeId)) (\<lambda>receipt.
     andthen (case (evm, receipt) of
         (Some i, Some r) \<Rightarrow>
           if truthy (ei_tx_hash i) \<and> pr_tx_hash r = ei_tx_hash i \<and> pr_payment_rail r = Some Evm
             \<and> pr_chain_id r = Some (ei_chain_id i) \<and> map_option lower (pr_payer_address r) = Some (ei_payer_address i)
           then bnd (update_where buyer_evm_payment_claims buyer_evm_payment_claims_update
               (\<lambda>c. pc_intent_id c = ei_id i \<and> Some (pc_tx_hash c) = ei_tx_hash i) (\<lambda>c. c\<lparr>pc_state := Claim_confirmed\<rparr>)) (\<lambda>_. ret ())
           else ret ()
       | _ \<Rightarrow> ret ())
    (bnd (select_one buyer_mpp_payment_intents (\<lambda>i. mi_trade_id i = tradeId)) (\<lambda>mpp. case (mpp, receipt) of
         (Some i, Some r) \<Rightarrow>
           if truthy (pr_tx_hash r) \<and> pr_payment_rail r = Some Mpp \<and> pr_chain_id r = Some (mi_chain_id i)
             \<and> map_option lower (pr_payer_address r) = Some (mi_payer_address i)
             \<and> map_option lower (pr_token_address r) = Some (mi_token_address i) \<and> pr_token_amount r = Some (mi_token_amount i)
           then bnd (update_where buyer_mpp_payment_claims buyer_mpp_payment_claims_update
               (\<lambda>c. pc_intent_id c = mi_id i \<and> Some (pc_tx_hash c) = pr_tx_hash r) (\<lambda>c. c\<lparr>pc_state := Claim_confirmed\<rparr>)) (\<lambda>_. ret ())
           else ret ()
       | _ \<Rightarrow> ret ())))))"

section \<open>What a successful call has checked\<close>

lemma unless_refused_run [run_simps, simp]: "unless_refused c s = Inr q \<longleftrightarrow> c s = None \<and> q = ((), s)"
  by (auto simp: unless_refused_def run_simps split: option.splits)

lemma activeMandate_run: "activeMandate env now row plan s = Inr (terms, s') \<longleftrightarrow>
   s' = s \<and> rm_state row = Mandate_active \<and> now < rm_expires_at row * 1000
   \<and> ownerControlsBuyer (rm_owner_account_id row) (rm_buyer_id row) s \<and> rm_buyer_id row = rp_buyer_id plan
   \<and> rm_route_hash row = routeAuthorityHash env plan \<and> termsOf env row = Inr terms
   \<and> paymentContract env (mt_payment (fst terms)) = Inr (snd terms)
   \<and> me_organization env row plan s = None \<and> me_workflow env row plan terms s = None"
  by (cases terms) (auto simp: activeMandate_def run_simps)

lemma checkLimits_run: "checkLimits env x row terms previous s = Inr ((), s') \<longleftrightarrow>
   s' = s \<and> (previous = [] \<longleftrightarrow> ex_retry x = None) \<and> int (length previous) < mt_max_attempts terms
   \<and> sum_list (map fs_amount_minor (drop 1 previous)) + (if ex_retry x \<noteq> None then ex_total_minor x else 0) \<le> mt_max_retry_budget terms
   \<and> mp_rail (mt_payment terms) = ex_rail x \<and> sd_seller_id (ex_service x) \<in> set (mt_approved_providers terms)
   \<and> ex_total_minor x \<le> mt_max_per_execution terms \<and> ex_total_minor x \<le> rm_max_aggregate_minor row - rm_reserved_minor row
   \<and> (\<exists>l. sd_estimated_latency_seconds (ex_service x) = Some l \<and> l \<noteq> 0 \<and> l \<le> mt_max_latency_seconds terms)
   \<and> (\<exists>requested offered. me_policy env (rp_verification_policy (ex_plan x)) = Inr requested
        \<and> me_policy env (sd_verification_policy (ex_service x)) = Inr offered
        \<and> supportsVerification offered requested \<and> buyer_accepts offered)"
  by (auto simp: checkLimits_def run_simps not_le not_less split: option.splits)

lemma termsOf_Inr: "termsOf env row = Inr terms \<Longrightarrow> terms = (rm_terms row, rm_token row) \<and> mt_max_aggregate (rm_terms row) = rm_max_aggregate_minor row
   \<and> 0 \<le> rm_reserved_minor row \<and> rm_reserved_minor row \<le> rm_max_aggregate_minor row
   \<and> storedMandateInput env \<lparr>mn_client_reference = rm_client_reference row, mn_terms = rm_terms row\<rparr>"
  by (simp add: termsOf_def Let_def split: if_splits)

section \<open>The books of the mandates\<close>

definition spent_on :: "id \<Rightarrow> funding_step list \<Rightarrow> int" where
  "spent_on i fs = sum_rows (\<lambda>f. fs_mandate_id f = i) fs_amount_minor fs"

definition attempts_on :: "id \<Rightarrow> funding_step list \<Rightarrow> int" where
  "attempts_on i fs = sum_rows (\<lambda>f. fs_mandate_id f = i) (\<lambda>_. 1) fs"

definition within_terms :: "funding_step list \<Rightarrow> funding_step list \<Rightarrow> route_mandate \<Rightarrow> bool" where
  "within_terms os rs m \<longleftrightarrow> rm_reserved_minor m = spent_on (rm_id m) (os @ rs)
     \<and> rm_reserved_minor m \<le> rm_max_aggregate_minor m \<and> rm_max_aggregate_minor m = mt_max_aggregate (rm_terms m)
     \<and> attempts_on (rm_id m) (os @ rs) \<le> mt_max_attempts (rm_terms m)
     \<and> spent_on (rm_id m) rs \<le> mt_max_retry_budget (rm_terms m)"

definition step_authorized :: "route_mandate list \<Rightarrow> funding_step \<Rightarrow> bool" where
  "step_authorized ms f \<longleftrightarrow> (\<exists>m \<in> set ms. fs_mandate_id f = rm_id m \<and> fs_route_id f = rm_route_id m
     \<and> 0 < fs_amount_minor f \<and> fs_amount_minor f \<le> mt_max_per_execution (rm_terms m))"

definition mandate_books :: "route_mandate list \<Rightarrow> funding_step list \<Rightarrow> funding_step list \<Rightarrow> bool" where
  "mandate_books ms os rs \<longleftrightarrow> distinct (map rm_id ms) \<and> distinct (map rm_route_id ms) \<and> distinct (map fs_route_id os)
     \<and> fs_route_id ` set rs \<subseteq> fs_route_id ` set os \<and> (\<forall>f \<in> set (os @ rs). step_authorized ms f)
     \<and> (\<forall>m \<in> set ms. within_terms os rs m)"

definition mandates_ok :: "db \<Rightarrow> bool" where
  "mandates_ok s \<longleftrightarrow> mandate_books (route_payment_mandates s) (route_funding_steps s) (route_retry_funding_steps s)"

lemma books_distinct:
  assumes "mandate_books ms os rs"
  shows "distinct (map rm_id ms)" and "distinct (map rm_route_id ms)" and "distinct (map fs_route_id os)"
  using assms by (simp_all add: mandate_books_def)

lemma books_authorized: "mandate_books ms os rs \<Longrightarrow> f \<in> set os \<union> set rs \<Longrightarrow> step_authorized ms f"
  by (auto simp: mandate_books_def)

lemma books_within: "mandate_books ms os rs \<Longrightarrow> m \<in> set ms \<Longrightarrow> within_terms os rs m"
  by (auto simp: mandate_books_def)

lemma spent_on_simps [simp]: "spent_on i [] = 0" "spent_on i (xs @ ys) = spent_on i xs + spent_on i ys"
  "spent_on i (f # xs) = (if fs_mandate_id f = i then fs_amount_minor f else 0) + spent_on i xs"
  by (simp_all add: spent_on_def)

lemma attempts_on_simps [simp]: "attempts_on i [] = 0" "attempts_on i (xs @ ys) = attempts_on i xs + attempts_on i ys"
  "attempts_on i (f # xs) = (if fs_mandate_id f = i then 1 else 0) + attempts_on i xs"
  by (simp_all add: attempts_on_def)

lemma attempts_on_length: "attempts_on i fs = int (length (filter (\<lambda>f. fs_mandate_id f = i) fs))"
  by (induction fs) auto

lemma nothing_spent: "(\<And>f. f \<in> set fs \<Longrightarrow> fs_mandate_id f \<noteq> i) \<Longrightarrow> spent_on i fs = 0 \<and> attempts_on i fs = 0"
  by (induction fs) auto

text \<open>Only the mandate, the route and the amount of a step count, so changing its state changes nothing.\<close>

definition same_step :: "(funding_step \<Rightarrow> funding_step) \<Rightarrow> bool" where
  "same_step g \<longleftrightarrow> (\<forall>f. fs_mandate_id (g f) = fs_mandate_id f \<and> fs_route_id (g f) = fs_route_id f \<and> fs_amount_minor (g f) = fs_amount_minor f)"

lemma same_step_sums: "same_step g \<Longrightarrow> spent_on i (set_rows p g fs) = spent_on i fs \<and> attempts_on i (set_rows p g fs) = attempts_on i fs"
  by (induction fs) (auto simp: same_step_def)

lemma same_step_keys: "same_step g \<Longrightarrow> map fs_route_id (set_rows p g fs) = map fs_route_id fs"
  by (simp add: same_step_def)

lemma same_step_authorized:
  assumes g: "same_step g" and all: "\<forall>f \<in> set fs. step_authorized ms f"
  shows "\<forall>f \<in> set (set_rows p g fs). step_authorized ms f"
  using all g by (auto simp: set_set_rows step_authorized_def same_step_def)

lemma books_set_steps:
  assumes "mandate_books ms os rs" and g: "same_step g"
  shows "mandate_books ms (set_rows p g os) (set_rows q g rs)"
proof -
  have routes: "fs_route_id ` set (set_rows p g xs) = fs_route_id ` set xs" for p xs
    using same_step_keys [OF g, of p xs] by (metis list.set_map)
  show ?thesis
    unfolding mandate_books_def
  proof (intro conjI)
    show "distinct (map rm_id ms)" "distinct (map rm_route_id ms)" using assms(1) by (simp_all add: mandate_books_def)
    show "distinct (map fs_route_id (set_rows p g os))" using assms(1) by (simp add: mandate_books_def same_step_keys [OF g])
    show "fs_route_id ` set (set_rows q g rs) \<subseteq> fs_route_id ` set (set_rows p g os)" using assms(1) by (simp add: mandate_books_def routes)
    have old: "\<forall>f \<in> set os. step_authorized ms f" "\<forall>f \<in> set rs. step_authorized ms f" using assms(1) by (simp_all add: mandate_books_def)
    show "\<forall>f \<in> set (set_rows p g os @ set_rows q g rs). step_authorized ms f"
      using same_step_authorized [OF g old(1), of p] same_step_authorized [OF g old(2), of q] by auto
    show "\<forall>m \<in> set ms. within_terms (set_rows p g os) (set_rows q g rs) m"
    proof
      fix m assume m: "m \<in> set ms"
      show "within_terms (set_rows p g os) (set_rows q g rs) m"
        using books_within [OF assms(1) m] by (simp add: within_terms_def same_step_sums [OF g])
    qed
  qed
qed

text \<open>Likewise a mandate counts by its identity, its terms and what is reserved.\<close>

definition same_mandate :: "(route_mandate \<Rightarrow> route_mandate) \<Rightarrow> bool" where
  "same_mandate g \<longleftrightarrow> (\<forall>m. rm_id (g m) = rm_id m \<and> rm_route_id (g m) = rm_route_id m \<and> rm_terms (g m) = rm_terms m
     \<and> rm_max_aggregate_minor (g m) = rm_max_aggregate_minor m \<and> rm_reserved_minor (g m) = rm_reserved_minor m)"

lemma authorized_set_mandates:
  assumes "\<And>m. rm_id (g m) = rm_id m \<and> rm_route_id (g m) = rm_route_id m \<and> rm_terms (g m) = rm_terms m"
  shows "step_authorized (set_rows p g ms) f = step_authorized ms f"
proof -
  have key: "rm_id (if p m then g m else m) = rm_id m" "rm_route_id (if p m then g m else m) = rm_route_id m"
    "rm_terms (if p m then g m else m) = rm_terms m" for m
    using assms by simp_all
  show ?thesis unfolding step_authorized_def set_set_rows bex_simps key ..
qed

lemma books_set_mandates:
  assumes "mandate_books ms os rs" and g: "same_mandate g"
  shows "mandate_books (set_rows p g ms) os rs"
proof -
  have auth: "step_authorized (set_rows p g ms) f = step_authorized ms f" for f
    by (rule authorized_set_mandates) (use g in \<open>simp add: same_mandate_def\<close>)
  have "within_terms os rs (g m) = within_terms os rs m" for m using g by (simp add: same_mandate_def within_terms_def)
  then show ?thesis using assms by (auto simp: mandate_books_def auth same_mandate_def set_set_rows)
qed

lemma books_add_mandate:
  assumes books: "mandate_books ms os rs" and row: "rm_reserved_minor row = 0" "rm_max_aggregate_minor row = mt_max_aggregate (rm_terms row)"
    and new: "\<And>m. m \<in> set ms \<Longrightarrow> rm_id m \<noteq> rm_id row \<and> rm_route_id m \<noteq> rm_route_id row"
    and terms: "0 \<le> mt_max_aggregate (rm_terms row)" "0 \<le> mt_max_attempts (rm_terms row)" "0 \<le> mt_max_retry_budget (rm_terms row)"
  shows "mandate_books (ms @ [row]) os rs"
proof -
  have none: "fs_mandate_id f \<noteq> rm_id row" if "f \<in> set (os @ rs)" for f
    using books_authorized [OF books, of f] that by (auto simp: step_authorized_def dest!: new)
  have "within_terms os rs row"
    using nothing_spent [of os "rm_id row"] nothing_spent [of rs "rm_id row"] none row terms by (simp add: within_terms_def)
  moreover have "step_authorized (ms @ [row]) f" if "step_authorized ms f" for f
    using that by (auto simp: step_authorized_def)
  moreover have "rm_id row \<notin> set (map rm_id ms)" "rm_route_id row \<notin> set (map rm_route_id ms)" by (auto dest: new)
  ultimately show ?thesis using books by (auto simp: mandate_books_def)
qed

text \<open>The steps of a route are the steps of its mandate.\<close>

lemma route_is_mandate:
  assumes books: "mandate_books ms os rs" and m: "m \<in> set ms" and f: "f \<in> set os \<union> set rs"
  shows "fs_route_id f = rm_route_id m \<longleftrightarrow> fs_mandate_id f = rm_id m"
proof -
  from books_authorized [OF books f] obtain n where n: "n \<in> set ms" "fs_mandate_id f = rm_id n" "fs_route_id f = rm_route_id n"
    by (auto simp: step_authorized_def)
  then show ?thesis
    using unique_key_eq [OF books_distinct(1) [OF books] n(1) m] unique_key_eq [OF books_distinct(2) [OF books] n(1) m] by auto
qed

lemma route_steps:
  assumes books: "mandate_books ms os rs" and m: "m \<in> set ms" and sub: "set fs \<subseteq> set os \<union> set rs"
  shows "filter (\<lambda>f. fs_route_id f = rm_route_id m) fs = filter (\<lambda>f. fs_mandate_id f = rm_id m) fs"
  using route_is_mandate [OF books m] sub by (intro filter_cong) auto

lemma one_original: "distinct (map k xs) \<Longrightarrow> filter (\<lambda>x. k x = c) xs = [] \<or> (\<exists>y. filter (\<lambda>x. k x = c) xs = [y])"
proof (induction xs)
  case (Cons a xs)
  have "filter (\<lambda>x. k x = c) xs = []" if "k a = c" using that Cons.prems by (auto simp: filter_empty_conv image_iff)
  then show ?case using Cons by (cases "k a = c") simp_all
qed simp

lemma sum_sorted: "sum_list (map v (sort_key k xs)) = (sum_list (map v xs) :: int)"
proof -
  have "sum_mset (image_mset v (mset (sort_key k xs))) = sum_mset (image_mset v (mset xs))" by simp
  then show ?thesis by (simp only: mset_map [symmetric] sum_mset_sum_list)
qed

text \<open>What \<open>reserveMandateExposure\<close> computes from the steps of the route.\<close>

lemma previous_steps:
  assumes books: "mandate_books ms os rs" and m: "m \<in> set ms"
    and prev: "previous = filter (\<lambda>f. fs_route_id f = rm_route_id m) os @ sort_key fs_created_at (filter (\<lambda>f. fs_route_id f = rm_route_id m) rs)"
  shows "int (length previous) = attempts_on (rm_id m) (os @ rs)"
    and "sum_list (map fs_amount_minor (drop 1 previous)) = spent_on (rm_id m) rs"
    and "previous = [] \<longleftrightarrow> rm_route_id m \<notin> fs_route_id ` set os"
proof -
  let ?route = "\<lambda>f. fs_route_id f = rm_route_id m"
  have os: "filter ?route os = filter (\<lambda>f. fs_mandate_id f = rm_id m) os" and rs: "filter ?route rs = filter (\<lambda>f. fs_mandate_id f = rm_id m) rs"
    by (rule route_steps [OF books m]; simp)+
  show "int (length previous) = attempts_on (rm_id m) (os @ rs)" by (simp add: prev attempts_on_length os rs)
  have amounts: "sum_list (map fs_amount_minor (filter ?route rs)) = spent_on (rm_id m) rs" by (simp add: spent_on_def sum_rows_def rs)
  have mem: "rm_route_id m \<in> fs_route_id ` set os \<longleftrightarrow> filter ?route os \<noteq> []" by (force simp: filter_empty_conv)
  have none: "filter ?route rs = []" if "filter ?route os = []"
  proof -
    have "rm_route_id m \<notin> fs_route_id ` set rs" using that mem books by (auto simp: mandate_books_def)
    then show ?thesis by (force simp: filter_empty_conv)
  qed
  from one_original [OF books_distinct(3) [OF books], of "rm_route_id m"]
  have "sum_list (map fs_amount_minor (drop 1 previous)) = spent_on (rm_id m) rs \<and> (previous = [] \<longleftrightarrow> filter ?route os = [])"
  proof (elim disjE exE)
    assume no: "filter ?route os = []"
    then show ?thesis using amounts none by (simp add: prev)
  next
    fix y assume y: "filter ?route os = [y]"
    then show ?thesis using amounts by (simp add: prev sum_sorted)
  qed
  then show "sum_list (map fs_amount_minor (drop 1 previous)) = spent_on (rm_id m) rs"
    and "previous = [] \<longleftrightarrow> rm_route_id m \<notin> fs_route_id ` set os"
    using mem by simp_all
qed

section \<open>The operations keep the books\<close>

lemma revoke_mandate_keeps: "keeps mandates_ok (revokeRouteMandate env now routeId ownerId)"
proof -
  have g: "same_mandate (\<lambda>m. m\<lparr>rm_state := Mandate_revoked, rm_revoked_at := Some (to_seconds now)\<rparr>)" by (simp add: same_mandate_def)
  have upd: "keeps mandates_ok (update_where route_payment_mandates route_payment_mandates_update p
      (\<lambda>m. m\<lparr>rm_state := Mandate_revoked, rm_revoked_at := Some (to_seconds now)\<rparr>))" for p
    by (rule keepsI) (auto simp: mandates_ok_def intro: books_set_mandates [OF _ g])
  show ?thesis unfolding revokeRouteMandate_def mandateDto_def
    by (intro keeps_intros upd)
qed

lemma record_mandate_keeps: "keeps mandates_ok (recordMandateFunding tradeId st)"
proof -
  have g: "same_step (\<lambda>f. f\<lparr>fs_state := st\<rparr>)" by (simp add: same_step_def)
  have upd: "mandates_ok s \<Longrightarrow> updateTradeFundingStep tradeId st s = Inr (a, s') \<Longrightarrow> mandates_ok s'" for s s' a
    by (auto simp: updateTradeFundingStep_def run_simps mandates_ok_def intro: books_set_steps [OF _ g])
  have first: "keeps mandates_ok (updateTradeFundingStep tradeId st)" by (rule keepsI) (rule upd)
  have claims: "keeps mandates_ok (update_where buyer_evm_payment_claims buyer_evm_payment_claims_update p f)"
    "keeps mandates_ok (update_where buyer_mpp_payment_claims buyer_mpp_payment_claims_update p f)" for p f
    by (rule keepsI, auto simp: mandates_ok_def)+
  show ?thesis unfolding recordMandateFunding_def
    by (intro keeps_intros first) (auto intro!: keeps_intros claims split: option.splits prod.splits)
qed

lemma storedMandateInput_bounds: "storedMandateInput env i \<Longrightarrow>
   0 \<le> mt_max_aggregate (mn_terms i) \<and> 0 \<le> mt_max_attempts (mn_terms i) \<and> 0 \<le> mt_max_retry_budget (mn_terms i)"
  by (auto simp: storedMandateInput_def Let_def mandate_money_def)

lemma insert_mandate_keeps:
  assumes "rm_reserved_minor row = 0" and "rm_max_aggregate_minor row = mt_max_aggregate (rm_terms row)"
    and "storedMandateInput env i" and "mt_max_aggregate (mn_terms i) = mt_max_aggregate (rm_terms row)"
    and "mt_max_attempts (mn_terms i) = mt_max_attempts (rm_terms row)" and "mt_max_retry_budget (mn_terms i) = mt_max_retry_budget (rm_terms row)"
  shows "keeps mandates_ok (insertMandate row)"
proof (rule keepsI)
  fix s a s' assume ok: "mandates_ok s" and run: "insertMandate row s = Inr (a, s')"
  then have new: "m \<in> set (route_payment_mandates s) \<Longrightarrow> rm_id m \<noteq> rm_id row \<and> rm_route_id m \<noteq> rm_route_id row" for m
    by (auto simp: insertMandate_def list_ex_iff)
  have "mandate_books (route_payment_mandates s @ [row]) (route_funding_steps s) (route_retry_funding_steps s)"
    by (rule books_add_mandate) (use ok assms storedMandateInput_bounds [OF assms(3)] new in \<open>auto simp: mandates_ok_def\<close>)
  then show "mandates_ok s'" using run by (simp add: insertMandate_def mandates_ok_def)
qed

lemma create_mandate_keeps: "keeps mandates_ok (createRouteMandateInTransaction env now fresh routeId ownerId input)"
proof (cases "routeMandateInput env input")
  case True
  then have stored: "storedMandateInput env input" by (simp add: routeMandateInput_def)
  show ?thesis unfolding createRouteMandateInTransaction_def grantMandate_def mandateDto_def Let_def
    by (intro keeps_intros insert_mandate_keeps [OF _ _ stored]) simp_all
next
  case False
  then show ?thesis by (simp add: createRouteMandateInTransaction_def keeps_def run_simps)
qed

text \<open>The charge and its step.\<close>

lemma within_terms_charged:
  assumes "within_terms os rs m"
    and "rm_id m = i \<Longrightarrow> rm_reserved_minor m + v \<le> rm_max_aggregate_minor m \<and> attempts_on i (os @ rs) + 1 \<le> mt_max_attempts (rm_terms m)"
    and "rm_id m = i \<Longrightarrow> retried \<Longrightarrow> spent_on i rs + v \<le> mt_max_retry_budget (rm_terms m)"
    and "fs_mandate_id f = i" and "fs_amount_minor f = v"
  shows "within_terms (if retried then os else os @ [f]) (if retried then rs @ [f] else rs)
    (if rm_id m = i then m\<lparr>rm_reserved_minor := rm_reserved_minor m + v\<rparr> else m)"
  using assms by (auto simp: within_terms_def)

lemma books_charge:
  assumes books: "mandate_books ms os rs" and row: "row \<in> set ms"
    and p: "\<And>m. m \<in> set ms \<Longrightarrow> p m \<longleftrightarrow> rm_id m = rm_id row"
    and f: "fs_mandate_id f = rm_id row" "fs_route_id f = rm_route_id row" "fs_amount_minor f = v"
    and v: "0 < v" "v \<le> mt_max_per_execution (rm_terms row)" "rm_reserved_minor row + v \<le> rm_max_aggregate_minor row"
    and attempts: "attempts_on (rm_id row) (os @ rs) < mt_max_attempts (rm_terms row)"
    and retry: "retried \<Longrightarrow> spent_on (rm_id row) rs + v \<le> mt_max_retry_budget (rm_terms row)"
    and placed: "retried \<longleftrightarrow> rm_route_id row \<in> fs_route_id ` set os"
  shows "mandate_books (set_rows p (\<lambda>m. m\<lparr>rm_reserved_minor := rm_reserved_minor m + v\<rparr>) ms)
    (if retried then os else os @ [f]) (if retried then rs @ [f] else rs)"
proof -
  let ?g = "\<lambda>m. m\<lparr>rm_reserved_minor := rm_reserved_minor m + v\<rparr>"
  have auth: "step_authorized (set_rows p ?g ms) x = step_authorized ms x" for x by (rule authorized_set_mandates) simp
  have step: "step_authorized ms f" using row f v by (auto simp: step_authorized_def)
  have same: "m = row" if "m \<in> set ms" "rm_id m = rm_id row" for m
    using unique_key_eq [OF books_distinct(1) [OF books] that(1) row that(2)] .
  have within: "within_terms (if retried then os else os @ [f]) (if retried then rs @ [f] else rs) (if p m then ?g m else m)"
    if m: "m \<in> set ms" for m
    unfolding p [OF m]
    by (rule within_terms_charged) (use m books_within [OF books m] same [OF m] v attempts retry f in auto)
  have all: "\<forall>m \<in> set (set_rows p ?g ms). within_terms (if retried then os else os @ [f]) (if retried then rs @ [f] else rs) m"
  proof
    fix m assume "m \<in> set (set_rows p ?g ms)"
    then obtain n where n: "n \<in> set ms" and m: "m = (if p n then ?g n else n)" unfolding set_set_rows by (elim imageE)
    show "within_terms (if retried then os else os @ [f]) (if retried then rs @ [f] else rs) m" unfolding m by (rule within [OF n])
  qed
  have keys: "map rm_id (set_rows p ?g ms) = map rm_id ms" "map rm_route_id (set_rows p ?g ms) = map rm_route_id ms" by simp_all
  show ?thesis unfolding mandate_books_def auth keys
    using books step placed f(2) all by (cases retried) (auto simp: mandate_books_def)
qed

lemma reserve_mandate_run:
  assumes "reserveMandateExposure env now fresh x s = Inr (u, s')"
  obtains row terms previous where "find (\<lambda>m. rm_id m = ex_mandate_id x \<and> rm_route_id m = rp_id (ex_plan x)) (route_payment_mandates s) = Some row"
    and "activeMandate env now row (ex_plan x) s = Inr (terms, s)"
    and "listRouteFundingSteps (rp_id (ex_plan x)) s = Inr (previous, s)"
    and "checkLimits env x row (fst terms) previous s = Inr ((), s)"
    and "s' = (let charged = s\<lparr>route_payment_mandates := set_rows
             (\<lambda>m. rm_id m = rm_id row \<and> rm_state m = Mandate_active \<and> to_seconds now < rm_expires_at m
               \<and> rm_reserved_minor m + ex_total_minor x \<le> rm_max_aggregate_minor m)
             (\<lambda>m. m\<lparr>rm_reserved_minor := rm_reserved_minor m + ex_total_minor x\<rparr>) (route_payment_mandates s)\<rparr> in
           if ex_retry x = None then charged\<lparr>route_funding_steps := route_funding_steps s @ [new_step env now fresh x row terms]\<rparr>
           else charged\<lparr>route_retry_funding_steps := route_retry_funding_steps s @ [new_step env now fresh x row terms]\<rparr>)"
    and "\<exists>m \<in> set (route_payment_mandates s). rm_id m = rm_id row \<and> rm_state m = Mandate_active \<and> to_seconds now < rm_expires_at m
               \<and> rm_reserved_minor m + ex_total_minor x \<le> rm_max_aggregate_minor m"
proof -
  from assms obtain row t k sa previous sb sc s1 s2 where row: "find (\<lambda>m. rm_id m = ex_mandate_id x \<and> rm_route_id m = rp_id (ex_plan x)) (route_payment_mandates s) = Some row"
    and a: "activeMandate env now row (ex_plan x) s = Inr ((t, k), sa)"
    and b: "listRouteFundingSteps (rp_id (ex_plan x)) sa = Inr (previous, sb)"
    and c: "checkLimits env x row t previous sb = Inr ((), sc)"
    and d: "chargeMandate now x row sc = Inr ((), s1)"
    and ins: "(if ex_retry x \<noteq> None then insertRetryStep (new_step env now fresh x row (t, k))
              else insertOriginalStep (new_step env now fresh x row (t, k))) s1 = Inr ((), s2)" and s': "s' = s2"
    by (auto simp: reserveMandateExposure_def bnd_run andthen_run)
  have [simp]: "sa = s" using a by (simp add: activeMandate_run)
  have [simp]: "sb = s" using b by (simp add: listRouteFundingSteps_def run_simps)
  have [simp]: "sc = s" using c by (simp add: checkLimits_run)
  define terms where "terms = (t, k)"
  have act: "activeMandate env now row (ex_plan x) s = Inr (terms, s)"
    and prev: "listRouteFundingSteps (rp_id (ex_plan x)) s = Inr (previous, s)"
    and lim: "checkLimits env x row (fst terms) previous s = Inr ((), s)"
    and ch: "chargeMandate now x row s = Inr ((), s1)"
    using a b c d by (simp_all add: terms_def)
  note ins = ins [folded terms_def]
  show thesis
  proof (rule that [OF row act prev lim])
    show "\<exists>m \<in> set (route_payment_mandates s). rm_id m = rm_id row \<and> rm_state m = Mandate_active \<and> to_seconds now < rm_expires_at m
               \<and> rm_reserved_minor m + ex_total_minor x \<le> rm_max_aggregate_minor m"
      using ch by (auto simp: chargeMandate_def run_simps filter_empty_conv)
    show "s' = (let charged = s\<lparr>route_payment_mandates := set_rows
             (\<lambda>m. rm_id m = rm_id row \<and> rm_state m = Mandate_active \<and> to_seconds now < rm_expires_at m
               \<and> rm_reserved_minor m + ex_total_minor x \<le> rm_max_aggregate_minor m)
             (\<lambda>m. m\<lparr>rm_reserved_minor := rm_reserved_minor m + ex_total_minor x\<rparr>) (route_payment_mandates s)\<rparr> in
           if ex_retry x = None then charged\<lparr>route_funding_steps := route_funding_steps s @ [new_step env now fresh x row terms]\<rparr>
           else charged\<lparr>route_retry_funding_steps := route_retry_funding_steps s @ [new_step env now fresh x row terms]\<rparr>)"
      using ch ins s' by (auto simp: chargeMandate_def insertRetryStep_def insertOriginalStep_def run_simps split: if_splits)
  qed
qed

lemma reserve_mandate_keeps:
  assumes ok: "mandates_ok s" and run: "reserveMandateExposure env now fresh x s = Inr (u, s')" and v: "0 < ex_total_minor x"
  shows "mandates_ok s'"
  using run
proof (rule reserve_mandate_run)
  let ?ms = "route_payment_mandates s" and ?os = "route_funding_steps s" and ?rs = "route_retry_funding_steps s"
  fix row terms previous
  assume row: "find (\<lambda>m. rm_id m = ex_mandate_id x \<and> rm_route_id m = rp_id (ex_plan x)) ?ms = Some row"
    and act: "activeMandate env now row (ex_plan x) s = Inr (terms, s)"
    and prev: "listRouteFundingSteps (rp_id (ex_plan x)) s = Inr (previous, s)"
    and lim: "checkLimits env x row (fst terms) previous s = Inr ((), s)"
    and s': "s' = (let charged = s\<lparr>route_payment_mandates := set_rows
             (\<lambda>m. rm_id m = rm_id row \<and> rm_state m = Mandate_active \<and> to_seconds now < rm_expires_at m
               \<and> rm_reserved_minor m + ex_total_minor x \<le> rm_max_aggregate_minor m)
             (\<lambda>m. m\<lparr>rm_reserved_minor := rm_reserved_minor m + ex_total_minor x\<rparr>) ?ms\<rparr> in
           if ex_retry x = None then charged\<lparr>route_funding_steps := ?os @ [new_step env now fresh x row terms]\<rparr>
           else charged\<lparr>route_retry_funding_steps := ?rs @ [new_step env now fresh x row terms]\<rparr>)"
    and hit: "\<exists>m \<in> set ?ms. rm_id m = rm_id row \<and> rm_state m = Mandate_active \<and> to_seconds now < rm_expires_at m
               \<and> rm_reserved_minor m + ex_total_minor x \<le> rm_max_aggregate_minor m"
  from ok have books: "mandate_books ?ms ?os ?rs" by (simp add: mandates_ok_def)
  from find_Some_in [OF row] have mem: "row \<in> set ?ms" and route: "rm_route_id row = rp_id (ex_plan x)" by simp_all
  from act have terms: "fst terms = rm_terms row" by (auto simp: activeMandate_run dest: termsOf_Inr)
  have previous: "previous = filter (\<lambda>f. fs_route_id f = rm_route_id row) ?os @ sort_key fs_created_at (filter (\<lambda>f. fs_route_id f = rm_route_id row) ?rs)"
    using prev by (simp add: listRouteFundingSteps_def run_simps route)
  note steps = previous_steps [OF books mem previous]
  have same: "m = row" if "m \<in> set ?ms" "rm_id m = rm_id row" for m
    using unique_key_eq [OF books_distinct(1) [OF books] that(1) mem that(2)] .
  let ?f = "new_step env now fresh x row terms" and ?retried = "ex_retry x \<noteq> None"
  have "mandate_books (set_rows (\<lambda>m. rm_id m = rm_id row \<and> rm_state m = Mandate_active \<and> to_seconds now < rm_expires_at m
               \<and> rm_reserved_minor m + ex_total_minor x \<le> rm_max_aggregate_minor m)
      (\<lambda>m. m\<lparr>rm_reserved_minor := rm_reserved_minor m + ex_total_minor x\<rparr>) ?ms)
    (if ?retried then ?os else ?os @ [?f]) (if ?retried then ?rs @ [?f] else ?rs)"
  proof (rule books_charge [OF books mem])
    show "(rm_id m = rm_id row \<and> rm_state m = Mandate_active \<and> to_seconds now < rm_expires_at m
        \<and> rm_reserved_minor m + ex_total_minor x \<le> rm_max_aggregate_minor m) \<longleftrightarrow> rm_id m = rm_id row" if "m \<in> set ?ms" for m
      using hit same that by metis
    show "fs_mandate_id ?f = rm_id row" "fs_route_id ?f = rm_route_id row" "fs_amount_minor ?f = ex_total_minor x"
      by (simp_all add: new_step_def route)
    show "0 < ex_total_minor x" by (rule v)
    show "ex_total_minor x \<le> mt_max_per_execution (rm_terms row)" "rm_reserved_minor row + ex_total_minor x \<le> rm_max_aggregate_minor row"
      using lim by (auto simp: checkLimits_run terms)
    show "attempts_on (rm_id row) (?os @ ?rs) < mt_max_attempts (rm_terms row)" using lim steps(1) by (auto simp: checkLimits_run terms)
    show "spent_on (rm_id row) ?rs + ex_total_minor x \<le> mt_max_retry_budget (rm_terms row)" if ?retried
      using lim steps(2) that by (auto simp: checkLimits_run terms)
    show "?retried \<longleftrightarrow> rm_route_id row \<in> fs_route_id ` set ?os" using lim steps(3) by (auto simp: checkLimits_run)
  qed
  then show "mandates_ok s'" unfolding s' by (auto simp: mandates_ok_def Let_def)
qed

text \<open>
  The requests of the program on mandates and funding steps; everything else leaves the three
  tables as they are.  The environment may differ from step to step: the configuration, the
  organizations and the workflows change.
\<close>

inductive mandate_step :: "db \<Rightarrow> db \<Rightarrow> bool" for s where
  granted: "createRouteMandateInTransaction env now fresh routeId ownerId input s = Inr (r, s') \<Longrightarrow> mandate_step s s'"
| revoked: "revokeRouteMandate env now routeId ownerId s = Inr (r, s') \<Longrightarrow> mandate_step s s'"
| reserved: "reserveMandateExposure env now fresh x s = Inr (u, s') \<Longrightarrow> 0 < ex_total_minor x \<Longrightarrow> mandate_step s s'"
| recorded: "recordMandateFunding tradeId st s = Inr (u, s') \<Longrightarrow> mandate_step s s'"
| elsewhere: "route_payment_mandates s' = route_payment_mandates s \<Longrightarrow> route_funding_steps s' = route_funding_steps s \<Longrightarrow>
    route_retry_funding_steps s' = route_retry_funding_steps s \<Longrightarrow> mandate_step s s'"

lemma mandate_step_ok: "mandate_step s s' \<Longrightarrow> mandates_ok s \<Longrightarrow> mandates_ok s'"
proof (induction rule: mandate_step.cases)
  case (reserved env now fresh x u s')
  then show ?case using reserve_mandate_keeps by blast
qed (auto dest: keepsD [OF create_mandate_keeps, rotated] keepsD [OF revoke_mandate_keeps, rotated] keepsD [OF record_mandate_keeps, rotated] simp: mandates_ok_def)

lemma mandate_history_ok: "mandate_step\<^sup>*\<^sup>* s s' \<Longrightarrow> mandates_ok s \<Longrightarrow> mandates_ok s'"
  by (induction rule: rtranclp_induct) (auto intro: mandate_step_ok)

lemma no_mandates_ok: "route_payment_mandates s = [] \<Longrightarrow> route_funding_steps s = [] \<Longrightarrow> route_retry_funding_steps s = [] \<Longrightarrow> mandates_ok s"
  by (simp add: mandates_ok_def mandate_books_def)

lemma mandate_limits:
  assumes "mandates_ok s" and m: "m \<in> set (route_payment_mandates s)"
  shows "within_terms (route_funding_steps s) (route_retry_funding_steps s) m"
    and "f \<in> set (route_funding_steps s @ route_retry_funding_steps s) \<Longrightarrow> fs_mandate_id f = rm_id m \<Longrightarrow>
      fs_route_id f = rm_route_id m \<and> fs_amount_minor f \<le> mt_max_per_execution (rm_terms m)"
proof -
  from assms(1) have books: "mandate_books (route_payment_mandates s) (route_funding_steps s) (route_retry_funding_steps s)" by (simp add: mandates_ok_def)
  show "within_terms (route_funding_steps s) (route_retry_funding_steps s) m" by (rule books_within [OF books m])
  assume f: "f \<in> set (route_funding_steps s @ route_retry_funding_steps s)" "fs_mandate_id f = rm_id m"
  then obtain n where n: "n \<in> set (route_payment_mandates s)" "fs_mandate_id f = rm_id n" "fs_route_id f = rm_route_id n"
    "fs_amount_minor f \<le> mt_max_per_execution (rm_terms n)"
    using books_authorized [OF books, of f] by (auto simp: step_authorized_def)
  have "n = m" by (rule unique_key_eq [OF books_distinct(1) [OF books] n(1) m]) (use f(2) n(2) in simp)
  then show "fs_route_id f = rm_route_id m \<and> fs_amount_minor f \<le> mt_max_per_execution (rm_terms m)" using n by simp
qed

lemma eligible_step:
  assumes "mandateFundingEligibility env now t actual s = Inr None" and "findTradeFundingStep (t_id t) s = Inr (Some f, s)"
  shows "\<exists>m \<in> set (route_payment_mandates s). \<exists>p \<in> set (route_plans s). \<exists>terms.
     rm_id m = fs_mandate_id f \<and> rp_id p = fs_route_id f \<and> fs_state f = Step_reserved
     \<and> fs_amount_minor f = to_minor (t_total_cost t) \<and> fs_amount_minor f \<le> rm_reserved_minor m
     \<and> rp_service_order_id p = Some (fs_order_id f) \<and> activeMandate env now m p s = Inr (terms, s)
     \<and> me_terms_hash env terms = fs_terms_hash f \<and> mp_rail (mt_payment (fst terms)) = t_payment_rail t
     \<and> t_seller_id t \<in> set (mt_approved_providers (fst terms))
     \<and> (\<forall>a. actual = Some a \<longrightarrow> terms_match a (mt_payment (fst terms)))"
proof -
  have "\<exists>s'. checkStep env now t actual f s = Inr (None, s')"
    using assms by (auto simp: mandateFundingEligibility_def split: sum.splits app_error.splits)
  then obtain s' where run: "checkStep env now t actual f s = Inr (None, s')" by (elim exE)
  then obtain m p where m: "find (\<lambda>m. rm_id m = fs_mandate_id f) (route_payment_mandates s) = Some m"
    and p: "find (\<lambda>p. rp_id p = fs_route_id f) (route_plans s) = Some p"
    by (auto simp: checkStep_def run_simps split: option.splits)
  with run have "fs_state f = Step_reserved \<and> fs_amount_minor f = to_minor (t_total_cost t) \<and> fs_amount_minor f \<le> rm_reserved_minor m
     \<and> rp_service_order_id p = Some (fs_order_id f)
     \<and> (\<exists>terms. activeMandate env now m p s = Inr (terms, s) \<and> me_terms_hash env terms = fs_terms_hash f
          \<and> mp_rail (mt_payment (fst terms)) = t_payment_rail t \<and> t_seller_id t \<in> set (mt_approved_providers (fst terms))
          \<and> (\<forall>a. actual = Some a \<longrightarrow> terms_match a (mt_payment (fst terms))))"
    by (auto simp: checkStep_def run_simps activeMandate_run not_less split: if_splits option.splits)
  then show ?thesis using find_Some_in [OF m] find_Some_in [OF p] by (intro bexI [of _ m] bexI [of _ p]) auto
qed

section \<open>Properties\<close>

text \<open>
  C16. A mandate is never overspent.  Start from a database without mandates and let any requests
  follow: mandates are granted and revoked, exposure of some price is reserved for first attempts
  and for retries, payments are recorded, in any order and under any configuration.  Then what a
  mandate has reserved is the sum of the amounts of its funding steps and within the aggregate
  that its owner approved, the steps are not more than the approved attempts, the retries are
  within the retry budget, and every step is for the route of the mandate and within the limit of
  one execution.
\<close>

theorem mandate_never_overspent:
  assumes history: "mandate_step\<^sup>*\<^sup>* s0 s"
    and "route_payment_mandates s0 = []" and "route_funding_steps s0 = []" and "route_retry_funding_steps s0 = []"
    and m: "m \<in> set (route_payment_mandates s)"
  shows "rm_reserved_minor m = spent_on (rm_id m) (route_funding_steps s @ route_retry_funding_steps s)
    \<and> rm_reserved_minor m \<le> mt_max_aggregate (rm_terms m)
    \<and> attempts_on (rm_id m) (route_funding_steps s @ route_retry_funding_steps s) \<le> mt_max_attempts (rm_terms m)
    \<and> spent_on (rm_id m) (route_retry_funding_steps s) \<le> mt_max_retry_budget (rm_terms m)
    \<and> (\<forall>f \<in> set (route_funding_steps s @ route_retry_funding_steps s). fs_mandate_id f = rm_id m
         \<longrightarrow> fs_route_id f = rm_route_id m \<and> fs_amount_minor f \<le> mt_max_per_execution (rm_terms m))"
proof -
  have ok: "mandates_ok s" by (rule mandate_history_ok [OF history no_mandates_ok]) (use assms in simp_all)
  from mandate_limits(1) [OF ok m] mandate_limits(2) [OF ok m] show ?thesis unfolding within_terms_def by simp
qed

text \<open>
  C12. A payment for a step of a route is asked for or taken only under a mandate in force: when
  \<open>mandateFundingEligibility\<close> gives no reason against it, the step is still reserved, for the price
  of the trade and for the order that the route is at, its mandate is active and has not expired,
  its owner still controls the buyer, nothing that the route was authorized for has changed, the
  terms are those that the step was reserved under, they approve the seller and the rail, and an
  actual payment has their chain, token, payer and treasury.
\<close>

theorem payment_needs_mandate:
  assumes eligible: "mandateFundingEligibility env now t actual s = Inr None"
    and step: "findTradeFundingStep (t_id t) s = Inr (Some f, s)"
  shows "\<exists>m \<in> set (route_payment_mandates s). \<exists>p \<in> set (route_plans s).
     rm_id m = fs_mandate_id f \<and> rp_id p = fs_route_id f \<and> rp_service_order_id p = Some (fs_order_id f)
     \<and> fs_state f = Step_reserved \<and> fs_amount_minor f = to_minor (t_total_cost t) \<and> fs_amount_minor f \<le> rm_reserved_minor m
     \<and> rm_state m = Mandate_active \<and> now < rm_expires_at m * 1000
     \<and> ownerControlsBuyer (rm_owner_account_id m) (rp_buyer_id p) s \<and> rm_route_hash m = routeAuthorityHash env p
     \<and> me_terms_hash env (rm_terms m, rm_token m) = fs_terms_hash f
     \<and> t_seller_id t \<in> set (mt_approved_providers (rm_terms m)) \<and> t_payment_rail t = mp_rail (mt_payment (rm_terms m))
     \<and> (\<forall>a. actual = Some a \<longrightarrow> terms_match a (mt_payment (rm_terms m)))"
proof -
  from eligible_step [OF eligible step] obtain m p terms where m: "m \<in> set (route_payment_mandates s)" and p: "p \<in> set (route_plans s)"
    and facts: "rm_id m = fs_mandate_id f" "rp_id p = fs_route_id f" "fs_state f = Step_reserved"
      "fs_amount_minor f = to_minor (t_total_cost t)" "fs_amount_minor f \<le> rm_reserved_minor m" "rp_service_order_id p = Some (fs_order_id f)"
    and act: "activeMandate env now m p s = Inr (terms, s)"
    and terms: "me_terms_hash env terms = fs_terms_hash f" "mp_rail (mt_payment (fst terms)) = t_payment_rail t"
      "t_seller_id t \<in> set (mt_approved_providers (fst terms))" "\<forall>a. actual = Some a \<longrightarrow> terms_match a (mt_payment (fst terms))"
    by (elim bexE exE conjE)
  from act have "terms = (rm_terms m, rm_token m)" by (auto simp: activeMandate_run dest: termsOf_Inr)
  then show ?thesis using facts terms act
    by (intro bexI [OF _ m] bexI [OF _ p]) (auto simp: activeMandate_run)
qed

section \<open>Example\<close>

definition example_terms :: mandate_terms where
  "example_terms = \<lparr>mt_max_aggregate = 5000, mt_max_per_execution = 2500, mt_max_retry_budget = 2500, mt_max_attempts = 2,
     mt_approved_providers = [''user_agent_a2''], mt_max_latency_seconds = 60, mt_expires_at = 3600000,
     mt_payment = \<lparr>mp_rail = Evm, mp_chain_id = 1, mp_token_address = ''0xa'', mp_payer_address = ''0xb'', mp_treasury_address = ''0xc'',
       mp_minimum_token_reserve_units = ''0'', mp_minimum_native_reserve_wei = Some ''0'', mp_max_gas_cost_wei = Some ''9'',
       mp_fee_token_address = None, mp_minimum_fee_token_reserve_units = None, mp_max_fee_token_cost_units = None\<rparr>\<rparr>"

definition example_request :: mandate_input where
  "example_request = \<lparr>mn_client_reference = ''mandate1'', mn_terms = example_terms\<rparr>"

definition example_route :: route_plan where
  "example_route = \<lparr>rp_id = ''r1'', rp_buyer_id = ''user_agent_a1'', rp_objective = ''o'', rp_required_capabilities = ''[]'',
     rp_input_json = ''{}'', rp_max_budget_minor = 3000, rp_deadline_seconds = None, rp_execution_deadline_at = None,
     rp_verification_policy = ''v'', rp_payment_policy = ''p'', rp_retry_policy = ''t'', rp_provider_requirements_json = ''q'',
     rp_state = ''planned'', rp_service_order_id = None, rp_expires_at = 7200, rp_updated_at = 0\<rparr>"

definition example_service :: service_definition where
  "example_service = \<lparr>sd_organization_only = False, sd_id = ''s1'', sd_seller_id = ''user_agent_a2'', sd_capabilities = ''[]'',
     sd_input_schema = ''{}'', sd_output_schema = ''{}'', sd_price_minor = 2000, sd_estimated_latency_seconds = Some 30,
     sd_max_concurrency = 1, sd_active_orders = 0, sd_leased = False, sd_verification_policy = ''v'', sd_active = True, sd_updated_at = 0\<rparr>"

definition example_env :: mandate_env where
  "example_env = \<lparr>me_is_address = starts_with ''0x'', me_authority_hash = (\<lambda>a. ra_id a @ ra_objective a), me_terms_hash = (\<lambda>_. ''th''),
     me_request_hash = mn_client_reference, me_evm_enabled = True, me_evm_treasury = Some ''0xC'',
     me_token = (\<lambda>c a. if c = 1 \<and> a = ''0xa'' then Some (6, 1) else None), me_mpp_enabled = False, me_mpp_chain_id = 4217,
     me_mpp_currency = ''0xd'', me_mpp_recipient = None, me_execution_enabled = (\<lambda>_. True),
     me_policy = (\<lambda>_. Inr \<lparr>vp_methods = [''schema''], vp_minimum_sources = None, vp_acceptance_mode = Some ''explicit_buyer'',
       vp_isolated_checks = None, vp_assertions = None, vp_source_evidence = None\<rparr>),
     me_allowed_rails = (\<lambda>_. None), me_organization = (\<lambda>_ _ _. None), me_workflow = (\<lambda>_ _ _ _. None),
     me_consume_organization = (\<lambda>_ _. None), me_reserve_workflow = (\<lambda>_ _ _ _. None)\<rparr>"

definition example_exposure :: exposure_input where
  "example_exposure = \<lparr>ex_mandate_id = ''m1'', ex_plan = example_route, ex_service = example_service, ex_rail = Evm,
     ex_total_minor = 2000, ex_order_id = ''o1'', ex_trade_id = ''t1'', ex_retry = None\<rparr>"

definition example_token :: token_contract where
  "example_token = \<lparr>tc_token_decimals = 6, tc_token_usd_price = 1, tc_fee_token_decimals = None\<rparr>"

definition example_mandate :: route_mandate where
  "example_mandate = \<lparr>rm_id = ''m1'', rm_route_id = ''r1'', rm_buyer_id = ''user_agent_a1'', rm_owner_account_id = ''u1'',
     rm_client_reference = ''mandate1'', rm_request_hash = ''mandate1'', rm_route_hash = ''r1o'', rm_terms = example_terms,
     rm_token = example_token, rm_max_aggregate_minor = 5000, rm_reserved_minor = 0,
     rm_state = Mandate_active, rm_expires_at = 3600, rm_revoked_at = None\<rparr>"

definition example_step :: funding_step where
  "example_step = \<lparr>fs_id = ''f1'', fs_mandate_id = ''m1'', fs_route_id = ''r1'', fs_order_id = ''o1'', fs_trade_id = ''t1'',
     fs_amount_minor = 2000, fs_terms_hash = ''th'', fs_state = Step_reserved, fs_retry = None, fs_created_at = 1\<rparr>"

definition planned_db :: db where
  "planned_db = empty_db\<lparr>route_plans := [example_route], agent_owners := [\<lparr>ao_agent_id = ''a1'', ao_user_id = ''u1''\<rparr>]\<rparr>"

definition granted_db :: db where
  "granted_db = planned_db\<lparr>route_payment_mandates := [example_mandate]\<rparr>"

definition exposed_db :: db where
  "exposed_db = granted_db\<lparr>route_payment_mandates := [example_mandate\<lparr>rm_reserved_minor := 2000\<rparr>], route_funding_steps := [example_step]\<rparr>"

definition ordered_db :: db where
  "ordered_db = exposed_db\<lparr>route_plans := [example_route\<lparr>rp_service_order_id := Some ''o1''\<rparr>]\<rparr>"

lemma example_lower: "lower ''0xa'' = ''0xa''" "lower ''0xb'' = ''0xb''" "lower ''0xc'' = ''0xc''" "lower ''0xC'' = ''0xc''"
  by code_simp+

lemma example_stored: "storedMandateInput example_env example_request"
  by (simp add: storedMandateInput_def example_request_def example_terms_def Let_def mandate_money_def reference_char_def
      storedPaymentSchema_def routeMandatePaymentInput_def payment_fields_def evm_fee_fields_def evm_address_def some_that_def
      unit_text_def positive_units_def digits_only_def example_env_def starts_with_def example_lower)

lemma example_valid: "routeMandateInput example_env example_request"
  using example_stored by (simp add: routeMandateInput_def example_request_def example_terms_def)

lemma example_contract: "paymentContract example_env (mt_payment example_terms) = Inr example_token"
  by (simp add: paymentContract_def example_terms_def example_env_def example_token_def example_lower)

lemma example_authority: "routeAuthorityHash example_env example_route = ''r1o''"
  by (simp add: routeAuthorityHash_def example_env_def example_route_def)

lemma example_control: "agent_owners s = [\<lparr>ao_agent_id = ''a1'', ao_user_id = ''u1''\<rparr>] \<Longrightarrow> ownerControlsBuyer ''u1'' ''user_agent_a1'' s"
  by (simp add: ownerControlsBuyer_def agent_prefix_def starts_with_def)

lemma example_termsOf: "rm_terms m = example_terms \<Longrightarrow> rm_token m = example_token \<Longrightarrow> rm_client_reference m = ''mandate1'' \<Longrightarrow>
   rm_max_aggregate_minor m = 5000 \<Longrightarrow> rm_expires_at m = 3600 \<Longrightarrow> 0 \<le> rm_reserved_minor m \<Longrightarrow> rm_reserved_minor m \<le> 5000 \<Longrightarrow>
   termsOf example_env m = Inr (example_terms, example_token)"
  using example_stored by (simp add: termsOf_def example_request_def Let_def example_terms_def example_token_def)

lemma example_granted: "createRouteMandateInTransaction example_env 0 ''m1'' ''r1'' ''u1'' example_request planned_db = Inr ((example_mandate, False), granted_db)"
proof -
  let ?s = "planned_db\<lparr>route_payment_mandates := [example_mandate]\<rparr>"
  have row: "\<lparr>rm_id = ''m1'', rm_route_id = ''r1'', rm_buyer_id = ''user_agent_a1'', rm_owner_account_id = ''u1'',
      rm_client_reference = ''mandate1'', rm_request_hash = ''mandate1'', rm_route_hash = ''r1o'', rm_terms = example_terms,
      rm_token = example_token, rm_max_aggregate_minor = 5000, rm_reserved_minor = 0,
      rm_state = Mandate_active, rm_expires_at = 3600, rm_revoked_at = None\<rparr> = example_mandate" by (simp add: example_mandate_def)
  have dates: "example_terms\<lparr>mt_expires_at := 3600000\<rparr> = example_terms" by (simp add: example_terms_def)
  have dto: "mandateDto example_env example_mandate False s = Inr ((example_mandate, False), s)" for s
    using example_termsOf [of example_mandate] by (simp add: mandateDto_def run_simps example_mandate_def)
  have grant: "grantMandate example_env 0 ''m1'' ''u1'' example_request example_route planned_db = Inr ((example_mandate, False), granted_db)"
    using example_contract example_authority dto [of granted_db] row dates
    by (simp add: grantMandate_def Let_def run_simps insertMandate_def granted_db_def planned_db_def) 
      (simp add: example_request_def example_route_def example_env_def example_terms_def buyer_accepts_def)
  show ?thesis
    using grant example_valid example_control [of planned_db]
    by (simp add: createRouteMandateInTransaction_def run_simps planned_db_def example_route_def)
qed

lemma example_active:
  assumes "agent_owners s = [\<lparr>ao_agent_id = ''a1'', ao_user_id = ''u1''\<rparr>]" and "0 \<le> v" and "v \<le> 5000"
  shows "activeMandate example_env 1000 (example_mandate\<lparr>rm_reserved_minor := v\<rparr>) (example_route\<lparr>rp_service_order_id := o'\<rparr>) s = Inr ((example_terms, example_token), s)"
proof -
  have hash: "routeAuthorityHash example_env (example_route\<lparr>rp_service_order_id := o'\<rparr>) = ''r1o''"
    by (simp add: routeAuthorityHash_def example_env_def example_route_def)
  have "termsOf example_env (example_mandate\<lparr>rm_reserved_minor := v\<rparr>) = Inr (example_terms, example_token)"
    by (rule example_termsOf) (use assms in \<open>simp_all add: example_mandate_def\<close>)
  then show ?thesis using hash example_contract example_control [OF assms(1)]
    by (simp add: activeMandate_run) (simp add: example_mandate_def example_route_def example_env_def)
qed

lemma example_reserved: "reserveMandateExposure example_env 1000 ''f1'' example_exposure granted_db = Inr ((), exposed_db)"
proof -
  let ?m = "example_mandate\<lparr>rm_reserved_minor := 0\<rparr>" and ?r = "example_route\<lparr>rp_service_order_id := None\<rparr>"
  have m: "example_mandate = ?m" and r: "example_route = ?r" by (simp_all add: example_mandate_def example_route_def)
  have act: "activeMandate example_env 1000 example_mandate example_route granted_db = Inr ((example_terms, example_token), granted_db)"
    using example_active [of granted_db 0 None] m r by (simp add: granted_db_def planned_db_def)
  have found: "select_one route_payment_mandates (\<lambda>m. rm_id m = ''m1'' \<and> rm_route_id m = ''r1'') granted_db = Inr (Some example_mandate, granted_db)"
    by (simp add: granted_db_def example_mandate_def)
  have steps: "listRouteFundingSteps ''r1'' granted_db = Inr ([], granted_db)"
    by (simp add: listRouteFundingSteps_def run_simps granted_db_def planned_db_def)
  have limits: "checkLimits example_env example_exposure example_mandate example_terms [] granted_db = Inr ((), granted_db)"
    by (simp add: checkLimits_run example_exposure_def example_mandate_def example_terms_def example_service_def example_env_def
        example_route_def buyer_accepts_def supportsVerification_def)
  have charge: "chargeMandate 1000 example_exposure example_mandate granted_db =
      Inr ((), granted_db\<lparr>route_payment_mandates := [example_mandate\<lparr>rm_reserved_minor := 2000\<rparr>]\<rparr>)"
    by (simp add: chargeMandate_def run_simps granted_db_def example_exposure_def example_mandate_def to_seconds_def)
  have "new_step example_env 1000 ''f1'' example_exposure example_mandate (example_terms, example_token) = example_step"
    by (simp add: new_step_def example_env_def example_exposure_def example_mandate_def example_step_def example_route_def to_seconds_def)
  then have insert: "insertOriginalStep (new_step example_env 1000 ''f1'' example_exposure example_mandate (example_terms, example_token))
      (granted_db\<lparr>route_payment_mandates := [example_mandate\<lparr>rm_reserved_minor := 2000\<rparr>]\<rparr>) = Inr ((), exposed_db)"
    by (simp add: insertOriginalStep_def exposed_db_def granted_db_def planned_db_def)
  have ids: "ex_mandate_id example_exposure = ''m1''" "ex_plan example_exposure = example_route" "rp_id example_route = ''r1''" "ex_retry example_exposure = None"
    by (simp_all add: example_exposure_def example_route_def)
  have row: "some_or e (Some example_mandate) granted_db = Inr (example_mandate, granted_db)" for e :: app_error by simp
  have hooks: "unless_refused (me_consume_organization example_env x) s = Inr ((), s)"
    "unless_refused (me_reserve_workflow example_env x m t) s = Inr ((), s)" for x m t s
    by (simp_all add: example_env_def)
  show ?thesis unfolding reserveMandateExposure_def ids
    by (simp add: bnd_Inr andthen_Inr found row act steps limits charge insert hooks
        del: unless_refused_run select_one_run some_or_run)
qed

lemma example_history: "mandate_step\<^sup>*\<^sup>* planned_db exposed_db"
proof (rule converse_rtranclp_into_rtranclp)
  show "mandate_step planned_db granted_db" by (rule mandate_step.granted [OF example_granted])
  have "mandate_step granted_db exposed_db" by (rule mandate_step.reserved [OF example_reserved]) (simp add: example_exposure_def)
  then show "mandate_step\<^sup>*\<^sup>* granted_db exposed_db" by (rule r_into_rtranclp)
qed

lemma mandate_never_overspent_witness:
  "\<exists>m \<in> set (route_payment_mandates exposed_db). rm_reserved_minor m = 2000
     \<and> spent_on (rm_id m) (route_funding_steps exposed_db @ route_retry_funding_steps exposed_db) = 2000
     \<and> attempts_on (rm_id m) (route_funding_steps exposed_db @ route_retry_funding_steps exposed_db) \<le> 2"
proof -
  let ?m = "example_mandate\<lparr>rm_reserved_minor := 2000\<rparr>"
  have m: "?m \<in> set (route_payment_mandates exposed_db)" by (simp add: exposed_db_def)
  note books = mandate_never_overspent [OF example_history _ _ _ m]
  show ?thesis by (rule bexI [OF _ m]) (use books in \<open>simp add: planned_db_def example_mandate_def example_terms_def\<close>)
qed

lemma payment_needs_mandate_witness:
  "mandateFundingEligibility example_env 1000 (sample_trade\<lparr>t_payment_rail := Evm\<rparr>) None ordered_db = Inr None
   \<and> (\<exists>m \<in> set (route_payment_mandates ordered_db). rm_state m = Mandate_active \<and> ''user_agent_a2'' \<in> set (mt_approved_providers (rm_terms m)))"
proof -
  let ?t = "sample_trade\<lparr>t_payment_rail := Evm\<rparr>"
  have owners: "agent_owners ordered_db = [\<lparr>ao_agent_id = ''a1'', ao_user_id = ''u1''\<rparr>]"
    by (simp add: ordered_db_def exposed_db_def granted_db_def planned_db_def)
  have tables: "route_payment_mandates ordered_db = [example_mandate\<lparr>rm_reserved_minor := 2000\<rparr>]" "route_funding_steps ordered_db = [example_step]"
    "route_retry_funding_steps ordered_db = []" "route_plans ordered_db = [example_route\<lparr>rp_service_order_id := Some ''o1''\<rparr>]"
    by (simp_all add: ordered_db_def exposed_db_def granted_db_def planned_db_def)
  have step: "findTradeFundingStep (t_id ?t) ordered_db = Inr (Some example_step, ordered_db)"
    by (simp add: findTradeFundingStep_def run_simps tables sample_trade_def example_step_def)
  have price: "to_minor (t_total_cost ?t) = 2000" unfolding sample_trade_def by code_simp
  let ?m = "example_mandate\<lparr>rm_reserved_minor := 2000\<rparr>" and ?p = "example_route\<lparr>rp_service_order_id := Some ''o1''\<rparr>"
  have found: "select_one route_payment_mandates (\<lambda>m. rm_id m = ''m1'') ordered_db = Inr (Some ?m, ordered_db)"
    "select_one route_plans (\<lambda>p. rp_id p = ''r1'') ordered_db = Inr (Some ?p, ordered_db)"
    by (simp_all add: tables) (simp_all add: example_mandate_def example_route_def)
  have ids: "fs_mandate_id example_step = ''m1''" "fs_route_id example_step = ''r1''" by (simp_all add: example_step_def)
  have active: "activeMandate example_env 1000 ?m ?p ordered_db = Inr ((example_terms, example_token), ordered_db)"
    by (rule example_active [OF owners]) simp_all
  have plain: "\<not> (fs_state example_step \<noteq> Step_reserved \<or> rm_reserved_minor ?m < fs_amount_minor example_step
      \<or> fs_amount_minor example_step \<noteq> to_minor (t_total_cost ?t) \<or> rp_service_order_id ?p \<noteq> Some (fs_order_id example_step))"
    "\<not> (me_terms_hash example_env (example_terms, example_token) \<noteq> fs_terms_hash example_step \<or> mp_rail (mt_payment (fst (example_terms, example_token))) \<noteq> t_payment_rail ?t
      \<or> t_seller_id ?t \<notin> set (mt_approved_providers (fst (example_terms, example_token))))"
    using price by (simp_all add: example_step_def example_env_def example_terms_def sample_trade_def)
  have "checkStep example_env 1000 ?t None example_step ordered_db = Inr (None, ordered_db)"
    unfolding checkStep_def ids
    by (simp only: bnd_Inr found option.case prod.case if_not_P [OF plain(1)] active if_not_P [OF plain(2)]) (simp add: claimMatches_def)
  then have eligible: "mandateFundingEligibility example_env 1000 ?t None ordered_db = Inr None"
    by (simp only: mandateFundingEligibility_def step sum.case option.case prod.case)
  from payment_needs_mandate [OF eligible step] show ?thesis
    using eligible by (auto simp: sample_trade_def)
qed

end
